(* ===== verification/FL_Prelude.thy ===== *)
theory FL_Prelude
  imports Complex_Main "HOL-Library.Char_ord" "HOL-Library.List_Lexorder"
    "HOL-Library.Product_Lexorder" "HOL-Library.Sublist" "HOL-Library.AList"
    "HOL-Library.Multiset"
begin

text \<open>
  Shared vocabulary of the development: the Python built-ins the gateway uses (string
  methods, slices, stable sorting, dictionaries in insertion order) and the generic lemmas
  the component theories rest on.

  Text is a \<^typ>\<open>string\<close> of 8-bit characters read as the code points 0 to 255; on them
  \<open>lower\<close>, \<open>strip\<close>, \<open>isdigit\<close>, \<open>isalnum\<close> and \<open>isspace\<close> below are those of
  Python's \<open>str\<close>. Floats are exact rationals (\<^typ>\<open>rat\<close>): rounding error, infinities and
  NaN are outside the model. Python integers are \<^typ>\<open>int\<close>. Time stamps are whole seconds:
  the program formats every stamp as a fixed-width UTC string, whose text order is the order
  of the instants.
\<close>

named_theorems py_simps \<open>equations that evaluate the Python primitives\<close>
named_theorems sel_simps \<open>membership in selections, sorts and slices\<close>

type_synonym timestamp = int
type_synonym model_id = string
type_synonym provider_id = string

section \<open>Characters and strings\<close>

definition code :: "char \<Rightarrow> nat" where
  "code c = of_char c"

definition chr_lower :: "char \<Rightarrow> char" where
  "chr_lower c = (let n = code c in
     if 65 \<le> n \<and> n \<le> 90 \<or> 192 \<le> n \<and> n \<le> 222 \<and> n \<noteq> 215 then char_of (n + 32) else c)"

definition chr_isspace :: "char \<Rightarrow> bool" where
  "chr_isspace c = (let n = code c in
     9 \<le> n \<and> n \<le> 13 \<or> 28 \<le> n \<and> n \<le> 32 \<or> n = 133 \<or> n = 160)"

definition chr_is_ascii_digit :: "char \<Rightarrow> bool" where
  "chr_is_ascii_digit c = (48 \<le> code c \<and> code c \<le> 57)"

text \<open>\<open>str.isdigit\<close> also accepts the superscripts two, three and one.\<close>

definition chr_isdigit :: "char \<Rightarrow> bool" where
  "chr_isdigit c = (chr_is_ascii_digit c \<or> code c = 178 \<or> code c = 179 \<or> code c = 185)"

definition chr_isalpha :: "char \<Rightarrow> bool" where
  "chr_isalpha c = (let n = code c in
     65 \<le> n \<and> n \<le> 90 \<or> 97 \<le> n \<and> n \<le> 122 \<or> n = 170 \<or> n = 181 \<or> n = 186 \<or>
     192 \<le> n \<and> n \<noteq> 215 \<and> n \<noteq> 247)"

text \<open>\<open>str.isalnum\<close> accepts letters, digits and the three vulgar fractions.\<close>

definition chr_isalnum :: "char \<Rightarrow> bool" where
  "chr_isalnum c = (chr_isalpha c \<or> chr_isdigit c \<or> 188 \<le> code c \<and> code c \<le> 190)"

definition py_lower :: "string \<Rightarrow> string" where
  "py_lower s = map chr_lower s"

definition py_lstrip :: "string \<Rightarrow> string" where
  "py_lstrip s = dropWhile chr_isspace s"

definition py_strip :: "string \<Rightarrow> string" where
  "py_strip s = rev (py_lstrip (rev (py_lstrip s)))"

definition py_rstrip_char :: "char \<Rightarrow> string \<Rightarrow> string" where
  "py_rstrip_char c s = rev (dropWhile (\<lambda>d. d = c) (rev s))"

definition py_startswith :: "string \<Rightarrow> string \<Rightarrow> bool" where
  "py_startswith s p = (take (length p) s = p)"

definition py_endswith :: "string \<Rightarrow> string \<Rightarrow> bool" where
  "py_endswith s p = py_startswith (rev s) (rev p)"

definition py_removesuffix :: "string \<Rightarrow> string \<Rightarrow> string" where
  "py_removesuffix s p = (if p \<noteq> [] \<and> py_endswith s p then take (length s - length p) s else s)"

text \<open>The operator \<open>in\<close> on strings.\<close>

fun py_in :: "string \<Rightarrow> string \<Rightarrow> bool" where
  "py_in p [] = (p = [])"
| "py_in p (c # cs) = (py_startswith (c # cs) p \<or> py_in p cs)"

definition py_isdigit :: "string \<Rightarrow> bool" where
  "py_isdigit s = (s \<noteq> [] \<and> list_all chr_isdigit s)"

fun digits_value :: "int \<Rightarrow> string \<Rightarrow> int" where
  "digits_value acc [] = acc"
| "digits_value acc (c # cs) = digits_value (10 * acc + (int (code c) - 48)) cs"

text \<open>\<open>int(s)\<close> in base ten: surrounding space, a sign, ASCII digits with single underscores
  between them; \<^const>\<open>None\<close> is \<open>ValueError\<close>.\<close>

fun digit_groups_ok :: "bool \<Rightarrow> string \<Rightarrow> bool" where
  "digit_groups_ok prev [] = prev"
| "digit_groups_ok prev (c # cs) =
     (if chr_is_ascii_digit c then digit_groups_ok True cs
      else prev \<and> c = CHR ''_'' \<and> digit_groups_ok False cs)"

definition py_int_digits :: "string \<Rightarrow> int option" where
  "py_int_digits s = (if digit_groups_ok False s
     then Some (digits_value 0 (filter chr_is_ascii_digit s)) else None)"

definition py_int :: "string \<Rightarrow> int option" where
  "py_int s = (case py_strip s of
       [] \<Rightarrow> None
     | c # cs \<Rightarrow> if c = CHR ''-'' then map_option uminus (py_int_digits cs)
                 else if c = CHR ''+'' then py_int_digits cs
                 else py_int_digits (c # cs))"

text \<open>\<open>str(n)\<close> of an integer.\<close>

fun show_nat :: "nat \<Rightarrow> string" where
  "show_nat n = (if n < 10 then [char_of (48 + n)] else show_nat (n div 10) @ [char_of (48 + n mod 10)])"

declare show_nat.simps [simp del]

definition show_int :: "int \<Rightarrow> string" where
  "show_int i = (if i < 0 then ''-'' @ show_nat (nat (- i)) else show_nat (nat i))"

lemmas py_string_defs = code_def chr_lower_def chr_isspace_def chr_is_ascii_digit_def
  chr_isdigit_def chr_isalpha_def chr_isalnum_def py_lower_def py_lstrip_def py_strip_def
  py_rstrip_char_def py_startswith_def py_endswith_def py_removesuffix_def py_isdigit_def
  py_int_digits_def py_int_def show_int_def

declare py_string_defs [py_simps] show_nat.simps [py_simps]

lemma py_lower_Nil [simp]: "py_lower [] = []"
  by (simp add: py_lower_def)

lemma py_strip_Nil [simp]: "py_strip [] = []"
  by (simp add: py_strip_def py_lstrip_def)

lemma chr_lower_idem [simp]: "chr_lower (chr_lower c) = chr_lower c"
proof -
  have "of_char c < (256 :: nat)" by (cases c) simp
  then show ?thesis
    by (auto simp: chr_lower_def code_def Let_def)
qed

lemma py_lower_idem [simp]: "py_lower (py_lower s) = py_lower s"
  by (simp add: py_lower_def)

lemma dropWhile_idem [simp]: "dropWhile P (dropWhile P xs) = dropWhile P xs"
  by (induction xs) auto

lemma dropWhile_rev_dropWhile [simp]:
  "dropWhile P (rev (dropWhile P (rev (dropWhile P xs)))) = rev (dropWhile P (rev (dropWhile P xs)))"
proof (cases "dropWhile P xs")
  case Nil
  show ?thesis unfolding Nil by simp
next
  case (Cons y ys)
  then have y: "\<not> P y" by (metis hd_dropWhile list.distinct(1) list.sel(1))
  then have "dropWhile P (rev (y # ys)) = dropWhile P (rev ys) @ [y]"
    by (induction "rev ys" arbitrary: ys) (auto simp: dropWhile_append)
  with Cons y show ?thesis by simp
qed

lemma py_strip_idem [simp]: "py_strip (py_strip s) = py_strip s"
  by (simp add: py_strip_def py_lstrip_def)

lemma py_removesuffix_append [simp]: "p \<noteq> [] \<Longrightarrow> py_removesuffix (s @ p) p = s"
  by (simp add: py_removesuffix_def py_endswith_def py_startswith_def)

lemma py_endswith_append [simp]: "py_endswith (s @ p) p"
  by (simp add: py_endswith_def py_startswith_def)

section \<open>Slices\<close>

text \<open>\<open>xs[:n]\<close>: a negative bound counts from the end.\<close>

definition py_prefix :: "int \<Rightarrow> 'a list \<Rightarrow> 'a list" where
  "py_prefix n xs = take (nat (if n < 0 then int (length xs) + n else n)) xs"

text \<open>\<open>xs[n:]\<close> for a bound that is not negative.\<close>

definition py_suffix_from :: "int \<Rightarrow> 'a list \<Rightarrow> 'a list" where
  "py_suffix_from n xs = drop (nat n) xs"

lemma py_prefix_nonneg: "0 \<le> n \<Longrightarrow> py_prefix n xs = take (nat n) xs"
  by (simp add: py_prefix_def)

lemma set_py_prefix [sel_simps]: "x \<in> set (py_prefix n xs) \<Longrightarrow> x \<in> set xs"
  by (simp add: py_prefix_def) (erule in_set_takeD)

lemma distinct_py_prefix: "distinct (map f xs) \<Longrightarrow> distinct (map f (py_prefix n xs))"
  by (simp add: py_prefix_def flip: take_map)

lemma length_py_prefix_le: "0 \<le> n \<Longrightarrow> int (length (py_prefix n xs)) \<le> n"
  by (simp add: py_prefix_def)

section \<open>Stable sorting\<close>

text \<open>
  \<open>sorted(xs, key=f, reverse=True)\<close>, and \<open>ORDER BY f DESC\<close> over the rows in the order the
  engine visits them: descending in the key, ties in the order of the input.
\<close>

definition sort_desc :: "('a \<Rightarrow> 'k::linorder) \<Rightarrow> 'a list \<Rightarrow> 'a list" where
  "sort_desc f xs = rev (sort_key f (rev xs))"

lemma set_sort_desc [simp]: "set (sort_desc f xs) = set xs"
  by (simp add: sort_desc_def)

lemma mset_sort_desc [simp]: "mset (sort_desc f xs) = mset xs"
  by (simp add: sort_desc_def)

lemma length_sort_desc [simp]: "length (sort_desc f xs) = length xs"
  by (simp add: sort_desc_def)

lemma distinct_map_sort_desc [simp]: "distinct (map g (sort_desc f xs)) = distinct (map g xs)"
  by (metis mset_map mset_eq_imp_distinct_iff mset_sort_desc)

lemma sort_desc_Nil [simp]: "sort_desc f [] = []"
  by (simp add: sort_desc_def)

lemma sort_desc_eq_Nil [simp]: "sort_desc f xs = [] \<longleftrightarrow> xs = []"
  by (metis length_0_conv length_sort_desc)

lemma sort_desc_sorted: "sorted_wrt (\<lambda>x y. f y \<le> f x) (sort_desc f xs)"
proof -
  have "sorted (map f (sort_key f (rev xs)))" by (rule sorted_sort_key)
  then have "sorted_wrt (\<lambda>x y. f x \<le> f y) (sort_key f (rev xs))"
    by (simp add: sorted_wrt_map)
  then show ?thesis
    by (simp add: sort_desc_def sorted_wrt_rev)
qed

lemma hd_sort_desc_max: "x \<in> set xs \<Longrightarrow> f x \<le> f (hd (sort_desc f xs))"
proof (cases "sort_desc f xs")
  case Nil
  assume "x \<in> set xs"
  with Nil show ?thesis by (metis empty_iff empty_set set_sort_desc)
next
  case (Cons y ys)
  assume x: "x \<in> set xs"
  have "sorted_wrt (\<lambda>a b. f b \<le> f a) (y # ys)" using sort_desc_sorted [of f xs] Cons by simp
  moreover have "x \<in> set (y # ys)" using x Cons by (metis set_sort_desc)
  ultimately show ?thesis using Cons by auto
qed

section \<open>First occurrences\<close>

text \<open>A loop that appends each item whose key was not seen before.\<close>

fun dedup_on :: "('a \<Rightarrow> 'k) \<Rightarrow> 'k list \<Rightarrow> 'a list \<Rightarrow> 'a list" where
  "dedup_on f seen [] = []"
| "dedup_on f seen (x # xs) =
     (if f x \<in> set seen then dedup_on f seen xs else x # dedup_on f (f x # seen) xs)"

lemma dedup_on_subset: "set (dedup_on f seen xs) \<subseteq> set xs"
  by (induction xs arbitrary: seen) auto

lemma dedup_on_unseen: "x \<in> set (dedup_on f seen xs) \<Longrightarrow> f x \<notin> set seen"
proof (induction xs arbitrary: seen)
  case (Cons y ys)
  then show ?case by (cases "f y \<in> set seen") fastforce+
qed simp

lemma dedup_on_distinct [simp]: "distinct (map f (dedup_on f seen xs))"
proof (induction xs arbitrary: seen)
  case Nil
  then show ?case by simp
next
  case (Cons x xs)
  then show ?case using dedup_on_unseen [of _ f "f x # seen" xs] by fastforce
qed

lemma dedup_on_keys: "f ` set (dedup_on f seen xs) = f ` set xs - set seen"
  by (induction xs arbitrary: seen) auto

lemma dedup_on_eq_Nil: "dedup_on f [] xs = [] \<longleftrightarrow> xs = []"
  by (cases xs) auto

text \<open>
  The same loop with a bound tested after each append: it stops once \<open>limit\<close> items were taken,
  so it takes one item even when the limit is not positive.
\<close>

fun collect_until :: "('a \<Rightarrow> 'k) \<Rightarrow> int \<Rightarrow> 'k list \<Rightarrow> nat \<Rightarrow> 'a list \<Rightarrow> 'a list" where
  "collect_until f limit seen n [] = []"
| "collect_until f limit seen n (x # xs) =
     (if f x \<in> set seen then collect_until f limit seen n xs
      else x # (if limit \<le> int (Suc n) then [] else collect_until f limit (f x # seen) (Suc n) xs))"

lemma collect_until_take:
  "collect_until f limit seen n xs = take (max 1 (nat limit - n)) (dedup_on f seen xs)"
proof (induction xs arbitrary: seen n)
  case (Cons x xs)
  have "nat limit - n = Suc (nat limit - Suc n)" if "\<not> limit \<le> int (Suc n)" using that by linarith
  moreover have "max 1 (nat limit - n) = 1" if "limit \<le> int (Suc n)" using that by linarith
  moreover have "max 1 (nat limit - Suc n) = nat limit - Suc n" if "\<not> limit \<le> int (Suc n)"
    using that by linarith
  ultimately show ?case by (auto simp: Cons.IH max_def)
qed simp

lemma find_SomeD: "find P xs = Some x \<Longrightarrow> x \<in> set xs \<and> P x"
  by (induction xs) (auto split: if_splits)

section \<open>Tables\<close>

text \<open>\<open>LIMIT n\<close>: a negative bound is no bound.\<close>

definition sql_limit :: "int \<Rightarrow> 'a list \<Rightarrow> 'a list" where
  "sql_limit n xs = (if n < 0 then xs else take (nat n) xs)"

lemma set_sql_limit: "x \<in> set (sql_limit n xs) \<Longrightarrow> x \<in> set xs"
  by (auto simp: sql_limit_def dest: in_set_takeD split: if_splits)

text \<open>\<open>GROUP BY key ORDER BY key\<close>\<close>

definition group_by :: "('a \<Rightarrow> 'k::linorder) \<Rightarrow> 'a list \<Rightarrow> ('k \<times> 'a list) list" where
  "group_by key xs = map (\<lambda>k. (k, filter (\<lambda>x. key x = k) xs)) (sort (remdups (map key xs)))"

definition count_if :: "('a \<Rightarrow> bool) \<Rightarrow> 'a list \<Rightarrow> int" where
  "count_if p xs = int (length (filter p xs))"

lemma count_if_split:
  "count_if p xs = count_if p (filter q xs) + count_if p (filter (\<lambda>x. \<not> q x) xs)"
  by (induction xs) (auto simp: count_if_def)

lemma count_if_nonneg [simp]: "0 \<le> count_if p xs"
  by (simp add: count_if_def)

lemma count_if_Nil [simp]: "count_if p [] = 0"
  by (simp add: count_if_def)

lemma count_if_Cons: "count_if p (x # xs) = (if p x then 1 else 0) + count_if p xs"
  by (simp add: count_if_def)

lemma count_if_append [simp]: "count_if p (xs @ ys) = count_if p xs + count_if p ys"
  by (simp add: count_if_def)

lemma count_if_update:
  "k < length xs \<Longrightarrow> count_if p (xs[k := x]) =
   count_if p xs - (if p (xs ! k) then 1 else 0) + (if p x then 1 else 0)"
proof (induction xs arbitrary: k)
  case (Cons y ys)
  then show ?case by (cases k) (simp_all add: count_if_Cons)
qed simp

lemma count_if_replicate: "count_if p (replicate n x) = (if p x then int n else 0)"
  by (simp add: count_if_def filter_replicate)

lemma count_if_mono: "(\<And>x. x \<in> set xs \<Longrightarrow> p x \<Longrightarrow> q x) \<Longrightarrow> count_if p xs \<le> count_if q xs"
  by (induction xs) (auto simp: count_if_Cons)

text \<open>The groups of \<open>GROUP BY\<close> partition the rows.\<close>

lemma count_groups_sum:
  assumes "distinct ks" and "set (map key xs) \<subseteq> set ks"
  shows "sum_list (map (\<lambda>k. count_if p (filter (\<lambda>x. key x = k) xs)) ks) = count_if p xs"
  using assms
proof (induction ks arbitrary: xs)
  case Nil
  then show ?case by (simp add: count_if_def)
next
  case (Cons k ks)
  let ?rest = "filter (\<lambda>x. key x \<noteq> k) xs"
  have eq: "filter (\<lambda>x. key x = k') ?rest = filter (\<lambda>x. key x = k') xs" if "k' \<in> set ks" for k'
    using that Cons.prems(1) by (auto intro!: filter_cong)
  have "sum_list (map (\<lambda>k'. count_if p (filter (\<lambda>x. key x = k') xs)) ks) =
      sum_list (map (\<lambda>k'. count_if p (filter (\<lambda>x. key x = k') ?rest)) ks)"
    by (rule arg_cong [where f = sum_list], rule map_cong [OF refl]) (simp only: eq)
  also have "\<dots> = count_if p ?rest"
    using Cons.prems by (intro Cons.IH) auto
  finally show ?case using count_if_split [of p xs "\<lambda>x. key x = k"] by simp
qed

lemma group_by_counts: "sum_list (map (\<lambda>(k, g). count_if p g) (group_by key xs)) = count_if p xs"
  by (simp add: group_by_def comp_def count_groups_sum)

section \<open>Dictionaries in insertion order\<close>

text \<open>
  A Python \<open>dict\<close> whose order matters is an association list: \<^const>\<open>AList.update\<close> replaces
  in place or appends, as assignment does.
\<close>

type_synonym ('k, 'v) dict = "('k \<times> 'v) list"

definition dict_get :: "('k, 'v) dict \<Rightarrow> 'k \<Rightarrow> 'v \<Rightarrow> 'v" where
  "dict_get d k v = (case map_of d k of None \<Rightarrow> v | Some w \<Rightarrow> w)"

lemma dict_get_update [simp]:
  "dict_get (AList.update k v d) k' w = (if k' = k then v else dict_get d k' w)"
  by (simp add: dict_get_def update_conv')

lemma length_update_mem: "k \<in> fst ` set d \<Longrightarrow> length (AList.update k v d) = length d"
  by (induction d) auto

lemma length_update_le: "length (AList.update k v d) \<le> Suc (length d)"
  by (induction d) auto

lemma map_fst_update_mem: "k \<in> fst ` set d \<Longrightarrow> map fst (AList.update k v d) = map fst d"
  by (induction d) auto

section \<open>Folding partial steps\<close>

fun fold_opt :: "('a \<Rightarrow> 's \<Rightarrow> 's option) \<Rightarrow> 'a list \<Rightarrow> 's \<Rightarrow> 's option" where
  "fold_opt f [] s = Some s"
| "fold_opt f (x # xs) s = (case f x s of None \<Rightarrow> None | Some t \<Rightarrow> fold_opt f xs t)"

lemma fold_opt_append:
  "fold_opt f (xs @ ys) s = (case fold_opt f xs s of None \<Rightarrow> None | Some t \<Rightarrow> fold_opt f ys t)"
  by (induction xs arbitrary: s) (auto split: option.splits)

lemma fold_opt_invariant:
  assumes "fold_opt f xs s = Some t" and "P s"
    and "\<And>x s t. x \<in> set xs \<Longrightarrow> f x s = Some t \<Longrightarrow> P s \<Longrightarrow> P t"
  shows "P t"
  using assms by (induction xs arbitrary: s) (fastforce split: option.splits)+

section \<open>Sequencing steps that may raise\<close>

definition sbind :: "'e + 'a \<Rightarrow> ('a \<Rightarrow> 'e + 'b) \<Rightarrow> 'e + 'b" where
  "sbind m f = (case m of Inl e \<Rightarrow> Inl e | Inr x \<Rightarrow> f x)"

lemma sbind_simps [simp]:
  "sbind (Inl e) f = Inl e" "sbind (Inr x) f = f x"
  by (simp_all add: sbind_def)

lemma sbind_Inr: "sbind m f = Inr y \<longleftrightarrow> (\<exists>x. m = Inr x \<and> f x = Inr y)"
  by (cases m) simp_all

text \<open>Run the steps in order; the first exception ends the run.\<close>

fun run_steps :: "('s \<Rightarrow> 'e + 's) list \<Rightarrow> 's \<Rightarrow> 'e + 's" where
  "run_steps [] s = Inr s"
| "run_steps (f # fs) s = sbind (f s) (run_steps fs)"

definition keeps :: "('s \<Rightarrow> bool) \<Rightarrow> ('s \<Rightarrow> 'e + 's) \<Rightarrow> bool" where
  "keeps P f = (\<forall>s s'. P s \<longrightarrow> f s = Inr s' \<longrightarrow> P s')"

lemma keepsI [intro]: "(\<And>s s'. P s \<Longrightarrow> f s = Inr s' \<Longrightarrow> P s') \<Longrightarrow> keeps P f"
  by (simp add: keeps_def)

lemma keepsD: "keeps P f \<Longrightarrow> P s \<Longrightarrow> f s = Inr s' \<Longrightarrow> P s'"
  by (simp add: keeps_def)

lemma run_steps_keeps: "list_all (keeps P) fs \<Longrightarrow> keeps P (run_steps fs)"
proof (induction fs)
  case (Cons f fs)
  then have f: "keeps P f" and fs: "keeps P (run_steps fs)" by simp_all
  show ?case
  proof
    fix s s'
    assume "P s" and "run_steps (f # fs) s = Inr s'"
    then obtain s1 where "f s = Inr s1" "run_steps fs s1 = Inr s'" by (auto simp: sbind_Inr)
    with \<open>P s\<close> f fs show "P s'" by (blast dest: keepsD)
  qed
qed (simp add: keeps_def)

section \<open>Arithmetic\<close>

definition clamp01 :: "rat \<Rightarrow> rat" where
  "clamp01 x = max 0 (min 1 x)"

lemma clamp01_bounds [simp]: "0 \<le> clamp01 x" "clamp01 x \<le> 1"
  by (simp_all add: clamp01_def)

lemma clamp01_mono: "x \<le> y \<Longrightarrow> clamp01 x \<le> clamp01 y"
  by (simp add: clamp01_def min_def max_def)

end
