(* ===== verification/FL_Json.thy ===== *)
theory FL_Json
  imports FL_Prelude
begin

text \<open>
  The dynamically typed values the gateway handles (decoded JSON, YAML sections, database
  cells) and the built-ins applied to them: truth value, \<open>str\<close>, \<open>int\<close>, \<open>dict.get\<close>, and
  \<open>json.dumps\<close> with the separators and the ASCII escaping the code asks for. An object is
  its items in insertion order, each key once.

  \<open>repr\<close> of floats and containers is a parameter \<open>py_repr\<close>: the interpreter's formatting
  of a double has no counterpart on exact rationals.
\<close>

datatype json =
    JNull
  | JBool bool
  | JInt int
  | JFloat rat
  | JStr string
  | JList "json list"
  | JObj "(string \<times> json) list"

datatype py_error = ValueError | TypeError | KeyError | AttributeError | IndexError | ImportError
  | OverflowError

fun py_truthy :: "json \<Rightarrow> bool" where
  "py_truthy JNull = False"
| "py_truthy (JBool b) = b"
| "py_truthy (JInt i) = (i \<noteq> 0)"
| "py_truthy (JFloat r) = (r \<noteq> 0)"
| "py_truthy (JStr s) = (s \<noteq> [])"
| "py_truthy (JList xs) = (xs \<noteq> [])"
| "py_truthy (JObj kvs) = (kvs \<noteq> [])"

text \<open>\<open>d.get(k)\<close>: a missing key and a stored null are both \<open>None\<close>.\<close>

definition jget :: "(string \<times> json) list \<Rightarrow> string \<Rightarrow> json" where
  "jget d k = dict_get d k JNull"

fun jobj :: "json \<Rightarrow> (string \<times> json) list option" where
  "jobj (JObj kvs) = Some kvs"
| "jobj _ = None"

fun is_jobj :: "json \<Rightarrow> bool" where
  "is_jobj (JObj kvs) = True"
| "is_jobj _ = False"

fun py_str :: "(json \<Rightarrow> string) \<Rightarrow> json \<Rightarrow> string" where
  "py_str py_repr JNull = ''None''"
| "py_str py_repr (JBool b) = (if b then ''True'' else ''False'')"
| "py_str py_repr (JInt i) = show_int i"
| "py_str py_repr (JStr s) = s"
| "py_str py_repr v = py_repr v"

text \<open>\<open>x or y\<close> on dynamic values.\<close>

definition py_or :: "json \<Rightarrow> json \<Rightarrow> json" where
  "py_or x y = (if py_truthy x then x else y)"

text \<open>\<open>int(v)\<close>: truncation of floats, parsing of text, \<open>TypeError\<close> for the rest.\<close>

definition rat_trunc :: "rat \<Rightarrow> int" where
  "rat_trunc r = (if r < 0 then \<lceil>r\<rceil> else \<lfloor>r\<rfloor>)"

fun py_int_of :: "json \<Rightarrow> py_error + int" where
  "py_int_of (JBool b) = Inr (if b then 1 else 0)"
| "py_int_of (JInt i) = Inr i"
| "py_int_of (JFloat r) = Inr (rat_trunc r)"
| "py_int_of (JStr s) = (case py_int s of None \<Rightarrow> Inl ValueError | Some i \<Rightarrow> Inr i)"
| "py_int_of _ = Inl TypeError"

section \<open>json.dumps\<close>

definition hex_digit :: "nat \<Rightarrow> char" where
  "hex_digit n = (if n < 10 then char_of (48 + n) else char_of (87 + n))"

definition json_escape_char :: "char \<Rightarrow> string" where
  "json_escape_char c = (let n = code c in
     if n = 34 then [CHR 0x5C, CHR 0x22]
     else if n = 92 then [CHR 0x5C, CHR 0x5C]
     else if n = 10 then [CHR 0x5C, CHR ''n'']
     else if n = 13 then [CHR 0x5C, CHR ''r'']
     else if n = 9 then [CHR 0x5C, CHR ''t'']
     else if n = 8 then [CHR 0x5C, CHR ''b'']
     else if n = 12 then [CHR 0x5C, CHR ''f'']
     else if n < 32 \<or> 126 < n
       then [CHR 0x5C, CHR ''u'', CHR ''0'', CHR ''0'', hex_digit (n div 16), hex_digit (n mod 16)]
     else [c])"

definition json_string :: "string \<Rightarrow> string" where
  "json_string s = [CHR 0x22] @ concat (map json_escape_char s) @ [CHR 0x22]"

fun join :: "string \<Rightarrow> string list \<Rightarrow> string" where
  "join sep [] = []"
| "join sep [x] = x"
| "join sep (x # y # ys) = x @ sep @ join sep (y # ys)"

fun json_dumps :: "(json \<Rightarrow> string) \<Rightarrow> json \<Rightarrow> string" where
  "json_dumps py_repr JNull = ''null''"
| "json_dumps py_repr (JBool b) = (if b then ''true'' else ''false'')"
| "json_dumps py_repr (JInt i) = show_int i"
| "json_dumps py_repr (JFloat r) = py_repr (JFloat r)"
| "json_dumps py_repr (JStr s) = json_string s"
| "json_dumps py_repr (JList xs) = ''['' @ join '','' (map (json_dumps py_repr) xs) @ '']''"
| "json_dumps py_repr (JObj kvs) =
     ''{'' @ join '','' (map (\<lambda>(k, v). json_string k @ '':'' @ json_dumps py_repr v) kvs) @ ''}''"

text \<open>\<open>json.dumps\<close> with its default separators.\<close>

fun json_dumps_spaced :: "(json \<Rightarrow> string) \<Rightarrow> json \<Rightarrow> string" where
  "json_dumps_spaced py_repr (JList xs) = ''['' @ join '', '' (map (json_dumps_spaced py_repr) xs) @ '']''"
| "json_dumps_spaced py_repr (JObj kvs) =
     ''{'' @ join '', '' (map (\<lambda>(k, v). json_string k @ '': '' @ json_dumps_spaced py_repr v) kvs) @ ''}''"
| "json_dumps_spaced py_repr v = json_dumps py_repr v"

lemma json_dumps_nonempty:
  assumes "\<And>r. py_repr (JFloat r) \<noteq> []"
  shows "json_dumps py_repr v \<noteq> []"
proof (cases v)
  case (JInt i)
  have "show_nat n \<noteq> []" for n by (subst show_nat.simps) simp
  with JInt show ?thesis by (simp add: show_int_def)
qed (use assms in \<open>auto simp: json_string_def\<close>)

end
