(* ===== verification/FL_Providers.thy ===== *)
theory FL_Providers
  imports FL_Json
begin

text \<open>
  The provider side of the gateway: the normalised error of \<open>src/providers/base.py\<close>, the two
  error categorisers (\<open>src/providers/openai_compatible.py\<close>, \<open>src/providers/openrouter.py\<close>),
  the reading of error bodies, and the bounded retry loop \<open>_request_with_retries\<close> that both
  adapters run over an HTTP client. What the client does at each attempt is an input
  (\<open>upstream\<close>): a timeout, a transport error, or a response with its declared length and its
  body in chunks. \<open>json.loads\<close> of bytes and of text and the lenient UTF-8 decoders are fields
  of \<open>py_env\<close>.
\<close>

type_synonym bytes = string

record py_env =
  env_loads :: "bytes \<Rightarrow> json option"
  env_loads_text :: "string \<Rightarrow> json option"
  env_decode_ignore :: "bytes \<Rightarrow> string"
  env_decode_replace :: "bytes \<Rightarrow> bytes"
  env_repr :: "json \<Rightarrow> string"

section \<open>Normalised errors\<close>

datatype category =
    RATE_LIMITED
  | PROVIDER_UNAVAILABLE
  | INVALID_REQUEST
  | AUTH_ERROR
  | CONTEXT_EXCEEDED

definition RETRYABLE_ERROR_CATEGORIES :: "category set" where
  "RETRYABLE_ERROR_CATEGORIES = {RATE_LIMITED, PROVIDER_UNAVAILABLE, CONTEXT_EXCEEDED}"

record provider_error =
  pe_message :: string
  pe_category :: category
  pe_retryable :: bool
  pe_status_code :: "int option"
  pe_error_code :: "string option"

definition ProviderRetryableError ::
  "string \<Rightarrow> category \<Rightarrow> int option \<Rightarrow> string option \<Rightarrow> provider_error" where
  "ProviderRetryableError message category status_code error_code =
     \<lparr>pe_message = message, pe_category = category, pe_retryable = True,
      pe_status_code = status_code, pe_error_code = error_code\<rparr>"

definition ProviderFatalError ::
  "string \<Rightarrow> category \<Rightarrow> int option \<Rightarrow> string option \<Rightarrow> provider_error" where
  "ProviderFatalError message category status_code error_code =
     \<lparr>pe_message = message, pe_category = category, pe_retryable = False,
      pe_status_code = status_code, pe_error_code = error_code\<rparr>"

lemma provider_error_sels [simp]:
  "pe_category (ProviderRetryableError m c s e) = c"
  "pe_retryable (ProviderRetryableError m c s e) = True"
  "pe_status_code (ProviderRetryableError m c s e) = s"
  "pe_message (ProviderRetryableError m c s e) = m"
  "pe_category (ProviderFatalError m c s e) = c"
  "pe_retryable (ProviderFatalError m c s e) = False"
  "pe_status_code (ProviderFatalError m c s e) = s"
  "pe_message (ProviderFatalError m c s e) = m"
  by (simp_all add: ProviderRetryableError_def ProviderFatalError_def)

type_synonym categorizer = "int option \<Rightarrow> string option \<Rightarrow> string \<Rightarrow> category \<times> bool"

definition unavailable :: "string \<Rightarrow> provider_error" where
  "unavailable message = ProviderRetryableError message PROVIDER_UNAVAILABLE None None"

lemma unavailable_sels [simp]:
  "pe_category (unavailable m) = PROVIDER_UNAVAILABLE" "pe_retryable (unavailable m)"
  "pe_message (unavailable m) = m"
  by (simp_all add: unavailable_def)

text \<open>The shared tail of the error constructors: retryable or fatal by the categoriser.\<close>

definition categorized_error ::
  "categorizer \<Rightarrow> int option \<Rightarrow> string option \<Rightarrow> string \<Rightarrow> provider_error" where
  "categorized_error categorize_error status_code error_code message =
     (let (category, retryable) = categorize_error status_code error_code message in
      if retryable then ProviderRetryableError message category status_code error_code
      else ProviderFatalError message category status_code error_code)"

text \<open>\<open>isinstance(v, int)\<close> holds for booleans too.\<close>

definition status_from :: "json \<Rightarrow> json \<Rightarrow> py_error + int option" where
  "status_from raw_status_code c =
     (let of_digits = (\<lambda>s. case py_int s of None \<Rightarrow> Inl ValueError | Some i \<Rightarrow> Inr (Some i));
          from_code = (case c of
              JInt i \<Rightarrow> Inr (Some i)
            | JBool b \<Rightarrow> Inr (Some (if b then 1 else 0))
            | JStr s \<Rightarrow> if py_isdigit s then of_digits s else Inr None
            | _ \<Rightarrow> Inr None)
      in case raw_status_code of
           JInt i \<Rightarrow> Inr (Some i)
         | JBool b \<Rightarrow> Inr (Some (if b then 1 else 0))
         | JStr s \<Rightarrow> if py_isdigit s then of_digits s else from_code
         | _ \<Rightarrow> from_code)"

definition provider_error_from_error_payload ::
  "py_env \<Rightarrow> categorizer \<Rightarrow> string \<Rightarrow> json \<Rightarrow> py_error + provider_error option" where
  "provider_error_from_error_payload env categorize_error default_message payload =
     (case payload of JObj kvs \<Rightarrow>
        (case jget kvs ''error'' of JObj error \<Rightarrow>
           (let message = take 500 (py_str (env_repr env)
                  (py_or (jget error ''message'') (JStr default_message)));
                c = jget error ''code'';
                error_code = (if c = JNull then None else Some (py_str (env_repr env) c))
            in case status_from (jget error ''status_code'') c of
                 Inl e \<Rightarrow> Inl e
               | Inr status_code \<Rightarrow>
                   Inr (Some (categorized_error categorize_error status_code error_code message)))
         | _ \<Rightarrow> Inr None)
      | _ \<Rightarrow> Inr None)"

section \<open>Error categorisation\<close>

definition code_in :: "string option \<Rightarrow> string list \<Rightarrow> bool" where
  "code_in error_code codes =
     (py_lower (case error_code of None \<Rightarrow> [] | Some c \<Rightarrow> c) \<in> set codes)"

definition status_in :: "int option \<Rightarrow> int list \<Rightarrow> bool" where
  "status_in status_code codes = (case status_code of None \<Rightarrow> False | Some s \<Rightarrow> s \<in> set codes)"

definition mentions :: "string \<Rightarrow> string list \<Rightarrow> bool" where
  "mentions message phrases = list_ex (\<lambda>phrase. py_in phrase (py_lower message)) phrases"

definition categorize_openai_compatible_error :: categorizer where
  "categorize_openai_compatible_error status_code error_code message =
     (if code_in error_code
           [''context_length_exceeded'', ''context_window_exceeded'', ''max_tokens_exceeded'',
            ''token_limit_exceeded'', ''string_too_long'']
         \<or> mentions message
           [''context length'', ''maximum context length'', ''context window'',
            ''too many tokens'', ''token limit'', ''input is too long'']
      then (CONTEXT_EXCEEDED, True)
      else if status_code = Some 429
         \<or> code_in error_code [''429'', ''rate_limit_exceeded'', ''rate_limited'', ''too_many_requests'']
         \<or> mentions message [''rate limit'']
      then (RATE_LIMITED, True)
      else if status_in status_code [401, 402, 403]
         \<or> code_in error_code
           [''401'', ''402'', ''403'', ''invalid_api_key'', ''invalid_key'',
            ''invalid_authentication'', ''authentication_error'', ''permission_denied'',
            ''insufficient_credits'', ''payment_required'']
      then (AUTH_ERROR, False)
      else if status_in status_code [400, 404, 405, 409, 422]
         \<or> code_in error_code
           [''400'', ''404'', ''405'', ''409'', ''422'', ''invalid_request_error'',
            ''invalid_request'', ''invalid_model'', ''model_not_found'', ''unsupported_parameter'']
      then (INVALID_REQUEST, False)
      else if status_in status_code [408, 425, 500, 502, 503, 504]
         \<or> code_in error_code
           [''408'', ''425'', ''500'', ''502'', ''503'', ''504'', ''timeout'', ''server_error'',
            ''internal_server_error'', ''service_unavailable'']
      then (PROVIDER_UNAVAILABLE, True)
      else (case status_code of
              None \<Rightarrow> (PROVIDER_UNAVAILABLE, True)
            | Some s \<Rightarrow> if s \<ge> 500 then (PROVIDER_UNAVAILABLE, True) else (INVALID_REQUEST, False)))"

definition categorize_openrouter_error :: categorizer where
  "categorize_openrouter_error status_code error_code message =
     (if code_in error_code
           [''context_length_exceeded'', ''max_tokens_exceeded'', ''token_limit_exceeded'',
            ''string_too_long'']
         \<or> mentions message
           [''context length'', ''maximum context length'', ''too many tokens'', ''token limit'']
      then (CONTEXT_EXCEEDED, True)
      else if status_code = Some 429
         \<or> code_in error_code [''429'', ''rate_limit_exceeded'', ''rate_limited'']
         \<or> mentions message [''rate limit'']
      then (RATE_LIMITED, True)
      else if status_in status_code [401, 402]
         \<or> code_in error_code
           [''401'', ''402'', ''invalid_api_key'', ''invalid_credentials'',
            ''insufficient_credits'', ''payment_required'']
      then (AUTH_ERROR, False)
      else if status_in status_code [400, 403, 404]
         \<or> code_in error_code
           [''400'', ''403'', ''404'', ''invalid_request'', ''invalid_model'', ''moderation_error'']
      then (INVALID_REQUEST, False)
      else if status_in status_code [408, 409, 425, 500, 502, 503, 504]
         \<or> code_in error_code
           [''408'', ''409'', ''425'', ''500'', ''502'', ''503'', ''504'', ''server_error'',
            ''provider_error'']
      then (PROVIDER_UNAVAILABLE, True)
      else (case status_code of
              None \<Rightarrow> (PROVIDER_UNAVAILABLE, True)
            | Some s \<Rightarrow> if s \<ge> 500 then (PROVIDER_UNAVAILABLE, True) else (INVALID_REQUEST, False)))"

text \<open>
  What the gateway relies on: the flag agrees with the declared set of retryable categories,
  and an exhausted rate limit is never fatal.
\<close>

locale error_categorizer =
  fixes categorize :: categorizer
  assumes flag_agrees: "snd (categorize s c m) \<longleftrightarrow> fst (categorize s c m) \<in> RETRYABLE_ERROR_CATEGORIES"
    and rate_limit_retryable: "snd (categorize (Some 429) c m)"
    and server_error_not_auth: "n \<ge> 500 \<Longrightarrow> fst (categorize (Some n) None m) \<noteq> AUTH_ERROR"
begin

lemma error_retryable_iff:
  "pe_retryable (categorized_error categorize s c m) \<longleftrightarrow>
   pe_category (categorized_error categorize s c m) \<in> RETRYABLE_ERROR_CATEGORIES"
  using flag_agrees [of s c m]
  by (auto simp: categorized_error_def split: prod.splits)

lemma error_fatal_category:
  "\<not> pe_retryable (categorized_error categorize s c m) \<Longrightarrow>
   pe_category (categorized_error categorize s c m) \<in> {AUTH_ERROR, INVALID_REQUEST}"
  using error_retryable_iff [of s c m]
  by (cases "pe_category (categorized_error categorize s c m)")
    (auto simp: RETRYABLE_ERROR_CATEGORIES_def)

lemma payload_error_retryable_iff:
  assumes "provider_error_from_error_payload env categorize d p = Inr (Some e)"
  shows "pe_retryable e \<longleftrightarrow> pe_category e \<in> RETRYABLE_ERROR_CATEGORIES"
  using assms error_retryable_iff
  by (auto simp: provider_error_from_error_payload_def Let_def split: json.splits sum.splits)

end

interpretation openai_cat: error_categorizer categorize_openai_compatible_error
proof
  show "snd (categorize_openai_compatible_error s c m) \<longleftrightarrow>
      fst (categorize_openai_compatible_error s c m) \<in> RETRYABLE_ERROR_CATEGORIES" for s c m
    unfolding categorize_openai_compatible_error_def RETRYABLE_ERROR_CATEGORIES_def
    by (simp split: option.split)
  show "snd (categorize_openai_compatible_error (Some 429) c m)" for c m
    unfolding categorize_openai_compatible_error_def by simp
  show "s \<ge> 500 \<Longrightarrow> fst (categorize_openai_compatible_error (Some s) None m) \<noteq> AUTH_ERROR" for s m
    unfolding categorize_openai_compatible_error_def
    by (simp add: status_in_def code_in_def split: option.split)
qed

interpretation openrouter_cat: error_categorizer categorize_openrouter_error
proof
  show "snd (categorize_openrouter_error s c m) \<longleftrightarrow>
      fst (categorize_openrouter_error s c m) \<in> RETRYABLE_ERROR_CATEGORIES" for s c m
    unfolding categorize_openrouter_error_def RETRYABLE_ERROR_CATEGORIES_def
    by (simp split: option.split)
  show "snd (categorize_openrouter_error (Some 429) c m)" for c m
    unfolding categorize_openrouter_error_def by simp
  show "s \<ge> 500 \<Longrightarrow> fst (categorize_openrouter_error (Some s) None m) \<noteq> AUTH_ERROR" for s m
    unfolding categorize_openrouter_error_def
    by (simp add: status_in_def code_in_def split: option.split)
qed

section \<open>Error bodies\<close>

definition none_if_empty :: "string \<Rightarrow> string option" where
  "none_if_empty s = (if s = [] then None else Some s)"

definition error_text :: "py_env \<Rightarrow> json \<Rightarrow> string option" where
  "error_text env v = (if py_truthy v then Some (take 500 (py_str (env_repr env) v)) else None)"

definition error_code_text :: "py_env \<Rightarrow> json \<Rightarrow> string option" where
  "error_code_text env v = (if v = JNull then None else Some (py_str (env_repr env) v))"

definition extract_error_details :: "py_env \<Rightarrow> bytes \<Rightarrow> string option \<times> string option" where
  "extract_error_details env raw_body =
     (if raw_body = [] then (None, None)
      else case env_loads env raw_body of
        None \<Rightarrow> (none_if_empty (take 500 (py_strip (env_decode_ignore env raw_body))), None)
      | Some payload \<Rightarrow>
          (case payload of
             JObj kvs \<Rightarrow>
               (let error_payload = (case jget kvs ''error'' of JObj error \<Rightarrow> error | _ \<Rightarrow> kvs) in
                (error_text env (jget error_payload ''message''),
                 error_code_text env (jget error_payload ''code'')))
           | _ \<Rightarrow> (None, None)))"

text \<open>The OpenRouter reader calls \<open>.get\<close> on whatever was decoded, object or not.\<close>

definition openrouter_extract_error_details ::
  "py_env \<Rightarrow> bytes \<Rightarrow> py_error + string option \<times> string option" where
  "openrouter_extract_error_details env raw_body =
     (if raw_body = [] then Inr (None, None)
      else case env_loads env raw_body of
        None \<Rightarrow> Inr (none_if_empty (take 500 (py_strip (env_decode_ignore env raw_body))), None)
      | Some payload \<Rightarrow>
          (case payload of
             JObj kvs \<Rightarrow>
               (case dict_get kvs ''error'' payload of
                  JObj error \<Rightarrow> Inr (error_text env (jget error ''message''),
                                     error_code_text env (jget error ''code''))
                | _ \<Rightarrow> Inr (None, None))
           | _ \<Rightarrow> Inl AttributeError))"

definition raise_for_response ::
  "py_env \<Rightarrow> string \<Rightarrow> categorizer \<Rightarrow> int \<Rightarrow> string option \<times> string option \<Rightarrow> provider_error" where
  "raise_for_response env name categorize_error status_code details =
     (case details of (message, error_code) \<Rightarrow>
        categorized_error categorize_error (Some status_code) error_code
          (case message of Some m \<Rightarrow> m
           | None \<Rightarrow> name @ '' error ('' @ show_int status_code @ '')''))"

section \<open>The bounded retry loop\<close>

datatype upstream =
    UTimeout
  | UHttpError
  | UResponse int "string option" "bytes list"

datatype attempt =
    AResponse int bytes
  | ARetryable provider_error
  | AFatal provider_error
  | ACrash py_error

text \<open>The declared length: \<open>content_length and content_length.isdigit() and int(..) > limit\<close>.\<close>

definition declared_too_large :: "int \<Rightarrow> string option \<Rightarrow> py_error + bool" where
  "declared_too_large limit content_length =
     (case content_length of
        None \<Rightarrow> Inr False
      | Some s \<Rightarrow>
          if \<not> py_isdigit s then Inr False
          else (case py_int s of None \<Rightarrow> Inl ValueError | Some n \<Rightarrow> Inr (limit < n)))"

text \<open>The body, read chunk by chunk while the running size stays within the limit.\<close>

fun read_bounded :: "int \<Rightarrow> int \<Rightarrow> bytes list \<Rightarrow> bytes option" where
  "read_bounded limit got [] = Some []"
| "read_bounded limit got (chunk # chunks) =
     (let got' = got + int (length chunk) in
      if limit < got' then None
      else map_option (\<lambda>rest. chunk @ rest) (read_bounded limit got' chunks))"

lemma read_bounded_concat: "read_bounded limit got chunks = Some body \<Longrightarrow> body = concat chunks"
  by (induction chunks arbitrary: got body) (auto simp: Let_def split: if_splits)

lemma read_bounded_length:
  "read_bounded limit got chunks = Some body \<Longrightarrow> got \<le> limit \<Longrightarrow> got + int (length body) \<le> limit"
proof (induction chunks arbitrary: got body)
  case (Cons c cs)
  then obtain rest where "read_bounded limit (got + int (length c)) cs = Some rest"
    and "body = c @ rest" and "got + int (length c) \<le> limit"
    by (auto simp: Let_def split: if_splits)
  then show ?case using Cons.IH [of "got + int (length c)" rest] by simp
qed simp

lemma read_bounded_enough:
  "got + int (length (concat chunks)) \<le> limit \<Longrightarrow> read_bounded limit got chunks = Some (concat chunks)"
  by (induction chunks arbitrary: got) (auto simp: Let_def algebra_simps)

definition attempt_once ::
  "int \<Rightarrow> (int \<Rightarrow> bytes \<Rightarrow> py_error + provider_error) \<Rightarrow> upstream \<Rightarrow> attempt" where
  "attempt_once max_response_bytes raise_for u =
     (case u of
        UTimeout \<Rightarrow> ARetryable (unavailable ''provider timeout'')
      | UHttpError \<Rightarrow> ARetryable (unavailable ''provider transport error'')
      | UResponse status_code content_length chunks \<Rightarrow>
          (case declared_too_large max_response_bytes content_length of
             Inl e \<Rightarrow> ACrash e
           | Inr too_large \<Rightarrow>
               if too_large then ARetryable (unavailable ''provider response exceeded size limit'')
               else (case read_bounded max_response_bytes 0 chunks of
                   None \<Rightarrow> ARetryable (unavailable ''provider response exceeded size limit'')
                 | Some content \<Rightarrow>
                     if status_code \<ge> 400 then
                       (case raise_for status_code content of
                          Inl e \<Rightarrow> ACrash e
                        | Inr err \<Rightarrow> if pe_retryable err then ARetryable err else AFatal err)
                     else AResponse status_code content)))"

text \<open>
  The loop runs at most \<open>left\<close> more attempts; attempt \<open>i\<close> meets \<open>ups i\<close>. The result carries
  the number of attempts made.
\<close>

fun request_loop ::
  "(upstream \<Rightarrow> attempt) \<Rightarrow> (nat \<Rightarrow> upstream) \<Rightarrow> nat \<Rightarrow> nat \<Rightarrow> provider_error option \<Rightarrow> attempt \<times> nat" where
  "request_loop once ups i 0 last_error =
     (ARetryable (case last_error of Some e \<Rightarrow> e | None \<Rightarrow> unavailable ''provider request failed''), i)"
| "request_loop once ups i (Suc left) last_error =
     (case once (ups i) of
        ARetryable e \<Rightarrow> request_loop once ups (Suc i) left (Some e)
      | done \<Rightarrow> (done, Suc i))"

definition request_with_retries ::
  "py_env \<Rightarrow> string \<Rightarrow> int \<Rightarrow> int \<Rightarrow> (nat \<Rightarrow> upstream) \<Rightarrow> attempt \<times> nat" where
  "request_with_retries env name max_retries max_response_bytes ups =
     request_loop
       (attempt_once max_response_bytes (\<lambda>status_code raw_body.
          Inr (raise_for_response env name categorize_openai_compatible_error status_code
                 (extract_error_details env raw_body))))
       ups 0 (nat (max max_retries 1)) None"

definition openrouter_raise_for_response :: "py_env \<Rightarrow> int \<Rightarrow> bytes \<Rightarrow> py_error + provider_error" where
  "openrouter_raise_for_response env status_code raw_body =
     (case openrouter_extract_error_details env raw_body of
        Inl e \<Rightarrow> Inl e
      | Inr details \<Rightarrow>
          Inr (raise_for_response env ''openrouter'' categorize_openrouter_error status_code details))"

definition openrouter_request_with_retries ::
  "py_env \<Rightarrow> int \<Rightarrow> (nat \<Rightarrow> upstream) \<Rightarrow> attempt \<times> nat" where
  "openrouter_request_with_retries env max_response_bytes ups =
     request_loop (attempt_once max_response_bytes (openrouter_raise_for_response env)) ups 0 3 None"

fun is_retryable_attempt :: "attempt \<Rightarrow> bool" where
  "is_retryable_attempt (ARetryable e) = True"
| "is_retryable_attempt _ = False"

lemma is_retryable_attempt_iff: "is_retryable_attempt a \<longleftrightarrow> (\<exists>e. a = ARetryable e)"
  by (cases a) auto

lemma request_loop_attempts:
  assumes "request_loop once ups i left le = (r, n)"
  shows "i \<le> n \<and> n \<le> i + left \<and> (0 < left \<longrightarrow> i < n)"
  using assms
proof (induction left arbitrary: i le)
  case (Suc left)
  show ?case
  proof (cases "once (ups i)")
    case (ARetryable e)
    with Suc.prems have "request_loop once ups (Suc i) left (Some e) = (r, n)" by simp
    from Suc.IH [OF this] show ?thesis by auto
  qed (use Suc.prems in auto)
qed auto

text \<open>Either an attempt ends the loop after only retryable ones, or all were retryable.\<close>

lemma request_loop_spec:
  assumes "request_loop once ups i left le = (r, n)"
  shows "(\<forall>j. i \<le> j \<and> Suc j < n \<longrightarrow> is_retryable_attempt (once (ups j))) \<and>
    (if is_retryable_attempt r
     then n = i + left \<and> (0 < left \<longrightarrow> r = once (ups (n - 1)))
     else i < n \<and> r = once (ups (n - 1)))"
  using assms
proof (induction left arbitrary: i le)
  case 0
  then show ?case by auto
next
  case (Suc left)
  show ?case
  proof (cases "once (ups i)")
    case (ARetryable e)
    with Suc.prems have run: "request_loop once ups (Suc i) left (Some e) = (r, n)" by simp
    have before: "is_retryable_attempt (once (ups j))"
      if "i \<le> j" "Suc j < n" for j
      using Suc.IH [OF run] that ARetryable by (cases "j = i") auto
    have "r = once (ups (n - 1))" if "left = 0"
      using run that ARetryable by auto
    with Suc.IH [OF run] before request_loop_attempts [OF run] show ?thesis
      by (auto split: if_splits)
  qed (use Suc.prems in \<open>auto simp: is_retryable_attempt_iff\<close>)
qed

lemma attempt_once_response:
  "attempt_once limit rf u = AResponse status body \<Longrightarrow> 0 \<le> limit \<Longrightarrow>
   status < 400 \<and> int (length body) \<le> limit"
  using read_bounded_length [of limit 0]
  by (cases u) (fastforce simp: attempt_once_def split: sum.splits if_splits option.splits)+

text \<open>
  The adapter's retry loop makes at least one and at most \<open>max 1 max_retries\<close>
  requests, repeats only after retryable failures, and returns the outcome of the last request:
  a response below status 400 within the size limit, or an error. It gives up early only with an
  error the client or the operator has to fix.
\<close>

theorem provider_retries_bounded:
  assumes "request_with_retries env name max_retries limit ups = (r, n)" and "0 \<le> limit"
  shows "1 \<le> n \<and> int n \<le> max 1 max_retries
    \<and> (case r of AResponse status body \<Rightarrow> status < 400 \<and> int (length body) \<le> limit
       | AFatal e \<Rightarrow> pe_category e \<in> {AUTH_ERROR, INVALID_REQUEST}
       | ARetryable e \<Rightarrow> int n = max 1 max_retries
       | ACrash e \<Rightarrow> True)"
proof -
  define once where "once = attempt_once limit (\<lambda>status_code raw_body.
          Inr (raise_for_response env name categorize_openai_compatible_error status_code
                 (extract_error_details env raw_body)))"
  have loop: "request_loop once ups 0 (nat (max max_retries 1)) None = (r, n)"
    using assms(1) by (simp add: request_with_retries_def once_def)
  note cnt = request_loop_attempts [OF loop] and spec = request_loop_spec [OF loop]
  have last: "r = once (ups (n - 1))" using spec cnt by (auto split: if_splits)
  have fatal: "pe_category e \<in> {AUTH_ERROR, INVALID_REQUEST}" if "r = AFatal e" for e
  proof -
    from that last obtain s c where "\<not> pe_retryable e"
      "e = raise_for_response env name categorize_openai_compatible_error s (extract_error_details env c)"
      by (cases "ups (n - 1)") (auto simp: once_def attempt_once_def split: sum.splits option.splits if_splits)
    then show ?thesis using openai_cat.error_fatal_category
      by (auto simp: raise_for_response_def split: prod.splits)
  qed
  have n: "1 \<le> n \<and> int n \<le> max 1 max_retries" using cnt by linarith
  show ?thesis
  proof (cases r)
    case (AResponse status body)
    with last attempt_once_response [OF _ assms(2)] have "status < 400 \<and> int (length body) \<le> limit"
      unfolding once_def by metis
    with n AResponse show ?thesis by simp
  next
    case (ARetryable e)
    with spec have "n = nat (max max_retries 1)" by simp
    then have "int n = max 1 max_retries" by linarith
    with n ARetryable show ?thesis by simp
  next
    case (AFatal e)
    with n fatal show ?thesis by simp
  next
    case (ACrash e)
    with n show ?thesis by simp
  qed
qed

theorem provider_retries_bounded_witness:
  "\<exists>r n. request_with_retries \<lparr>env_loads = (\<lambda>b. None), env_loads_text = (\<lambda>b. None), env_decode_ignore = id,
      env_decode_replace = id, env_repr = (\<lambda>v. [])\<rparr> ''groq'' 3 100 (\<lambda>k. if k = 0 then UTimeout else UResponse 200 None [''ok''])
      = (r, n) \<and> r = AResponse 200 ''ok'' \<and> 1 \<le> n \<and> int n \<le> 3"
proof -
  let ?env = "\<lparr>env_loads = (\<lambda>b. None), env_loads_text = (\<lambda>b. None), env_decode_ignore = id,
      env_decode_replace = id, env_repr = (\<lambda>v. [])\<rparr>"
  have run: "request_with_retries ?env ''groq'' 3 100 (\<lambda>k. if k = 0 then UTimeout else UResponse 200 None [''ok''])
      = (AResponse 200 ''ok'', 2)"
    by (simp add: request_with_retries_def attempt_once_def declared_too_large_def eval_nat_numeral)
  from provider_retries_bounded [OF run] run show ?thesis by auto
qed

end
