(* ===== verification/FL_Tables.thy ===== *)
theory FL_Tables
  imports FL_Json
begin

text \<open>
  The relational state of \<open>src/db.py\<close>: the tables of \<open>_create_base_schema\<close> as records, and
  every SQL statement the application hands to its writer thread as a constructor of
  \<open>stmt\<close>, executed by \<open>exec_stmt\<close>. A table is the list of its rows in the order the engine
  visits them. Flags are booleans, nullable columns are options.

  The cells of \<open>request_log\<close> that are filled from client or provider JSON without conversion
  (\<open>client_requested_model\<close> and the three token counts) keep their dynamic value: binding a
  list, an object or an integer beyond 64 bits is an error of the driver, and the statement
  then raises (\<^const>\<open>None\<close>). \<open>RejectedUpsert\<close> is a discovery upsert with such a parameter, or with
  a null in a NOT NULL column.
\<close>

record model_row =
  m_id :: model_id
  m_name :: string
  m_provider_id :: provider_id
  m_endpoint_id :: "string option"
  m_provider_model_id :: string
  m_provider_base_url :: string
  m_provider_api_key_env :: string
  m_provider_options_json :: "string option"
  m_context_window :: "int option"
  m_max_output_tokens :: "int option"
  m_tokenizer_family :: "string option"
  m_supports_tools :: bool
  m_supports_streaming :: bool
  m_supports_vision :: bool
  m_supports_structured_output :: bool
  m_supports_system_messages :: bool
  m_chatbot_arena_elo :: "rat option"
  m_open_llm_score :: "rat option"
  m_provider_rank :: "int option"
  m_openrouter_rank :: "int option"
  m_is_healthy :: bool
  m_last_health_check :: "timestamp option"
  m_avg_latency_ms :: "rat option"
  m_avg_ttfb_ms :: "rat option"
  m_consecutive_failures :: int
  m_backoff_level :: int
  m_cooldown_until :: "timestamp option"
  m_last_error :: "string option"
  m_last_probe_at :: "timestamp option"
  m_last_success_at :: "timestamp option"
  m_last_failure_at :: "timestamp option"
  m_last_routed_at :: "timestamp option"
  m_composite_score :: rat
  m_score_updated_at :: "timestamp option"
  m_discovered_at :: timestamp
  m_last_seen_at :: timestamp
  m_is_active :: bool

record log_row =
  l_request_id :: "string option"
  l_timestamp :: timestamp
  l_request_source :: string
  l_selected_model_id :: model_id
  l_provider_id :: provider_id
  l_selected_provider_model_id :: "string option"
  l_selected_tokenizer_family :: "string option"
  l_client_requested_model :: json
  l_attempt_index :: int
  l_was_fallback :: bool
  l_estimated_prompt_tokens :: "int option"
  l_selected_context_window :: "int option"
  l_prompt_tokens :: json
  l_completion_tokens :: json
  l_total_tokens :: json
  l_latency_ms :: "rat option"
  l_ttfb_ms :: "rat option"
  l_success :: bool
  l_gateway_error_category :: "string option"
  l_error_code :: "string option"
  l_error_message :: "string option"
  l_was_streaming :: bool
  l_had_tools :: bool
  l_had_vision :: bool

record leaderboard_row =
  lb_chatbot_arena_elo :: "rat option"
  lb_open_llm_avg_score :: "rat option"
  lb_fetched_at :: timestamp

record secret_row =
  s_value_encrypted :: string
  s_created_at :: timestamp
  s_updated_at :: timestamp

record vault_row =
  v_salt_b64 :: string
  v_verifier_encrypted :: string
  v_created_at :: timestamp
  v_updated_at :: timestamp

record auth_row =
  a_mode :: string
  a_token_salt_b64 :: "string option"
  a_token_hash_b64 :: "string option"
  a_created_at :: timestamp
  a_updated_at :: timestamp

record tables =
  t_models :: "model_row list"
  t_log :: "log_row list"
  t_leaderboard :: "(string, leaderboard_row) dict"
  t_overrides :: "(string, string \<times> timestamp) dict"
  t_secrets :: "(string, secret_row) dict"
  t_vault :: "vault_row option"
  t_auth :: "auth_row option"

definition empty_tables :: tables where
  "empty_tables = \<lparr>t_models = [], t_log = [], t_leaderboard = [], t_overrides = [],
     t_secrets = [], t_vault = None, t_auth = None\<rparr>"

section \<open>Statements\<close>

datatype stmt =
    UpsertModel model_row
  | RejectedUpsert
  | MarkFailure model_id timestamp string int timestamp int
  | MarkSuccess model_id timestamp "timestamp option" "rat option" "rat option"
  | SetModelActive model_id bool
  | MarkModelsNotSeen provider_id "model_id list"
  | DeactivateProvider provider_id
  | UpdateScore model_id rat timestamp
  | InsertLog log_row
  | SetOverride string string timestamp
  | DeleteOverride string
  | SetManagedSecret string string timestamp
  | DeleteManagedSecret string
  | SetSecretVaultConfig string string timestamp
  | SetGatewayAuthConfig string "string option" "string option" timestamp
  | UpsertLeaderboard string "rat option" "rat option" timestamp

text \<open>What the SQLite driver can bind as a parameter.\<close>

fun bindable :: "json \<Rightarrow> bool" where
  "bindable (JInt i) = (- (2 ^ 63) \<le> i \<and> i < 2 ^ 63)"
| "bindable (JList xs) = False"
| "bindable (JObj kvs) = False"
| "bindable _ = True"

definition log_bindable :: "log_row \<Rightarrow> bool" where
  "log_bindable l = (bindable (l_client_requested_model l) \<and> bindable (l_prompt_tokens l)
     \<and> bindable (l_completion_tokens l) \<and> bindable (l_total_tokens l))"

definition update_models :: "(model_row \<Rightarrow> bool) \<Rightarrow> (model_row \<Rightarrow> model_row) \<Rightarrow> tables \<Rightarrow> tables" where
  "update_models p f t = t\<lparr>t_models := map (\<lambda>m. if p m then f m else m) (t_models t)\<rparr>"

definition coalesce :: "'a option \<Rightarrow> 'a option \<Rightarrow> 'a option" where
  "coalesce x y = (case x of None \<Rightarrow> y | Some _ \<Rightarrow> x)"

definition ROLLING_METRIC_ALPHA :: rat where
  "ROLLING_METRIC_ALPHA = 3 / 10"

text \<open>The rolling averages of \<open>mark_success\<close>.\<close>

definition rolling :: "rat option \<Rightarrow> rat option \<Rightarrow> rat option" where
  "rolling avg obs = (case obs of
       None \<Rightarrow> avg
     | Some x \<Rightarrow> (case avg of
           None \<Rightarrow> Some x
         | Some a \<Rightarrow> Some (a * (1 - ROLLING_METRIC_ALPHA) + x * ROLLING_METRIC_ALPHA)))"

definition mark_failure_row ::
  "timestamp \<Rightarrow> string \<Rightarrow> int \<Rightarrow> timestamp \<Rightarrow> int \<Rightarrow> model_row \<Rightarrow> model_row" where
  "mark_failure_row now error next_backoff cooldown_until threshold m =
     m\<lparr>m_consecutive_failures := m_consecutive_failures m + 1,
       m_last_failure_at := Some now,
       m_last_error := Some error,
       m_backoff_level := next_backoff,
       m_cooldown_until := Some cooldown_until,
       m_is_healthy := (if m_consecutive_failures m + 1 \<ge> threshold then False else m_is_healthy m)\<rparr>"

definition mark_success_row ::
  "timestamp \<Rightarrow> timestamp option \<Rightarrow> rat option \<Rightarrow> rat option \<Rightarrow> model_row \<Rightarrow> model_row" where
  "mark_success_row now probed_at latency_ms ttfb_ms m =
     m\<lparr>m_consecutive_failures := 0,
       m_backoff_level := 0,
       m_cooldown_until := None,
       m_is_healthy := True,
       m_last_error := None,
       m_last_success_at := Some now,
       m_last_routed_at := Some now,
       m_last_health_check := Some now,
       m_last_probe_at := coalesce probed_at (m_last_probe_at m),
       m_avg_latency_ms := rolling (m_avg_latency_ms m) latency_ms,
       m_avg_ttfb_ms := rolling (m_avg_ttfb_ms m) ttfb_ms\<rparr>"

text \<open>\<open>ON CONFLICT(id) DO UPDATE\<close> of the discovery upsert: the listed columns are overwritten.\<close>

definition upsert_model_row :: "model_row \<Rightarrow> model_row \<Rightarrow> model_row" where
  "upsert_model_row excluded m =
     m\<lparr>m_name := m_name excluded,
       m_provider_id := m_provider_id excluded,
       m_endpoint_id := m_endpoint_id excluded,
       m_provider_model_id := m_provider_model_id excluded,
       m_provider_base_url := m_provider_base_url excluded,
       m_provider_api_key_env := m_provider_api_key_env excluded,
       m_provider_options_json := m_provider_options_json excluded,
       m_is_active := True,
       m_last_seen_at := m_last_seen_at excluded,
       m_is_healthy := m_is_healthy excluded,
       m_supports_tools := m_supports_tools excluded,
       m_supports_streaming := m_supports_streaming excluded,
       m_supports_vision := m_supports_vision excluded,
       m_supports_structured_output := m_supports_structured_output excluded,
       m_supports_system_messages := m_supports_system_messages excluded,
       m_context_window := m_context_window excluded,
       m_max_output_tokens := m_max_output_tokens excluded,
       m_tokenizer_family := m_tokenizer_family excluded,
       m_provider_rank := m_provider_rank excluded,
       m_openrouter_rank := m_openrouter_rank excluded,
       m_chatbot_arena_elo := m_chatbot_arena_elo excluded,
       m_open_llm_score := m_open_llm_score excluded\<rparr>"

definition upsert_model :: "model_row \<Rightarrow> tables \<Rightarrow> tables" where
  "upsert_model excluded t =
     (if m_id excluded \<in> m_id ` set (t_models t)
      then update_models (\<lambda>m. m_id m = m_id excluded) (upsert_model_row excluded) t
      else t\<lparr>t_models := t_models t @ [excluded]\<rparr>)"

definition set_secret :: "string \<Rightarrow> string \<Rightarrow> timestamp \<Rightarrow> tables \<Rightarrow> tables" where
  "set_secret key value_encrypted now t =
     t\<lparr>t_secrets := AList.update key
        (case map_of (t_secrets t) key of
           None \<Rightarrow> \<lparr>s_value_encrypted = value_encrypted, s_created_at = now, s_updated_at = now\<rparr>
         | Some s \<Rightarrow> s\<lparr>s_value_encrypted := value_encrypted, s_updated_at := now\<rparr>) (t_secrets t)\<rparr>"

definition set_vault :: "string \<Rightarrow> string \<Rightarrow> timestamp \<Rightarrow> tables \<Rightarrow> tables" where
  "set_vault salt verifier now t =
     t\<lparr>t_vault := Some (case t_vault t of
         None \<Rightarrow> \<lparr>v_salt_b64 = salt, v_verifier_encrypted = verifier,
                   v_created_at = now, v_updated_at = now\<rparr>
       | Some v \<Rightarrow> v\<lparr>v_salt_b64 := salt, v_verifier_encrypted := verifier, v_updated_at := now\<rparr>)\<rparr>"

definition set_auth ::
  "string \<Rightarrow> string option \<Rightarrow> string option \<Rightarrow> timestamp \<Rightarrow> tables \<Rightarrow> tables" where
  "set_auth mode salt hash now t =
     t\<lparr>t_auth := Some (case t_auth t of
         None \<Rightarrow> \<lparr>a_mode = mode, a_token_salt_b64 = salt, a_token_hash_b64 = hash,
                   a_created_at = now, a_updated_at = now\<rparr>
       | Some a \<Rightarrow> a\<lparr>a_mode := mode, a_token_salt_b64 := salt, a_token_hash_b64 := hash,
                      a_updated_at := now\<rparr>)\<rparr>"

definition upsert_leaderboard ::
  "string \<Rightarrow> rat option \<Rightarrow> rat option \<Rightarrow> timestamp \<Rightarrow> tables \<Rightarrow> tables" where
  "upsert_leaderboard name elo avg_score now t =
     t\<lparr>t_leaderboard := AList.update name
        (case map_of (t_leaderboard t) name of
           None \<Rightarrow> \<lparr>lb_chatbot_arena_elo = elo, lb_open_llm_avg_score = avg_score, lb_fetched_at = now\<rparr>
         | Some r \<Rightarrow> \<lparr>lb_chatbot_arena_elo = coalesce elo (lb_chatbot_arena_elo r),
                       lb_open_llm_avg_score = coalesce avg_score (lb_open_llm_avg_score r),
                       lb_fetched_at = now\<rparr>) (t_leaderboard t)\<rparr>"

definition set_model_active :: "model_id \<Rightarrow> bool \<Rightarrow> tables \<Rightarrow> tables" where
  [simp]: "set_model_active i active t = update_models (\<lambda>m. m_id m = i) (\<lambda>m. m\<lparr>m_is_active := active\<rparr>) t"

definition mark_models_not_seen :: "provider_id \<Rightarrow> model_id list \<Rightarrow> tables \<Rightarrow> tables" where
  [simp]: "mark_models_not_seen p seen_ids t =
     update_models (\<lambda>m. m_provider_id m = p \<and> m_id m \<notin> set seen_ids) (\<lambda>m. m\<lparr>m_is_active := False\<rparr>) t"

definition delete_override :: "string \<Rightarrow> tables \<Rightarrow> tables" where
  [simp]: "delete_override key t = t\<lparr>t_overrides := AList.delete key (t_overrides t)\<rparr>"

definition delete_managed_secret :: "string \<Rightarrow> tables \<Rightarrow> tables" where
  [simp]: "delete_managed_secret key t = t\<lparr>t_secrets := AList.delete key (t_secrets t)\<rparr>"

fun exec_stmt :: "stmt \<Rightarrow> tables \<Rightarrow> tables option" where
  "exec_stmt (UpsertModel row) t = Some (upsert_model row t)"
| "exec_stmt RejectedUpsert t = None"
| "exec_stmt (MarkFailure i now error next_backoff cooldown_until threshold) t =
     Some (update_models (\<lambda>m. m_id m = i)
       (mark_failure_row now error next_backoff cooldown_until threshold) t)"
| "exec_stmt (MarkSuccess i now probed_at latency_ms ttfb_ms) t =
     Some (update_models (\<lambda>m. m_id m = i) (mark_success_row now probed_at latency_ms ttfb_ms) t)"
| "exec_stmt (SetModelActive i active) t =
     Some (set_model_active i active t)"
| "exec_stmt (MarkModelsNotSeen p seen_ids) t =
     Some (mark_models_not_seen p seen_ids t)"
| "exec_stmt (DeactivateProvider p) t =
     Some (update_models (\<lambda>m. m_provider_id m = p \<and> m_is_active m) (\<lambda>m. m\<lparr>m_is_active := False\<rparr>) t)"
| "exec_stmt (UpdateScore i score now) t =
     Some (update_models (\<lambda>m. m_id m = i)
       (\<lambda>m. m\<lparr>m_composite_score := score, m_score_updated_at := Some now\<rparr>) t)"
| "exec_stmt (InsertLog l) t = (if log_bindable l then Some (t\<lparr>t_log := t_log t @ [l]\<rparr>) else None)"
| "exec_stmt (SetOverride key val now) t =
     Some (t\<lparr>t_overrides := AList.update key (val, now) (t_overrides t)\<rparr>)"
| "exec_stmt (DeleteOverride key) t = Some (delete_override key t)"
| "exec_stmt (SetManagedSecret key val now) t = Some (set_secret key val now t)"
| "exec_stmt (DeleteManagedSecret key) t = Some (delete_managed_secret key t)"
| "exec_stmt (SetSecretVaultConfig salt verifier now) t = Some (set_vault salt verifier now t)"
| "exec_stmt (SetGatewayAuthConfig mode salt hash now) t = Some (set_auth mode salt hash now t)"
| "exec_stmt (UpsertLeaderboard name elo avg_score now) t =
     Some (upsert_leaderboard name elo avg_score now t)"

definition exec_stmts :: "stmt list \<Rightarrow> tables \<Rightarrow> tables option" where
  "exec_stmts = fold_opt exec_stmt"

lemma exec_stmts_simps [simp]:
  "exec_stmts [] t = Some t"
  "exec_stmts (s # ss) t = (case exec_stmt s t of None \<Rightarrow> None | Some u \<Rightarrow> exec_stmts ss u)"
  unfolding exec_stmts_def by simp_all

lemma exec_stmts_append:
  "exec_stmts (ss @ rs) t = (case exec_stmts ss t of None \<Rightarrow> None | Some u \<Rightarrow> exec_stmts rs u)"
  unfolding exec_stmts_def by (rule fold_opt_append)

definition find_model :: "tables \<Rightarrow> model_id \<Rightarrow> model_row option" where
  "find_model t i = find (\<lambda>m. m_id m = i) (t_models t)"

section \<open>Queries\<close>

definition list_overrides :: "tables \<Rightarrow> (string \<times> string \<times> timestamp) list" where
  [simp]: "list_overrides t = sort_key fst (t_overrides t)"

definition get_model_tokenization_metadata :: "tables \<Rightarrow> model_id \<Rightarrow> (string \<times> string option \<times> int option) option" where
  [simp]: "get_model_tokenization_metadata t i =
     map_option (\<lambda>m. (m_provider_model_id m, m_tokenizer_family m, m_context_window m)) (find_model t i)"

section \<open>Primary keys\<close>

text \<open>The primary keys of the tables: no statement creates a duplicate.\<close>

definition wf_tables :: "tables \<Rightarrow> bool" where
  "wf_tables t = (distinct (map m_id (t_models t)) \<and> distinct (map fst (t_leaderboard t))
     \<and> distinct (map fst (t_overrides t)) \<and> distinct (map fst (t_secrets t)))"

lemma t_models_update_models [simp]:
  "t_models (update_models p f t) = map (\<lambda>m. if p m then f m else m) (t_models t)"
  by (simp add: update_models_def)

lemma in_update_models:
  assumes "m \<in> set (t_models (update_models p f t))"
  obtains m1 where "m1 \<in> set (t_models t)" and "m = (if p m1 then f m1 else m1)"
  using assms by auto

lemma map_id_update_models:
  "(\<And>m. m_id (f m) = m_id m) \<Longrightarrow> map m_id (t_models (update_models p f t)) = map m_id (t_models t)"
  by simp

lemma row_updates_keep_id [simp]:
  "m_id (mark_failure_row a b c d e m) = m_id m"
  "m_id (mark_success_row a' b' c' d' m) = m_id m"
  "m_id (upsert_model_row x m) = m_id m"
  by (simp_all add: mark_failure_row_def mark_success_row_def upsert_model_row_def)

lemma update_models_others [simp]:
  "t_log (update_models p f t) = t_log t" "t_leaderboard (update_models p f t) = t_leaderboard t"
  "t_overrides (update_models p f t) = t_overrides t" "t_secrets (update_models p f t) = t_secrets t"
  "t_vault (update_models p f t) = t_vault t" "t_auth (update_models p f t) = t_auth t"
  by (simp_all add: update_models_def)

lemma wf_update_models [intro]:
  "wf_tables t \<Longrightarrow> (\<And>m. m_id (f m) = m_id m) \<Longrightarrow> wf_tables (update_models p f t)"
  using map_id_update_models [of f p t] by (simp add: wf_tables_def del: t_models_update_models)

lemma wf_upsert_model [intro]:
  assumes wf: "wf_tables t"
  shows "wf_tables (upsert_model row t)"
proof (cases "m_id row \<in> m_id ` set (t_models t)")
  case True
  with wf show ?thesis by (auto simp: upsert_model_def)
next
  case False
  with wf show ?thesis by (simp add: upsert_model_def wf_tables_def)
qed

lemma wf_other_tables [intro]:
  assumes "wf_tables t"
  shows "wf_tables (t\<lparr>t_log := ls\<rparr>)" "wf_tables (set_secret k v now t)"
    "wf_tables (set_vault salt verifier now t)" "wf_tables (set_auth mode asalt hash now t)"
    "wf_tables (upsert_leaderboard n elo av now t)"
    "wf_tables (t\<lparr>t_overrides := AList.update k ov (t_overrides t)\<rparr>)"
    "wf_tables (t\<lparr>t_overrides := AList.delete k (t_overrides t)\<rparr>)"
    "wf_tables (t\<lparr>t_secrets := AList.delete k (t_secrets t)\<rparr>)"
  using assms
  by (simp_all add: wf_tables_def set_secret_def set_vault_def set_auth_def upsert_leaderboard_def
      distinct_update distinct_delete)

lemma wf_exec_stmt: "exec_stmt s t = Some t' \<Longrightarrow> wf_tables t \<Longrightarrow> wf_tables t'"
  by (cases s) (auto split: if_splits)

lemma wf_exec_stmts: "exec_stmts ss t = Some t' \<Longrightarrow> wf_tables t \<Longrightarrow> wf_tables t'"
  unfolding exec_stmts_def by (rule fold_opt_invariant [where P = wf_tables]) (auto intro: wf_exec_stmt)

end
