(* ===== verification/FL_Writer.thy ===== *)
theory FL_Writer
  imports FL_Tables
begin

text \<open>
  The writer thread of \<open>src/db.py\<close> (\<open>DBWriter\<close>) over the tables. The queue is bounded;
  requests log with low priority (dropped when their own limit or the queue is full), all
  other statements wait for room. One writer step takes the head of the queue, executes it
  and acknowledges it; a statement that raises ends the thread, since the loop has a
  \<open>finally\<close> but no \<open>except\<close>. Waiting for room or for an empty queue (\<open>flush\<close>) is the
  thread taking steps; when the thread is gone the caller waits for ever (\<^const>\<open>None\<close>).

  The interface the rest of the program uses is the locale \<open>write_behind\<close>: submitting
  statements and flushing has the effect of executing them in order.
\<close>

record write_task =
  wt_stmt :: stmt
  wt_low :: bool

record database =
  db_tables :: tables
  w_low_enabled :: bool
  w_low_queue_size :: int
  w_pending_low :: int
  w_dropped_low :: int
  w_queue :: "write_task option list"
  w_maxsize :: int
  w_started :: bool
  w_alive :: bool

definition HIGH_PRIORITY_QUEUE_RESERVE :: int where
  "HIGH_PRIORITY_QUEUE_RESERVE = 256"

definition writer_init :: "bool \<Rightarrow> int \<Rightarrow> tables \<Rightarrow> database" where
  "writer_init low_enabled low_queue_size t =
     \<lparr>db_tables = t, w_low_enabled = low_enabled, w_low_queue_size = max low_queue_size 1,
      w_pending_low = 0, w_dropped_low = 0, w_queue = [],
      w_maxsize = max low_queue_size 1 + HIGH_PRIORITY_QUEUE_RESERVE,
      w_started = False, w_alive = False\<rparr>"

definition writer_start :: "database \<Rightarrow> database" where
  "writer_start db = (if w_started db then db else db\<lparr>w_started := True, w_alive := True\<rparr>)"

definition set_low_priority_log_policy :: "bool \<Rightarrow> int \<Rightarrow> database \<Rightarrow> database" where
  "set_low_priority_log_policy enabled queue_size db =
     db\<lparr>w_low_enabled := enabled, w_low_queue_size := max queue_size 1\<rparr>"

definition queue_depth :: "database \<Rightarrow> int" where
  "queue_depth db = int (length (w_queue db))"

definition queue_full :: "database \<Rightarrow> bool" where
  "queue_full db = (w_maxsize db \<le> queue_depth db)"

definition push :: "write_task option \<Rightarrow> database \<Rightarrow> database" where
  "push t db = db\<lparr>w_queue := w_queue db @ [t]\<rparr>"

text \<open>\<open>enqueue(..., is_low_priority_log=True)\<close>: never waits.\<close>

definition enqueue_low :: "stmt \<Rightarrow> database \<Rightarrow> bool \<times> database" where
  "enqueue_low s db =
     (if \<not> w_low_enabled db \<or> w_low_queue_size db \<le> w_pending_low db
      then (False, db\<lparr>w_dropped_low := w_dropped_low db + 1\<rparr>)
      else
        let db1 = db\<lparr>w_pending_low := w_pending_low db + 1\<rparr> in
        if queue_full db1
        then (False, db1\<lparr>w_pending_low := max (w_pending_low db1 - 1) 0,
                         w_dropped_low := w_dropped_low db1 + 1\<rparr>)
        else (True, push (Some \<lparr>wt_stmt = s, wt_low = True\<rparr>) db1))"

text \<open>One iteration of \<open>_run\<close>; \<^const>\<open>None\<close> when the thread is gone or has nothing to do.\<close>

definition acknowledge :: "write_task \<Rightarrow> database \<Rightarrow> database" where
  "acknowledge t db =
     (if wt_low t then db\<lparr>w_pending_low := max (w_pending_low db - 1) 0\<rparr> else db)"

definition writer_step :: "database \<Rightarrow> database option" where
  "writer_step db =
     (if \<not> w_alive db then None
      else case w_queue db of
        [] \<Rightarrow> None
      | None # q \<Rightarrow> Some (db\<lparr>w_queue := q, w_alive := False\<rparr>)
      | Some t # q \<Rightarrow>
          (case exec_stmt (wt_stmt t) (db_tables db) of
             None \<Rightarrow> Some (acknowledge t (db\<lparr>w_queue := q, w_alive := False\<rparr>))
           | Some tb \<Rightarrow> Some (acknowledge t (db\<lparr>w_queue := q, db_tables := tb\<rparr>))))"

text \<open>A high-priority put: wait for one writer step when the queue is full.\<close>

definition enqueue :: "stmt \<Rightarrow> database \<Rightarrow> database option" where
  "enqueue s db =
     (let t = Some \<lparr>wt_stmt = s, wt_low = False\<rparr> in
      if queue_full db then map_option (push t) (writer_step db) else Some (push t db))"

text \<open>\<open>stop\<close> puts the end marker; the thread ends when it reaches it.\<close>

definition writer_stop :: "database \<Rightarrow> database option" where
  "writer_stop db =
     (if \<not> w_started db then Some db
      else if queue_full db then map_option (push None) (writer_step db)
      else Some (push None db))"

lemma length_queue_writer_step:
  "writer_step db = Some db' \<Longrightarrow> Suc (length (w_queue db')) = length (w_queue db)"
  by (auto simp: writer_step_def acknowledge_def split: if_splits list.splits option.splits)

text \<open>\<open>flush\<close> waits until every queued task is acknowledged.\<close>

function flush :: "database \<Rightarrow> database option" where
  "flush db = (if w_queue db = [] then Some db
     else case writer_step db of None \<Rightarrow> None | Some db' \<Rightarrow> flush db')"
  by pat_completeness auto
termination
  by (relation "measure (\<lambda>db. length (w_queue db))") (auto dest: length_queue_writer_step)

declare flush.simps [simp del]

section \<open>The invariant of the writer\<close>

definition is_low :: "write_task option \<Rightarrow> bool" where
  "is_low t = (case t of None \<Rightarrow> False | Some w \<Rightarrow> wt_low w)"

definition queued_low :: "database \<Rightarrow> int" where
  "queued_low db = int (length (filter is_low (w_queue db)))"

definition writer_inv :: "database \<Rightarrow> bool" where
  "writer_inv db = (w_pending_low db = queued_low db \<and> queue_depth db \<le> w_maxsize db
     \<and> 1 \<le> w_low_queue_size db \<and> 1 \<le> w_maxsize db)"

lemmas writer_defs = writer_inv_def queued_low_def queue_depth_def queue_full_def push_def
  is_low_def acknowledge_def

datatype db_event = EvLog stmt | EvWrite stmt | EvPolicy bool int | EvWriter | EvStart | EvStop

inductive db_step :: "db_event \<Rightarrow> database \<Rightarrow> database \<Rightarrow> bool" where
  log: "enqueue_low s db = (b, db') \<Longrightarrow> db_step (EvLog s) db db'"
| hiwrite: "enqueue s db = Some db' \<Longrightarrow> db_step (EvWrite s) db db'"
| policy: "db_step (EvPolicy e n) db (set_low_priority_log_policy e n db)"
| writer: "writer_step db = Some db' \<Longrightarrow> db_step EvWriter db db'"
| start: "db_step EvStart db (writer_start db)"
| stop: "writer_stop db = Some db' \<Longrightarrow> db_step EvStop db db'"

inductive_cases db_policyE: "db_step (EvPolicy e n) db db'"

inductive db_reach :: "(db_event \<Rightarrow> bool) \<Rightarrow> database \<Rightarrow> database \<Rightarrow> bool" for ok :: "db_event \<Rightarrow> bool" where
  refl: "db_reach ok db db"
| step: "db_reach ok db db' \<Longrightarrow> ok e \<Longrightarrow> db_step e db' db'' \<Longrightarrow> db_reach ok db db''"

lemma writer_inv_init: "writer_inv (writer_init e n t)"
  by (simp add: writer_init_def writer_defs HIGH_PRIORITY_QUEUE_RESERVE_def)

lemma writer_inv_writer_step: "writer_step db = Some db' \<Longrightarrow> writer_inv db \<Longrightarrow> writer_inv db'"
  by (auto simp: writer_step_def writer_defs split: if_splits list.splits option.splits)

lemma writer_step_maxsize [simp]: "writer_step db = Some db' \<Longrightarrow> w_maxsize db' = w_maxsize db"
  by (auto simp: writer_step_def acknowledge_def split: if_splits list.splits option.splits)

lemma writer_step_room: "writer_step db = Some db' \<Longrightarrow> writer_inv db \<Longrightarrow> \<not> queue_full db'"
  using length_queue_writer_step [of db db'] writer_step_maxsize [of db db']
  by (simp add: writer_inv_def queue_full_def queue_depth_def)

lemma writer_inv_push_high:
  "writer_inv db \<Longrightarrow> \<not> queue_full db \<Longrightarrow> \<not> is_low t \<Longrightarrow> writer_inv (push t db)"
  by (auto simp: writer_defs)

text \<open>Putting a task that is not a low-priority log, after a writer step when there is no room.\<close>

lemma writer_inv_wait_push:
  assumes "(if queue_full db then map_option (push t) (writer_step db) else Some (push t db)) = Some db'"
    and "writer_inv db" and "\<not> is_low t"
  shows "writer_inv db'"
proof (cases "queue_full db")
  case True
  with assms(1) obtain db1 where db1: "writer_step db = Some db1" "db' = push t db1" by auto
  show ?thesis unfolding db1(2)
    using writer_inv_writer_step [OF db1(1)] writer_step_room [OF db1(1)] assms(2,3)
    by (intro writer_inv_push_high)
next
  case False
  with assms show ?thesis by (auto intro: writer_inv_push_high)
qed

lemma writer_inv_enqueue: "enqueue s db = Some db' \<Longrightarrow> writer_inv db \<Longrightarrow> writer_inv db'"
  unfolding enqueue_def Let_def by (erule writer_inv_wait_push) (simp_all add: is_low_def)

lemma writer_inv_enqueue_low: "enqueue_low s db = (b, db') \<Longrightarrow> writer_inv db \<Longrightarrow> writer_inv db'"
  by (auto simp: enqueue_low_def Let_def writer_defs split: if_splits)

lemma writer_inv_stop: "writer_stop db = Some db' \<Longrightarrow> writer_inv db \<Longrightarrow> writer_inv db'"
  by (cases "w_started db")
    (auto simp: writer_stop_def is_low_def dest: writer_inv_wait_push [where t = None])

lemma db_step_inv: "db_step e db db' \<Longrightarrow> writer_inv db \<Longrightarrow> writer_inv db'"
proof (induction rule: db_step.induct)
  case (policy e n db)
  then show ?case by (simp add: set_low_priority_log_policy_def writer_defs)
next
  case (start db)
  then show ?case by (simp add: writer_start_def writer_defs)
qed (auto intro: writer_inv_enqueue writer_inv_enqueue_low writer_inv_writer_step writer_inv_stop)

lemma db_reach_inv: "db_reach ok db db' \<Longrightarrow> writer_inv db \<Longrightarrow> writer_inv db'"
  by (induction rule: db_reach.induct) (auto intro: db_step_inv)

section \<open>Writing behind\<close>

text \<open>
  \<open>settled db\<close>: the tables once everything queued has been executed. Submitting a statement
  executes it after all earlier ones; flushing makes the settled tables visible.
\<close>

definition pending_stmts :: "database \<Rightarrow> stmt list" where
  "pending_stmts db = map (\<lambda>t. wt_stmt (the t)) (w_queue db)"

definition settled :: "database \<Rightarrow> tables option" where
  "settled db = exec_stmts (pending_stmts db) (db_tables db)"

definition running :: "database \<Rightarrow> bool" where
  "running db = (writer_inv db \<and> w_alive db \<and> None \<notin> set (w_queue db))"

locale write_behind =
  fixes submit :: "'s \<Rightarrow> 'db \<Rightarrow> 'db option"
    and flush_all :: "'db \<Rightarrow> 'db option"
    and view :: "'db \<Rightarrow> 't"
    and settles :: "'db \<Rightarrow> 't option"
    and exec :: "'s \<Rightarrow> 't \<Rightarrow> 't option"
    and ok :: "'db \<Rightarrow> bool"
  assumes submit_settles:
      "\<lbrakk>ok db; settles db = Some t; exec s t = Some t'\<rbrakk>
       \<Longrightarrow> \<exists>db'. submit s db = Some db' \<and> ok db' \<and> settles db' = Some t'"
    and flush_settles:
      "\<lbrakk>ok db; settles db = Some t\<rbrakk>
       \<Longrightarrow> \<exists>db'. flush_all db = Some db' \<and> ok db' \<and> view db' = t \<and> settles db' = Some t"
begin

lemma submit_all_settles:
  assumes "ok db" and "settles db = Some t" and "fold_opt exec ss t = Some t'"
  shows "\<exists>db'. fold_opt submit ss db = Some db' \<and> ok db' \<and> settles db' = Some t'"
  using assms
proof (induction ss arbitrary: db t)
  case (Cons s ss)
  from Cons.prems(3) obtain t1 where t1: "exec s t = Some t1" "fold_opt exec ss t1 = Some t'"
    by (auto split: option.splits)
  with Cons.prems submit_settles obtain db1 where
    db1: "submit s db = Some db1" "ok db1" "settles db1 = Some t1" by blast
  from Cons.IH [OF db1(2,3) t1(2)] db1(1) show ?case by auto
qed auto

lemma submit_all_flush_view:
  assumes "ok db" and "settles db = Some t" and "fold_opt exec ss t = Some t'"
  shows "\<exists>db1 db2. fold_opt submit ss db = Some db1 \<and> flush_all db1 = Some db2 \<and> view db2 = t'
    \<and> ok db2 \<and> settles db2 = Some t'"
  using submit_all_settles [OF assms] flush_settles by blast

end

lemma settled_Cons:
  "w_queue db = Some t # q \<Longrightarrow> settled db =
   (case exec_stmt (wt_stmt t) (db_tables db) of None \<Rightarrow> None
    | Some tb \<Rightarrow> exec_stmts (map (\<lambda>t. wt_stmt (the t)) q) tb)"
  by (simp add: settled_def pending_stmts_def)

lemma writer_step_running:
  assumes r: "running db" and s: "settled db = Some t" and q: "w_queue db \<noteq> []"
  shows "\<exists>db'. writer_step db = Some db' \<and> running db' \<and> settled db' = Some t"
proof -
  from r q obtain w rest where w: "w_queue db = Some w # rest"
    unfolding running_def by (cases "w_queue db") (auto, metis not_None_eq)
  with s obtain tb where tb: "exec_stmt (wt_stmt w) (db_tables db) = Some tb"
    by (auto simp: settled_Cons split: option.splits)
  define db' where "db' = acknowledge w (db\<lparr>w_queue := rest, db_tables := tb\<rparr>)"
  have step: "writer_step db = Some db'"
    using r w tb by (simp add: writer_step_def db'_def running_def)
  have "settled db' = Some t"
    using s w tb by (simp add: settled_Cons db'_def settled_def pending_stmts_def acknowledge_def)
  moreover have "running db'"
    using r w step writer_inv_writer_step [OF step] by (simp add: running_def db'_def acknowledge_def)
  ultimately show ?thesis using step by blast
qed

lemma push_running:
  assumes "running db" and "settled db = Some t" and "exec_stmt s t = Some t'" and "\<not> queue_full db"
  shows "running (push (Some \<lparr>wt_stmt = s, wt_low = False\<rparr>) db)"
    and "settled (push (Some \<lparr>wt_stmt = s, wt_low = False\<rparr>) db) = Some t'"
  using assms writer_inv_push_high [of db "Some \<lparr>wt_stmt = s, wt_low = False\<rparr>"]
  by (auto simp: running_def is_low_def settled_def pending_stmts_def exec_stmts_append push_def)

lemma enqueue_settles:
  assumes "running db" and "settled db = Some t" and "exec_stmt s t = Some t'"
  shows "\<exists>db'. enqueue s db = Some db' \<and> running db' \<and> settled db' = Some t'"
proof (cases "queue_full db")
  case False
  with push_running [OF assms] show ?thesis by (simp add: enqueue_def)
next
  case True
  from assms(1) have inv: "writer_inv db" by (simp add: running_def)
  with True have "w_queue db \<noteq> []" by (auto simp: writer_defs)
  from writer_step_running [OF assms(1,2) this] obtain db' where
    db': "writer_step db = Some db'" "running db'" "settled db' = Some t" by blast
  from push_running [OF db'(2,3) assms(3)] writer_step_room [OF db'(1) inv] True db'(1)
  show ?thesis by (simp add: enqueue_def)
qed

lemma flush_running:
  assumes "running db" and "settled db = Some t"
  shows "\<exists>db'. flush db = Some db' \<and> running db' \<and> db_tables db' = t \<and> settled db' = Some t
    \<and> w_queue db' = []"
  using assms
proof (induction db rule: flush.induct)
  case (1 db)
  show ?case
  proof (cases "w_queue db = []")
    case True
    with 1(2,3) show ?thesis
      by (auto simp: flush.simps [of db] settled_def pending_stmts_def)
  next
    case False
    from writer_step_running [OF 1(2,3) False] obtain db' where
      db': "writer_step db = Some db'" "running db'" "settled db' = Some t" by blast
    from 1(1) [OF False db'(1) db'(2,3)] False db'(1) show ?thesis
      by (simp add: flush.simps [of db])
  qed
qed

interpretation writer: write_behind enqueue flush db_tables settled exec_stmt running
proof
  show "\<exists>db'. flush db = Some db' \<and> running db' \<and> db_tables db' = t \<and> settled db' = Some t"
    if "running db" "settled db = Some t" for db t
    using flush_running [OF that] by blast
qed (rule enqueue_settles)

section \<open>When a statement raises\<close>

lemma writer_step_raises:
  assumes "w_alive db" and "w_queue db = Some w # q" and "exec_stmt (wt_stmt w) (db_tables db) = None"
  shows "\<exists>db'. writer_step db = Some db' \<and> \<not> w_alive db' \<and> w_queue db' = q \<and> db_tables db' = db_tables db"
  using assms by (simp add: writer_step_def acknowledge_def)

lemma dead_writer_stuck: "\<not> w_alive db \<Longrightarrow> w_queue db \<noteq> [] \<Longrightarrow> flush db = None"
  by (simp add: flush.simps [of db] writer_step_def)

lemma dead_stays_dead:
  assumes "db_step e db db'" and "\<not> w_alive db" and "w_started db"
  shows "\<not> w_alive db' \<and> w_started db' \<and> db_tables db' = db_tables db"
  using assms
proof (induction rule: db_step.induct)
  case (log s db b db')
  then show ?case by (auto simp: enqueue_low_def Let_def push_def split: if_splits)
next
  case (hiwrite s db db')
  then show ?case by (auto simp: enqueue_def Let_def push_def writer_step_def split: if_splits)
next
  case (policy e n db)
  then show ?case by (simp add: set_low_priority_log_policy_def)
next
  case (writer db db')
  then show ?case by (simp add: writer_step_def)
next
  case (start db)
  then show ?case by (simp add: writer_start_def)
next
  case (stop db db')
  then show ?case by (auto simp: writer_stop_def push_def writer_step_def split: if_splits)
qed

lemma dead_forever:
  "db_reach ok db db' \<Longrightarrow> \<not> w_alive db \<Longrightarrow> w_started db \<Longrightarrow>
   \<not> w_alive db' \<and> w_started db' \<and> db_tables db' = db_tables db"
  by (induction rule: db_reach.induct) (auto dest!: dead_stays_dead)

section \<open>What every statement keeps\<close>

text \<open>
  A property of the tables that every queued and every submitted statement keeps is kept by all
  steps of the writer and its clients, the end of the writer included.
\<close>

definition submits :: "(stmt \<Rightarrow> bool) \<Rightarrow> db_event \<Rightarrow> bool" where
  "submits ok e = (case e of EvLog s \<Rightarrow> ok s | EvWrite s \<Rightarrow> ok s | _ \<Rightarrow> True)"

definition queue_holds :: "(stmt \<Rightarrow> bool) \<Rightarrow> (tables \<Rightarrow> bool) \<Rightarrow> database \<Rightarrow> bool" where
  "queue_holds ok P db = (P (db_tables db) \<and> (\<forall>w. Some w \<in> set (w_queue db) \<longrightarrow> ok (wt_stmt w)))"

lemma queue_holds_step:
  assumes keeps: "\<And>s t t'. ok s \<Longrightarrow> exec_stmt s t = Some t' \<Longrightarrow> P t \<Longrightarrow> P t'"
    and "db_step e db db'" and "submits ok e" and "queue_holds ok P db"
  shows "queue_holds ok P db'"
proof -
  have ws: "queue_holds ok P db'" if "writer_step db = Some db'" "queue_holds ok P db" for db db'
    using that keeps
    by (auto simp: writer_step_def queue_holds_def acknowledge_def split: if_splits list.splits option.splits)
  from assms(2-4) show ?thesis
  proof (induction rule: db_step.induct)
    case (log s db b db')
    then show ?case by (auto simp: enqueue_low_def push_def queue_holds_def submits_def Let_def split: if_splits)
  next
    case (hiwrite s db db')
    then show ?case
      using ws [of db] by (auto simp: enqueue_def push_def queue_holds_def submits_def Let_def split: if_splits)
  next
    case (policy e n db)
    then show ?case by (simp add: set_low_priority_log_policy_def queue_holds_def)
  next
    case (writer db db')
    with ws show ?case by blast
  next
    case (start db)
    then show ?case by (simp add: writer_start_def queue_holds_def)
  next
    case (stop db db')
    then show ?case
      using ws [of db] by (auto simp: writer_stop_def push_def queue_holds_def split: if_splits)
  qed
qed

lemma queue_holds_reach:
  assumes "\<And>s t t'. ok s \<Longrightarrow> exec_stmt s t = Some t' \<Longrightarrow> P t \<Longrightarrow> P t'"
    and "db_reach (submits ok) db db'" and "queue_holds ok P db"
  shows "queue_holds ok P db'"
  using assms(2,3) by (induction rule: db_reach.induct) (auto intro: queue_holds_step [OF assms(1)])

section \<open>The reserve for high-priority writes\<close>

text \<open>Policies that keep the reserve: the limit they set leaves 256 slots of the queue.\<close>

definition reserve_policy :: "int \<Rightarrow> db_event \<Rightarrow> bool" where
  "reserve_policy maxsize e = (case e of
     EvPolicy enabled n \<Rightarrow> max n 1 + HIGH_PRIORITY_QUEUE_RESERVE \<le> maxsize | _ \<Rightarrow> True)"

definition reserve_inv :: "database \<Rightarrow> bool" where
  "reserve_inv db = (writer_inv db \<and> queued_low db + HIGH_PRIORITY_QUEUE_RESERVE \<le> w_maxsize db
     \<and> w_low_queue_size db + HIGH_PRIORITY_QUEUE_RESERVE \<le> w_maxsize db)"

lemma queued_low_writer_step:
  "writer_step db = Some db' \<Longrightarrow> queued_low db' \<le> queued_low db \<and> w_low_queue_size db' = w_low_queue_size db"
  by (auto simp: writer_step_def queued_low_def acknowledge_def split: if_splits list.splits option.splits)

lemma queued_low_push_high [simp]:
  "\<not> is_low t \<Longrightarrow> queued_low (push t db) = queued_low db"
  "w_low_queue_size (push t db) = w_low_queue_size db" "w_maxsize (push t db) = w_maxsize db"
  by (simp_all add: queued_low_def push_def)

lemma reserve_inv_step:
  assumes "db_step e db db'" and "reserve_inv db" and "reserve_policy (w_maxsize db) e"
  shows "reserve_inv db' \<and> w_maxsize db' = w_maxsize db"
proof -
  have inv: "writer_inv db'"
    using assms(1,2) by (auto simp: reserve_inv_def intro: db_step_inv)
  show ?thesis using assms inv
  proof (induction rule: db_step.induct)
    case (log s db b db')
    then show ?case
      by (auto simp: enqueue_low_def Let_def reserve_inv_def writer_defs split: if_splits)
  next
    case (hiwrite s db db')
    then show ?case
      using queued_low_writer_step
      by (fastforce simp: enqueue_def Let_def reserve_inv_def is_low_def split: if_splits)
  next
    case (policy e n db)
    then show ?case
      by (simp add: set_low_priority_log_policy_def reserve_inv_def reserve_policy_def queued_low_def)
  next
    case (writer db db')
    then show ?case using queued_low_writer_step [of db db'] by (auto simp: reserve_inv_def)
  next
    case (start db)
    then show ?case by (auto simp: writer_start_def reserve_inv_def queued_low_def)
  next
    case (stop db db')
    then show ?case
      using queued_low_writer_step
      by (fastforce simp: writer_stop_def reserve_inv_def is_low_def split: if_splits)
  qed
qed

lemma reserve_inv_reach:
  "db_reach (reserve_policy n) db db' \<Longrightarrow> w_maxsize db = n \<Longrightarrow> reserve_inv db \<Longrightarrow>
   reserve_inv db' \<and> w_maxsize db' = n"
  by (induction rule: db_reach.induct) (auto dest!: reserve_inv_step)

lemma reserve_inv_init: "reserve_inv (writer_init e n t)"
  by (simp add: writer_init_def writer_defs reserve_inv_def HIGH_PRIORITY_QUEUE_RESERVE_def)

section \<open>Guarantees of the writer\<close>

definition small_db :: database where
  "small_db = writer_start (writer_init True 2 empty_tables)"

lemma small_db_running: "running small_db" "settled small_db = Some empty_tables" "w_maxsize small_db = 258"
  by (simp_all add: small_db_def running_def writer_start_def writer_init_def writer_defs
      HIGH_PRIORITY_QUEUE_RESERVE_def settled_def pending_stmts_def)

text \<open>
  C6 (refinement). Writing behind is writing: handing any number of statements to the queue, more
  than it can hold included, and flushing has exactly the effect of executing what was queued
  before and then the statements in order, provided none of them raises. In particular the calls
  return.
\<close>

theorem write_behind_refines_execution:
  assumes "running db" and "settled db = Some t" and "exec_stmts ss t = Some t'"
  shows "\<exists>db1 db2. fold_opt enqueue ss db = Some db1 \<and> flush db1 = Some db2 \<and> db_tables db2 = t'"
  using writer.submit_all_flush_view [OF assms(1,2)] assms(3) unfolding exec_stmts_def by blast

theorem write_behind_refines_execution_witness:
  "\<exists>db1 db2. fold_opt enqueue [SetOverride ''k'' ''1'' 5, SetOverride ''k'' ''2'' 6] small_db = Some db1
     \<and> flush db1 = Some db2 \<and> db_tables db2 = empty_tables\<lparr>t_overrides := [(''k'', (''2'', 6))]\<rparr>"
  by (rule write_behind_refines_execution [OF small_db_running(1,2)]) (simp add: empty_tables_def)

text \<open>
  In every state the writer can reach, under any interleaving of logs, writes,
  policy changes, writer steps, starts and stops, the queue holds at most its capacity and the
  counter of pending low-priority logs is the number of such logs queued.
\<close>

theorem writer_counters_exact:
  assumes "db_reach ok (writer_init enabled n t) db"
  shows "queue_depth db \<le> w_maxsize db \<and> w_pending_low db = queued_low db"
  using db_reach_inv [OF assms writer_inv_init] by (simp add: writer_inv_def)

theorem writer_counters_exact_witness:
  "queue_depth small_db \<le> w_maxsize small_db \<and> w_pending_low small_db = queued_low small_db"
proof -
  have "db_reach (\<lambda>e. True) (writer_init True 2 empty_tables) small_db"
    unfolding small_db_def by (blast intro: db_reach.intros db_step.start)
  then show ?thesis by (rule writer_counters_exact)
qed

text \<open>
  As long as the log policy is never raised above what the queue was sized for, low
  priority logs can never crowd out other writes: 256 slots stay free of them in every reachable
  state. The policy is set on every configuration reload while the queue keeps its size, so the
  hypothesis is what the code leaves to its caller.
\<close>

theorem high_priority_reserve:
  assumes "db_reach (reserve_policy (max n 1 + HIGH_PRIORITY_QUEUE_RESERVE)) (writer_init enabled n t) db"
  shows "queued_low db + HIGH_PRIORITY_QUEUE_RESERVE \<le> w_maxsize db"
proof -
  have "w_maxsize (writer_init enabled n t) = max n 1 + HIGH_PRIORITY_QUEUE_RESERVE"
    by (simp add: writer_init_def)
  from reserve_inv_reach [OF assms this reserve_inv_init] show ?thesis by (simp add: reserve_inv_def)
qed

theorem high_priority_reserve_witness:
  "queued_low small_db + HIGH_PRIORITY_QUEUE_RESERVE \<le> w_maxsize small_db"
proof -
  have "db_reach (reserve_policy (max 2 1 + HIGH_PRIORITY_QUEUE_RESERVE)) (writer_init True 2 empty_tables) small_db"
    unfolding small_db_def by (rule db_reach.step [OF db_reach.refl _ db_step.start]) (simp add: reserve_policy_def)
  then show ?thesis by (rule high_priority_reserve)
qed

end
