(* ===== verification/FL_Tokens.thy ===== *)
theory FL_Tokens
  imports FL_Json
begin

text \<open>
  Token sizing of \<open>src/tokens.py\<close>: the resolution of an exact tokenizer from a model name or
  a tokenizer family, the heuristic count by text kind and family profile, and the estimate
  for a whole request. The tokenizer packages are not part of the repository: a resolved
  tokenizer is the function that counts a text (\<^const>\<open>None\<close> when encoding raises), and the
  three ways to obtain one are fields of \<open>tok_env\<close>. The cache of Hugging Face tokenizers is
  read here as it stands when the request is sized.
\<close>

type_synonym tokenizer = "string \<Rightarrow> nat option"

record tok_env =
  te_encoding_for_model :: "string \<Rightarrow> tokenizer option"
  te_get_encoding :: "string \<Rightarrow> tokenizer option"
  te_hf_cached :: "string \<Rightarrow> tokenizer option"
  te_repr :: "json \<Rightarrow> string"

text \<open>Neither tokenizer package is installed: every count is heuristic.\<close>

definition no_tokenizers :: tok_env where
  "no_tokenizers = \<lparr>te_encoding_for_model = (\<lambda>_. None), te_get_encoding = (\<lambda>_. None),
     te_hf_cached = (\<lambda>_. None), te_repr = (\<lambda>_. ''0.5'')\<rparr>"

definition IMAGE_TOKEN_COST :: int where "IMAGE_TOKEN_COST = 256"
definition MESSAGE_OVERHEAD_TOKENS :: int where "MESSAGE_OVERHEAD_TOKENS = 6"
definition REQUEST_OVERHEAD_TOKENS :: int where "REQUEST_OVERHEAD_TOKENS = 16"
definition STRUCTURED_OUTPUT_OVERHEAD_TOKENS :: int where "STRUCTURED_OUTPUT_OVERHEAD_TOKENS = 16"
definition TOOLS_OVERHEAD_TOKENS :: int where "TOOLS_OVERHEAD_TOKENS = 32"
definition MESSAGE_METADATA_OVERHEAD_TOKENS :: int where "MESSAGE_METADATA_OVERHEAD_TOKENS = 2"

lemmas token_costs = IMAGE_TOKEN_COST_def MESSAGE_OVERHEAD_TOKENS_def REQUEST_OVERHEAD_TOKENS_def
  STRUCTURED_OUTPUT_OVERHEAD_TOKENS_def TOOLS_OVERHEAD_TOKENS_def MESSAGE_METADATA_OVERHEAD_TOKENS_def

section \<open>Exact tokenizers\<close>

definition KNOWN_TIKTOKEN_ENCODINGS :: "string list" where
  "KNOWN_TIKTOKEN_ENCODINGS = [''o200k_base'', ''o200k_harmony'', ''cl100k_base'', ''p50k_base'',
     ''p50k_edit'', ''r50k_base'', ''gpt2'']"

definition TIKTOKEN_MODEL_PREFIX_ENCODINGS :: "(string \<times> string) list" where
  "TIKTOKEN_MODEL_PREFIX_ENCODINGS =
     [(''gpt-5'', ''o200k_base''), (''gpt-4o'', ''o200k_base''), (''gpt-audio'', ''o200k_base''),
      (''chatgpt-4o'', ''o200k_base''), (''o1'', ''o200k_base''), (''o3'', ''o200k_base''),
      (''o4'', ''o200k_base''), (''gpt-4'', ''cl100k_base''), (''gpt-3.5'', ''cl100k_base'')]"

definition encoding_name_from_tokenizer_family :: "string option \<Rightarrow> string option" where
  "encoding_name_from_tokenizer_family tokenizer_family =
     (let family = py_lower (py_strip (case tokenizer_family of None \<Rightarrow> [] | Some f \<Rightarrow> f)) in
      if family = [] then None
      else if family \<in> set KNOWN_TIKTOKEN_ENCODINGS then Some family
      else if py_in ''o200k'' family then Some ''o200k_base''
      else if py_in ''cl100k'' family then Some ''cl100k_base''
      else if py_in ''p50k_edit'' family then Some ''p50k_edit''
      else if py_in ''p50k'' family \<or> py_in ''codex'' family then Some ''p50k_base''
      else if py_in ''r50k'' family \<or> family = ''gpt2'' then Some ''r50k_base''
      else None)"

text \<open>\<open>_MODEL_HINT_SUFFIX_RE.sub("", hint)\<close> on stripped text: a final \<open>:suffix\<close> of letters,
  digits, dots, underscores and hyphens goes.\<close>

definition suffix_char :: "char \<Rightarrow> bool" where
  "suffix_char c = (let n = code c in 65 \<le> n \<and> n \<le> 90 \<or> 97 \<le> n \<and> n \<le> 122 \<or> 48 \<le> n \<and> n \<le> 57
     \<or> c = CHR ''.'' \<or> c = CHR ''_'' \<or> c = CHR ''-'')"

definition strip_hint_suffix :: "string \<Rightarrow> string" where
  "strip_hint_suffix hint =
     (let suffix = takeWhile suffix_char (rev hint); rest = drop (length suffix) (rev hint) in
      case rest of c # cs \<Rightarrow> if suffix \<noteq> [] \<and> c = CHR '':'' then rev cs else hint | [] \<Rightarrow> hint)"

definition after_slash :: "string \<Rightarrow> string" where
  "after_slash s = drop 1 (dropWhile (\<lambda>c. c \<noteq> CHR ''/'') s)"

definition candidate_tiktoken_model_names :: "string \<Rightarrow> string list" where
  "candidate_tiktoken_model_names model_hint =
     (let hint = py_strip model_hint in
      if hint = [] then []
      else let sanitized = strip_hint_suffix hint in
        dedup_on (\<lambda>x. x) [] (filter (\<lambda>c. c \<noteq> []) (map py_strip
          [sanitized, if CHR ''/'' \<in> set sanitized then after_slash sanitized else []])))"

definition fallback_tiktoken_encoding_name :: "string \<Rightarrow> string option" where
  "fallback_tiktoken_encoding_name model_name =
     (let normalized = py_lower (py_strip model_name) in
      if normalized = [] then None
      else map_option snd (find (\<lambda>(prefix, _). py_startswith normalized prefix) TIKTOKEN_MODEL_PREFIX_ENCODINGS))"

fun first_some :: "('a \<Rightarrow> 'b option) \<Rightarrow> 'a list \<Rightarrow> 'b option" where
  "first_some f [] = None"
| "first_some f (x # xs) = (case f x of Some y \<Rightarrow> Some y | None \<Rightarrow> first_some f xs)"

definition resolve_tiktoken_encoding ::
  "tok_env \<Rightarrow> string option \<Rightarrow> string option \<Rightarrow> tokenizer option" where
  "resolve_tiktoken_encoding te tokenizer_family model_hint =
     (let from_family = (case encoding_name_from_tokenizer_family tokenizer_family of
            Some name \<Rightarrow> te_get_encoding te name | None \<Rightarrow> None);
          names = candidate_tiktoken_model_names (case model_hint of None \<Rightarrow> [] | Some h \<Rightarrow> h)
      in case first_some (te_encoding_for_model te) names of
           Some enc \<Rightarrow> Some enc
         | None \<Rightarrow> (case first_some fallback_tiktoken_encoding_name names of
               Some name \<Rightarrow> te_get_encoding te name
             | None \<Rightarrow> from_family))"

definition resolve_exact_tokenizer ::
  "tok_env \<Rightarrow> string option \<Rightarrow> string option \<Rightarrow> tokenizer option" where
  "resolve_exact_tokenizer te tokenizer_family model_hint =
     (case resolve_tiktoken_encoding te tokenizer_family model_hint of
        Some enc \<Rightarrow> Some enc
      | None \<Rightarrow> (case model_hint of
            Some hint \<Rightarrow> if hint \<noteq> [] then te_hf_cached te hint else None
          | None \<Rightarrow> None))"

definition exact_text_token_count ::
  "tok_env \<Rightarrow> string option \<Rightarrow> string option \<Rightarrow> string \<Rightarrow> int option" where
  "exact_text_token_count te tokenizer_family model_hint text =
     (case resolve_exact_tokenizer te tokenizer_family model_hint of
        None \<Rightarrow> None
      | Some enc \<Rightarrow> map_option (\<lambda>n. max (int n) 1) (enc text))"

section \<open>The heuristic count\<close>

datatype content_type = Prose | Code | Json

record profile =
  prose_bpt :: rat
  code_bpt :: rat
  json_bpt :: rat

definition HEURISTIC_DEFAULT_PROFILE :: profile where
  "HEURISTIC_DEFAULT_PROFILE = \<lparr>prose_bpt = 52 / 10, code_bpt = 255 / 100, json_bpt = 31 / 10\<rparr>"

definition HEURISTIC_PROFILES :: "(string \<times> profile) list" where
  "HEURISTIC_PROFILES =
     [(''gpt'', \<lparr>prose_bpt = 58 / 10, code_bpt = 27 / 10, json_bpt = 335 / 100\<rparr>),
      (''qwen'', \<lparr>prose_bpt = 535 / 100, code_bpt = 245 / 100, json_bpt = 305 / 100\<rparr>),
      (''deepseek'', \<lparr>prose_bpt = 54 / 10, code_bpt = 255 / 100, json_bpt = 31 / 10\<rparr>),
      (''mistral'', \<lparr>prose_bpt = 53 / 10, code_bpt = 255 / 100, json_bpt = 31 / 10\<rparr>),
      (''llama'', \<lparr>prose_bpt = 525 / 100, code_bpt = 25 / 10, json_bpt = 305 / 100\<rparr>),
      (''cohere'', \<lparr>prose_bpt = 51 / 10, code_bpt = 245 / 100, json_bpt = 30 / 10\<rparr>),
      (''claude'', HEURISTIC_DEFAULT_PROFILE),
      (''gemini'', \<lparr>prose_bpt = 515 / 100, code_bpt = 25 / 10, json_bpt = 305 / 100\<rparr>),
      (''grok'', \<lparr>prose_bpt = 515 / 100, code_bpt = 25 / 10, json_bpt = 305 / 100\<rparr>),
      (''nova'', \<lparr>prose_bpt = 515 / 100, code_bpt = 25 / 10, json_bpt = 305 / 100\<rparr>),
      (''router'', HEURISTIC_DEFAULT_PROFILE)]"

definition heuristic_profile :: "string option \<Rightarrow> profile" where
  "heuristic_profile tokenizer_family =
     (let family = py_lower (py_strip (case tokenizer_family of None \<Rightarrow> [] | Some f \<Rightarrow> f)) in
      if family = [] then HEURISTIC_DEFAULT_PROFILE
      else case find (\<lambda>(key, _). py_in key family) HEURISTIC_PROFILES of
             Some (_, profile) \<Rightarrow> profile | None \<Rightarrow> HEURISTIC_DEFAULT_PROFILE)"

definition json_like :: "string \<Rightarrow> bool" where
  "json_like s = (2 \<le> length s \<and> (hd s = CHR ''['' \<or> hd s = CHR ''{'')
     \<and> (last s = CHR '']'' \<or> last s = CHR ''}''))"

definition code_markers :: "string list" where
  "code_markers = [''def '', ''class '', ''return '', ''import '', ''from '', ''function '',
     ''const '', ''let '', ''var '', ''=>'', ''#include'', ''public '', ''private '', ''protected '',
     ''fn '', [CHR 0x60, CHR 0x60, CHR 0x60]]"

definition punctuation_count :: "string \<Rightarrow> nat" where
  "punctuation_count text = length (filter (\<lambda>c. \<not> chr_isalnum c \<and> \<not> chr_isspace c) text)"

definition detect_text_content_type :: "string \<Rightarrow> content_type" where
  "detect_text_content_type text =
     (let stripped = py_strip text in
      if stripped = [] then Prose
      else if json_like stripped then Json
      else
        let newline_count = length (filter (\<lambda>c. c = CHR 0x0A) text);
            marked = list_ex (\<lambda>marker. py_in marker (py_lower text)) code_markers;
            density = rat_of_nat (punctuation_count text) / rat_of_nat (max (length text) 1)
        in if newline_count \<ge> 2 \<and> (marked \<or> density \<ge> 12 / 100) then Code
           else if marked then Code
           else Prose)"

definition utf8_length :: "string \<Rightarrow> nat" where
  "utf8_length text = length text + length (filter (\<lambda>c. 128 \<le> code c) text)"

definition is_word_char :: "char \<Rightarrow> bool" where
  "is_word_char c = (chr_isalnum c \<or> c = CHR ''_'')"

text \<open>The number of maximal runs of word characters, \<open>len(re.findall(r"\w+", text))\<close>.\<close>

fun word_runs :: "bool \<Rightarrow> string \<Rightarrow> nat" where
  "word_runs inside [] = 0"
| "word_runs inside (c # cs) =
     (if is_word_char c then (if inside then 0 else 1) + word_runs True cs else word_runs False cs)"

definition word_count :: "string \<Rightarrow> nat" where
  "word_count text = word_runs False text"

fun bytes_per_token :: "profile \<Rightarrow> content_type \<Rightarrow> rat" where
  "bytes_per_token p Prose = prose_bpt p"
| "bytes_per_token p Code = code_bpt p"
| "bytes_per_token p Json = json_bpt p"

fun word_floor :: "content_type \<Rightarrow> rat" where
  "word_floor Prose = 75 / 100"
| "word_floor Code = 45 / 100"
| "word_floor Json = 55 / 100"

definition heuristic_text_token_count :: "string option \<Rightarrow> content_type option \<Rightarrow> string \<Rightarrow> int" where
  "heuristic_text_token_count tokenizer_family content_type text =
     (if text = [] then 0
      else
        let kind = (case content_type of Some k \<Rightarrow> k | None \<Rightarrow> detect_text_content_type text);
            bpt = bytes_per_token (heuristic_profile tokenizer_family) kind;
            token_count = max \<lceil>rat_of_nat (utf8_length text) / bpt\<rceil> 1;
            words = word_count text
        in if words > 0 then max token_count \<lceil>rat_of_nat words * word_floor kind\<rceil> else token_count)"

definition text_token_estimate :: "tok_env \<Rightarrow> string option \<Rightarrow> string option \<Rightarrow> string \<Rightarrow> int" where
  "text_token_estimate te tokenizer_family model_hint text =
     (if text = [] then 0
      else case exact_text_token_count te tokenizer_family model_hint text of
             Some n \<Rightarrow> n
           | None \<Rightarrow> heuristic_text_token_count tokenizer_family None text)"

definition json_token_estimate :: "tok_env \<Rightarrow> string option \<Rightarrow> string option \<Rightarrow> json \<Rightarrow> int" where
  "json_token_estimate te tokenizer_family model_hint v =
     text_token_estimate te tokenizer_family model_hint (json_dumps (te_repr te) v)"

section \<open>Messages and requests\<close>

definition part_type :: "tok_env \<Rightarrow> (string \<times> json) list \<Rightarrow> string" where
  "part_type te part = py_lower (py_str (te_repr te) (dict_get part ''type'' (JStr [])))"

definition is_image_obj :: "tok_env \<Rightarrow> (string \<times> json) list \<Rightarrow> bool" where
  "is_image_obj te part = (py_in ''image'' (part_type te part)
     \<or> map_of part ''image_url'' \<noteq> None \<or> map_of part ''input_image'' \<noteq> None)"

definition is_image_part :: "tok_env \<Rightarrow> json \<Rightarrow> bool" where
  "is_image_part te part = (case part of JObj kvs \<Rightarrow> is_image_obj te kvs | _ \<Rightarrow> False)"

text \<open>An object as content or as a part of it: an image, a text, or anything else as JSON.\<close>

definition object_tokens ::
  "tok_env \<Rightarrow> string option \<Rightarrow> string option \<Rightarrow> (string \<times> json) list \<Rightarrow> int" where
  "object_tokens te fam hint part =
     (if is_image_obj te part then IMAGE_TOKEN_COST
      else if part_type te part \<in> {''text'', ''input_text''}
      then text_token_estimate te fam hint (py_str (te_repr te) (dict_get part ''text'' (JStr [])))
      else json_token_estimate te fam hint (JObj part))"

definition part_tokens :: "tok_env \<Rightarrow> string option \<Rightarrow> string option \<Rightarrow> json \<Rightarrow> int" where
  "part_tokens te fam hint part =
     (case part of
        JObj kvs \<Rightarrow> object_tokens te fam hint kvs
      | _ \<Rightarrow> text_token_estimate te fam hint (py_str (te_repr te) part))"

definition estimate_message_content_tokens ::
  "tok_env \<Rightarrow> string option \<Rightarrow> string option \<Rightarrow> json \<Rightarrow> int" where
  "estimate_message_content_tokens te fam hint content =
     (case content of
        JNull \<Rightarrow> 0
      | JStr s \<Rightarrow> text_token_estimate te fam hint s
      | JList parts \<Rightarrow> sum_list (map (part_tokens te fam hint) parts)
      | JObj kvs \<Rightarrow> object_tokens te fam hint kvs
      | _ \<Rightarrow> text_token_estimate te fam hint (py_str (te_repr te) content))"

definition TEXT_MESSAGE_FIELDS :: "string list" where
  "TEXT_MESSAGE_FIELDS = [''name'', ''tool_call_id'', ''refusal'']"

definition JSON_MESSAGE_FIELDS :: "string list" where
  "JSON_MESSAGE_FIELDS = [''tool_calls'', ''function_call'', ''audio'']"

definition text_field_tokens ::
  "tok_env \<Rightarrow> string option \<Rightarrow> string option \<Rightarrow> (string \<times> json) list \<Rightarrow> string \<Rightarrow> int" where
  "text_field_tokens te fam hint message field =
     (if py_truthy (jget message field)
      then MESSAGE_METADATA_OVERHEAD_TOKENS
             + text_token_estimate te fam hint (py_str (te_repr te) (jget message field))
      else 0)"

definition json_field_tokens ::
  "tok_env \<Rightarrow> string option \<Rightarrow> string option \<Rightarrow> (string \<times> json) list \<Rightarrow> string \<Rightarrow> int" where
  "json_field_tokens te fam hint message field =
     (if jget message field \<noteq> JNull
      then MESSAGE_METADATA_OVERHEAD_TOKENS + json_token_estimate te fam hint (jget message field)
      else 0)"

definition estimate_message_tokens ::
  "tok_env \<Rightarrow> string option \<Rightarrow> string option \<Rightarrow> (string \<times> json) list \<Rightarrow> int" where
  "estimate_message_tokens te fam hint message =
     MESSAGE_OVERHEAD_TOKENS
     + estimate_message_content_tokens te fam hint (jget message ''content'')
     + sum_list (map (text_field_tokens te fam hint message) TEXT_MESSAGE_FIELDS)
     + sum_list (map (json_field_tokens te fam hint message) JSON_MESSAGE_FIELDS)"

text \<open>
  Iterating the \<open>messages\<close> of a request and calling \<open>.get\<close> on each: nothing for a falsy
  value, the objects of a list, an exception for anything else.
\<close>

definition chat_messages :: "json \<Rightarrow> py_error + (string \<times> json) list list" where
  "chat_messages messages =
     (if \<not> py_truthy messages then Inr []
      else case messages of
             JList xs \<Rightarrow> if list_all is_jobj xs then Inr (map (\<lambda>x. the (jobj x)) xs) else Inl AttributeError
           | JStr s \<Rightarrow> Inl AttributeError
           | JObj kvs \<Rightarrow> Inl AttributeError
           | _ \<Rightarrow> Inl TypeError)"

definition message_has_image :: "tok_env \<Rightarrow> (string \<times> json) list \<Rightarrow> bool" where
  "message_has_image te message =
     (case jget message ''content'' of
        JObj kvs \<Rightarrow> is_image_obj te kvs
      | JList parts \<Rightarrow> list_ex (is_image_part te) parts
      | _ \<Rightarrow> False)"

text \<open>The loop returns at the first image, so a later malformed message is not reached.\<close>

fun any_image :: "tok_env \<Rightarrow> json list \<Rightarrow> py_error + bool" where
  "any_image te [] = Inr False"
| "any_image te (JObj message # rest) = (if message_has_image te message then Inr True else any_image te rest)"
| "any_image te (x # rest) = Inl AttributeError"

definition request_contains_vision :: "tok_env \<Rightarrow> json \<Rightarrow> py_error + bool" where
  "request_contains_vision te messages =
     (if \<not> py_truthy messages then Inr False
      else case messages of
             JList xs \<Rightarrow> any_image te xs
           | JStr s \<Rightarrow> Inl AttributeError
           | JObj kvs \<Rightarrow> Inl AttributeError
           | _ \<Rightarrow> Inl TypeError)"

definition total_tokens ::
  "tok_env \<Rightarrow> string option \<Rightarrow> string option \<Rightarrow> json \<Rightarrow> json \<Rightarrow> (string \<times> json) list list \<Rightarrow> int" where
  "total_tokens te fam hint tools response_format messages =
     REQUEST_OVERHEAD_TOKENS
     + sum_list (map (estimate_message_tokens te fam hint) messages)
     + (if py_truthy tools then TOOLS_OVERHEAD_TOKENS + json_token_estimate te fam hint tools else 0)
     + (if py_truthy response_format
        then STRUCTURED_OUTPUT_OVERHEAD_TOKENS + json_token_estimate te fam hint response_format else 0)"

definition estimate_required_tokens ::
  "tok_env \<Rightarrow> json \<Rightarrow> json \<Rightarrow> json \<Rightarrow> rat \<Rightarrow> string option \<Rightarrow> string option \<Rightarrow> py_error + int" where
  "estimate_required_tokens te messages tools response_format safety_buffer tokenizer_family model_hint =
     (case chat_messages messages of
        Inl e \<Rightarrow> Inl e
      | Inr ms \<Rightarrow> Inr (max \<lceil>rat_of_int (total_tokens te tokenizer_family model_hint tools response_format ms)
                          * (1 + safety_buffer)\<rceil> 1))"

section \<open>Bounds\<close>

lemma find_in_set: "find P xs = Some x \<Longrightarrow> x \<in> set xs"
  by (induction xs) (auto split: if_splits)

lemma bytes_per_token_ge1: "1 \<le> bytes_per_token (heuristic_profile fam) kind"
proof -
  have all: "p \<in> snd ` set HEURISTIC_PROFILES \<Longrightarrow> 1 \<le> bytes_per_token p kind" for p
    by (cases kind) (auto simp: HEURISTIC_PROFILES_def HEURISTIC_DEFAULT_PROFILE_def)
  have dflt: "1 \<le> bytes_per_token HEURISTIC_DEFAULT_PROFILE kind"
    by (cases kind) (auto simp: HEURISTIC_DEFAULT_PROFILE_def)
  show ?thesis
    using all dflt find_in_set
    by (fastforce simp: heuristic_profile_def Let_def split: option.splits prod.splits)
qed

lemma word_runs_le: "word_runs b s \<le> length s"
  by (induction s arbitrary: b) (auto intro: le_SucI)

lemma word_floor_bounds: "0 < word_floor k" "word_floor k \<le> 1"
  by (cases k; simp)+

lemma ceiling_scaled_le:
  fixes c :: rat
  assumes "0 \<le> c" and "c \<le> 1"
  shows "\<lceil>rat_of_nat n * c\<rceil> \<le> int n"
proof -
  have "rat_of_nat n * c \<le> rat_of_nat n * 1" using assms by (intro mult_left_mono) auto
  then show ?thesis by (simp add: ceiling_le_iff)
qed

lemma heuristic_count_bounds:
  assumes "text \<noteq> []"
  shows "1 \<le> heuristic_text_token_count fam kind text"
    and "heuristic_text_token_count fam kind text \<le> int (utf8_length text)"
proof -
  define k where "k = (case kind of Some k \<Rightarrow> k | None \<Rightarrow> detect_text_content_type text)"
  define b where "b = bytes_per_token (heuristic_profile fam) k"
  have b: "1 \<le> b" unfolding b_def by (rule bytes_per_token_ge1)
  have len: "1 \<le> length text" using assms by (cases "text") auto
  have "\<lceil>rat_of_nat (utf8_length text) / b\<rceil> \<le> int (utf8_length text)"
    using ceiling_scaled_le [of "1 / b" "utf8_length text"] b by simp
  moreover have "\<lceil>rat_of_nat (word_count text) * word_floor k\<rceil> \<le> int (word_count text)"
    using word_floor_bounds [of k] by (intro ceiling_scaled_le) auto
  moreover have "word_count text \<le> utf8_length text"
    using word_runs_le [of False "text"] by (simp add: word_count_def utf8_length_def)
  moreover have "1 \<le> utf8_length text" using len by (simp add: utf8_length_def)
  ultimately show "1 \<le> heuristic_text_token_count fam kind text"
    and "heuristic_text_token_count fam kind text \<le> int (utf8_length text)"
    using assms unfolding heuristic_text_token_count_def k_def [symmetric]
    by (auto simp: Let_def b_def)
qed

lemma text_token_estimate_nonneg [simp]: "0 \<le> text_token_estimate te fam hint text"
  using heuristic_count_bounds(1) [of "text" fam None]
  by (auto simp: text_token_estimate_def exact_text_token_count_def split: option.splits)

lemma text_token_estimate_pos: "text \<noteq> [] \<Longrightarrow> 1 \<le> text_token_estimate te fam hint text"
  using heuristic_count_bounds(1) [of "text" fam None]
  by (auto simp: text_token_estimate_def exact_text_token_count_def split: option.splits)

lemma json_token_estimate_nonneg [simp]: "0 \<le> json_token_estimate te fam hint v"
  by (simp add: json_token_estimate_def)

lemma object_tokens_nonneg [simp]: "0 \<le> object_tokens te fam hint kvs"
  by (simp add: object_tokens_def token_costs)

lemma part_tokens_nonneg [simp]: "0 \<le> part_tokens te fam hint p"
  by (simp add: part_tokens_def split: json.split)

lemma content_tokens_nonneg [simp]: "0 \<le> estimate_message_content_tokens te fam hint c"
  by (auto simp: estimate_message_content_tokens_def split: json.split intro!: sum_list_nonneg)

lemma content_tokens_image:
  "message_has_image te m \<Longrightarrow> IMAGE_TOKEN_COST \<le> estimate_message_content_tokens te fam hint (jget m ''content'')"
proof (cases "jget m ''content''")
  case (JObj kvs)
  assume "message_has_image te m"
  with JObj show ?thesis
    by (simp add: message_has_image_def estimate_message_content_tokens_def object_tokens_def)
next
  case (JList parts)
  assume "message_has_image te m"
  with JList obtain kvs where kvs: "JObj kvs \<in> set parts" "is_image_obj te kvs"
    by (simp add: message_has_image_def is_image_part_def list_ex_iff) (metis (no_types, lifting) json.case json.exhaust)
  then have "IMAGE_TOKEN_COST \<in> set (map (part_tokens te fam hint) parts)"
    by (force simp: part_tokens_def object_tokens_def image_iff)
  then have "IMAGE_TOKEN_COST \<le> sum_list (map (part_tokens te fam hint) parts)"
    by (rule member_le_sum_list) auto
  with JList show ?thesis by (simp add: estimate_message_content_tokens_def)
qed (auto simp: message_has_image_def)

lemma field_tokens_nonneg [simp]:
  "0 \<le> text_field_tokens te fam hint m f" "0 \<le> json_field_tokens te fam hint m f"
  by (simp_all add: text_field_tokens_def json_field_tokens_def token_costs)

lemma estimate_message_tokens_ge:
  "MESSAGE_OVERHEAD_TOKENS + (if message_has_image te m then IMAGE_TOKEN_COST else 0)
   \<le> estimate_message_tokens te fam hint m"
proof -
  have "0 \<le> sum_list (map (text_field_tokens te fam hint m) TEXT_MESSAGE_FIELDS)"
    and "0 \<le> sum_list (map (json_field_tokens te fam hint m) JSON_MESSAGE_FIELDS)"
    by (auto intro!: sum_list_nonneg)
  then show ?thesis
    using content_tokens_image [of te m fam hint]
    by (auto simp: estimate_message_tokens_def)
qed

lemma messages_tokens_ge:
  "MESSAGE_OVERHEAD_TOKENS * int (length ms)
     + IMAGE_TOKEN_COST * int (length (filter (message_has_image te) ms))
   \<le> sum_list (map (estimate_message_tokens te fam hint) ms)"
proof (induction ms)
  case (Cons m ms)
  then show ?case
    using estimate_message_tokens_ge [of te m fam hint] by (auto simp: algebra_simps)
qed simp

lemma total_tokens_ge:
  "REQUEST_OVERHEAD_TOKENS + MESSAGE_OVERHEAD_TOKENS * int (length ms)
     + IMAGE_TOKEN_COST * int (length (filter (message_has_image te) ms))
   \<le> total_tokens te fam hint tools fmt ms"
proof -
  have "0 \<le> (if py_truthy tools then TOOLS_OVERHEAD_TOKENS + json_token_estimate te fam hint tools else 0)"
    and "0 \<le> (if py_truthy fmt then STRUCTURED_OUTPUT_OVERHEAD_TOKENS
                 + json_token_estimate te fam hint fmt else 0)"
    by (simp_all add: token_costs)
  with messages_tokens_ge [of ms te fam hint] show ?thesis
    unfolding total_tokens_def by linarith
qed

lemma total_tokens_append:
  "total_tokens te fam hint tools fmt ms \<le> total_tokens te fam hint tools fmt (ms @ ms')"
proof -
  have "0 \<le> sum_list (map (estimate_message_tokens te fam hint) ms')"
    using messages_tokens_ge [of ms' te fam hint] by (simp add: token_costs)
  then show ?thesis by (simp add: total_tokens_def)
qed

lemma scaled_ceiling_ge:
  fixes b :: rat
  assumes "0 \<le> b" and "0 \<le> n"
  shows "n \<le> max \<lceil>rat_of_int n * (1 + b)\<rceil> 1"
proof -
  have "rat_of_int n * 1 \<le> rat_of_int n * (1 + b)" using assms by (intro mult_left_mono) auto
  then have "n \<le> \<lceil>rat_of_int n * (1 + b)\<rceil>" by (simp add: le_ceiling_iff)
  then show ?thesis by simp
qed

lemma any_image_iff:
  "any_image te (map JObj ms) = Inr (list_ex (message_has_image te) ms)"
  by (induction ms) auto

lemma chat_messages_Inr:
  "chat_messages messages = Inr ms \<Longrightarrow> (\<not> py_truthy messages \<and> ms = []) \<or> (messages = JList (map JObj ms))"
proof -
  have objs: "list_all is_jobj xs \<Longrightarrow> xs = map JObj (map (\<lambda>x. the (jobj x)) xs)" for xs
    by (induction xs) (auto elim: is_jobj.elims)
  show "chat_messages messages = Inr ms \<Longrightarrow> ?thesis"
    using objs by (cases messages) (auto simp: chat_messages_def split: if_splits)
qed

section \<open>Properties\<close>

text \<open>
  A request that can be sized is never sized below what its shape costs: with a
  safety buffer that is not negative the estimate is at least the request overhead, six
  tokens for each message and 256 for each message that carries an image, for every tokenizer.
\<close>

theorem estimate_covers_shape:
  assumes "chat_messages messages = Inr ms"
    and "estimate_required_tokens te messages tools fmt buffer fam hint = Inr n"
    and "0 \<le> buffer"
  shows "16 + 6 * int (length ms) + 256 * int (length (filter (message_has_image te) ms)) \<le> n"
proof -
  let ?t = "total_tokens te fam hint tools fmt ms"
  have t: "16 + 6 * int (length ms) + 256 * int (length (filter (message_has_image te) ms)) \<le> ?t"
    using total_tokens_ge [of ms te fam hint tools fmt] by (simp add: token_costs)
  have "n = max \<lceil>rat_of_int ?t * (1 + buffer)\<rceil> 1"
    using assms(1,2) by (simp add: estimate_required_tokens_def)
  moreover have "?t \<le> max \<lceil>rat_of_int ?t * (1 + buffer)\<rceil> 1"
    using t assms(3) by (intro scaled_ceiling_ge) auto
  ultimately show ?thesis using t by linarith
qed

theorem estimate_covers_shape_witness:
  "\<exists>n. estimate_required_tokens no_tokenizers
       (JList [JObj [(''content'', JList [JObj [(''image_url'', JStr ''u'')]])]]) JNull JNull (15 / 100) None None
     = Inr n \<and> 16 + 6 * int 1 + 256 * int 1 \<le> n"
proof -
  let ?ms = "[[(''content'', JList [JObj [(''image_url'', JStr ''u'')]])]]"
  have m: "chat_messages (JList (map JObj ?ms)) = Inr ?ms" by (simp add: chat_messages_def)
  have img: "filter (message_has_image no_tokenizers) ?ms = ?ms"
    by (simp add: message_has_image_def jget_def dict_get_def is_image_part_def is_image_obj_def)
  obtain n where n: "estimate_required_tokens no_tokenizers (JList (map JObj ?ms)) JNull JNull (15 / 100) None None = Inr n"
    using m by (simp add: estimate_required_tokens_def)
  from estimate_covers_shape [OF m n] img n show ?thesis by auto
qed

text \<open>
  The heuristic count of a text that is not empty lies between one and the number
  of its UTF-8 bytes, for every family profile and every kind of content.
\<close>

theorem heuristic_count_within_bytes:
  "text \<noteq> [] \<longrightarrow> 1 \<le> heuristic_text_token_count fam kind text
     \<and> heuristic_text_token_count fam kind text \<le> int (utf8_length text)"
  using heuristic_count_bounds [of "text" fam kind] by blast

theorem heuristic_count_within_bytes_witness:
  "1 \<le> heuristic_text_token_count None (Some Prose) ''hello world''
     \<and> heuristic_text_token_count None (Some Prose) ''hello world'' \<le> int (utf8_length ''hello world'')"
  using heuristic_count_within_bytes [of "''hello world''" None "Some Prose"] by simp

end
