(* ===== verification/FL_Routing.thy ===== *)
theory FL_Routing
  imports FL_Tables FL_Tokens
begin

text \<open>
  Candidate selection of \<open>src/routing.py\<close>: the hard filter over the \<open>models\<close> table, the
  context check by token estimate, the preference score, explicit model requests, the
  reserved slot of the fallback model and the cut to the attempt limit. The requested model
  is the client's JSON value as it stands.
\<close>

record routing_preferences =
  rp_preference :: string
  rp_max_latency_ms :: "int option"
  rp_min_context_tokens :: "int option"

record routing_requirements =
  rr_requested_model :: json
  rr_requires_tools :: bool
  rr_requires_vision :: bool
  rr_requires_streaming :: bool
  rr_requires_structured_output :: bool
  rr_requires_system_messages :: bool
  rr_min_context_window :: int
  rr_min_output_tokens :: int
  rr_token_messages :: json
  rr_token_tools :: json
  rr_token_response_format :: json
  rr_safety_buffer :: rat

datatype routing_error = NoHealthyModels | RoutingCrash py_error

record candidate =
  c_id :: model_id
  c_provider_id :: provider_id
  c_provider_model_id :: string
  c_composite_score :: rat
  c_avg_latency_ms :: rat
  c_avg_ttfb_ms :: rat
  c_context_window :: int
  c_consecutive_failures :: int
  c_backoff_level :: int
  c_tokenizer_family :: "string option"

record pick =
  p_id :: model_id
  p_provider_id :: provider_id
  p_provider_model_id :: string

definition or_zero :: "'a option \<Rightarrow> 'a::zero" where
  "or_zero x = (case x of None \<Rightarrow> 0 | Some y \<Rightarrow> y)"

definition serialize_candidate :: "model_row \<Rightarrow> candidate" where
  "serialize_candidate m =
     \<lparr>c_id = m_id m, c_provider_id = m_provider_id m, c_provider_model_id = m_provider_model_id m,
      c_composite_score = m_composite_score m,
      c_avg_latency_ms = or_zero (m_avg_latency_ms m), c_avg_ttfb_ms = or_zero (m_avg_ttfb_ms m),
      c_context_window = or_zero (m_context_window m),
      c_consecutive_failures = m_consecutive_failures m, c_backoff_level = m_backoff_level m,
      c_tokenizer_family = m_tokenizer_family m\<rparr>"

text \<open>The \<open>WHERE\<close> clause; a comparison with NULL does not hold.\<close>

definition eligible :: "timestamp \<Rightarrow> routing_requirements \<Rightarrow> model_row \<Rightarrow> bool" where
  "eligible now req m =
     (m_is_active m \<and> m_is_healthy m
      \<and> (case m_cooldown_until m of None \<Rightarrow> True | Some c \<Rightarrow> c < now)
      \<and> (rr_requires_tools req \<longrightarrow> m_supports_tools m)
      \<and> (rr_requires_vision req \<longrightarrow> m_supports_vision m)
      \<and> (rr_requires_streaming req \<longrightarrow> m_supports_streaming m)
      \<and> (rr_requires_structured_output req \<longrightarrow> m_supports_structured_output m)
      \<and> (rr_requires_system_messages req \<longrightarrow> m_supports_system_messages m)
      \<and> (case m_context_window m of None \<Rightarrow> False | Some w \<Rightarrow> rr_min_context_window req \<le> w)
      \<and> (case m_max_output_tokens m of None \<Rightarrow> True | Some k \<Rightarrow> rr_min_output_tokens req \<le> k))"

text \<open>
  The two bounds are parameters of the query: SQLite's integers have 64 bits and the driver raises
  for a wider one, before any row is read.
\<close>

definition query_bindable :: "routing_requirements \<Rightarrow> bool" where
  "query_bindable req = (bindable (JInt (rr_min_context_window req)) \<and> bindable (JInt (rr_min_output_tokens req)))"

definition load_eligible_candidates ::
  "tables \<Rightarrow> timestamp \<Rightarrow> routing_requirements \<Rightarrow> py_error + candidate list" where
  "load_eligible_candidates t now req =
     (if \<not> query_bindable req then Inl OverflowError
      else Inr (map serialize_candidate (sort_desc m_composite_score (filter (eligible now req) (t_models t)))))"

fun json_is_str :: "json \<Rightarrow> string \<Rightarrow> bool" where
  "json_is_str (JStr s) x = (s = x)"
| "json_is_str _ x = False"

definition named :: "json \<Rightarrow> candidate \<Rightarrow> bool" where
  "named v c = (json_is_str v (c_id c) \<or> json_is_str v (c_provider_model_id c))"

definition match_explicit_model :: "candidate list \<Rightarrow> json \<Rightarrow> py_error + candidate list" where
  "match_explicit_model candidates requested_model =
     (let exact = filter (named requested_model) candidates in
      if exact \<noteq> [] then Inr exact
      else case requested_model of
             JStr s \<Rightarrow> if py_endswith s '':free''
                         then Inr (filter (named (JStr (py_removesuffix s '':free''))) candidates)
                         else Inr []
           | _ \<Rightarrow> Inl AttributeError)"

text \<open>The tokens a candidate must hold.\<close>

definition required_tokens :: "tok_env \<Rightarrow> routing_requirements \<Rightarrow> candidate \<Rightarrow> py_error + int" where
  "required_tokens te req c =
     (case estimate_required_tokens te (rr_token_messages req) (rr_token_tools req)
             (rr_token_response_format req) (rr_safety_buffer req)
             (Some (case c_tokenizer_family c of None \<Rightarrow> [] | Some f \<Rightarrow> f)) (Some (c_provider_model_id c)) of
        Inl e \<Rightarrow> Inl e
      | Inr n \<Rightarrow> Inr (max (rr_min_context_window req) n))"

fun keep_fitting :: "tok_env \<Rightarrow> routing_requirements \<Rightarrow> candidate list \<Rightarrow> py_error + candidate list" where
  "keep_fitting te req [] = Inr []"
| "keep_fitting te req (c # cs) =
     (case required_tokens te req c of
        Inl e \<Rightarrow> Inl e
      | Inr n \<Rightarrow> (case keep_fitting te req cs of
            Inl e \<Rightarrow> Inl e
          | Inr rest \<Rightarrow> Inr (if n \<le> c_context_window c then c # rest else rest)))"

definition filter_candidates_by_tokenizer_estimate ::
  "tok_env \<Rightarrow> candidate list \<Rightarrow> routing_requirements \<Rightarrow> py_error + candidate list" where
  "filter_candidates_by_tokenizer_estimate te candidates req =
     (if rr_token_messages req = JNull then Inr candidates else keep_fitting te req candidates)"

section \<open>Preference\<close>

definition latency_of :: "candidate \<Rightarrow> rat" where
  "latency_of c = (if c_avg_ttfb_ms c \<noteq> 0 then c_avg_ttfb_ms c
     else if c_avg_latency_ms c \<noteq> 0 then c_avg_latency_ms c else 999999)"

definition preference_bonus :: "candidate \<Rightarrow> routing_preferences \<Rightarrow> rat" where
  "preference_bonus c prefs =
     (let latency_ms = latency_of c;
          context_window = rat_of_int (c_context_window c);
          reliability = rat_of_int (c_consecutive_failures c + c_backoff_level c);
          b1 = (case rp_max_latency_ms prefs of
                  Some l \<Rightarrow> if rat_of_int l < latency_ms then - 25 else 0 | None \<Rightarrow> 0);
          b2 = (case rp_min_context_tokens prefs of
                  Some k \<Rightarrow> if rat_of_int k \<le> context_window then 10 else 0 | None \<Rightarrow> 0);
          b3 = (if rp_preference prefs = ''quality'' then c_composite_score c * (20 / 100)
                else if rp_preference prefs = ''latency'' then max 0 (5000 - latency_ms) / 100
                else if rp_preference prefs = ''context'' then context_window / 1000
                else if rp_preference prefs = ''reliability''
                     then - (reliability * 15) + max 0 (5000 - latency_ms) / 500
                else max 0 (5000 - latency_ms) / 500 + context_window / 10000 - reliability * 2)
      in b1 + b2 + b3)"

definition preference_score :: "routing_preferences option \<Rightarrow> candidate \<Rightarrow> rat \<times> rat \<times> rat \<times> rat" where
  "preference_score preferences c =
     (case preferences of
        None \<Rightarrow> (c_composite_score c, 0, 0, 0)
      | Some prefs \<Rightarrow> (c_composite_score c + preference_bonus c prefs, c_composite_score c,
                       - latency_of c, rat_of_int (c_context_window c)))"

section \<open>Selection\<close>

definition effective_requirements ::
  "routing_requirements \<Rightarrow> routing_preferences option \<Rightarrow> routing_requirements" where
  "effective_requirements req preferences =
     (case preferences of
        None \<Rightarrow> req
      | Some prefs \<Rightarrow> (case rp_min_context_tokens prefs of
            None \<Rightarrow> req
          | Some k \<Rightarrow> req\<lparr>rr_min_context_window := max (rr_min_context_window req) k\<rparr>))"

definition order_candidates ::
  "routing_preferences option \<Rightarrow> json \<Rightarrow> candidate list \<Rightarrow> py_error + candidate list" where
  "order_candidates preferences requested_model candidates =
     (let by_score = sort_desc (preference_score preferences) candidates in
      if requested_model = JStr ''auto'' then Inr by_score
      else case match_explicit_model candidates requested_model of
             Inl e \<Rightarrow> Inl e
           | Inr explicit \<Rightarrow>
               if explicit \<noteq> []
               then Inr (explicit @ filter (\<lambda>c. c_id c \<notin> c_id ` set explicit) candidates)
               else Inr by_score)"

definition insert_fallback :: "string \<Rightarrow> int \<Rightarrow> candidate list \<Rightarrow> candidate list \<Rightarrow> candidate list" where
  "insert_fallback fallback_model_id limit candidates ordered =
     (if fallback_model_id = [] then ordered
      else case find (\<lambda>c. c_id c = fallback_model_id) candidates of
             None \<Rightarrow> ordered
           | Some fallback \<Rightarrow>
               if list_all (\<lambda>c. c_id c \<noteq> fallback_model_id) (py_prefix limit ordered)
               then py_prefix (max (limit - 1) 0) ordered @ [fallback]
                      @ py_suffix_from (max (limit - 1) 0) ordered
               else ordered)"

definition pick_of :: "candidate \<Rightarrow> pick" where
  "pick_of c = \<lparr>p_id = c_id c, p_provider_id = c_provider_id c, p_provider_model_id = c_provider_model_id c\<rparr>"

definition pick_candidates ::
  "tables \<Rightarrow> timestamp \<Rightarrow> tok_env \<Rightarrow> routing_requirements \<Rightarrow> routing_preferences option
   \<Rightarrow> string \<Rightarrow> int \<Rightarrow> routing_error + pick list" where
  "pick_candidates t now te req preferences fallback_model_id limit =
     (let effective_req = effective_requirements req preferences in
      case sbind (load_eligible_candidates t now effective_req)
             (\<lambda>loaded. filter_candidates_by_tokenizer_estimate te loaded effective_req) of
        Inl e \<Rightarrow> Inl (RoutingCrash e)
      | Inr candidates \<Rightarrow>
          if candidates = [] then Inl NoHealthyModels
          else case order_candidates preferences
                      (py_or (rr_requested_model effective_req) (JStr ''auto'')) candidates of
                 Inl e \<Rightarrow> Inl (RoutingCrash e)
               | Inr ordered \<Rightarrow>
                   Inr (map pick_of (py_prefix limit
                     (insert_fallback fallback_model_id limit candidates ordered))))"

section \<open>The pool of candidates\<close>

definition candidate_pool ::
  "tables \<Rightarrow> timestamp \<Rightarrow> tok_env \<Rightarrow> routing_requirements \<Rightarrow> py_error + candidate list" where
  "candidate_pool t now te req =
     sbind (load_eligible_candidates t now req) (\<lambda>loaded. filter_candidates_by_tokenizer_estimate te loaded req)"

text \<open>The estimate, when there is something to estimate, fits the candidate's window.\<close>

definition fits :: "tok_env \<Rightarrow> routing_requirements \<Rightarrow> candidate \<Rightarrow> bool" where
  "fits te req c = (rr_token_messages req = JNull
     \<or> (case required_tokens te req c of Inl e \<Rightarrow> False | Inr n \<Rightarrow> n \<le> c_context_window c))"

lemma keep_fitting_filter:
  "keep_fitting te req cs = Inr ds \<Longrightarrow> rr_token_messages req \<noteq> JNull \<Longrightarrow> ds = filter (fits te req) cs"
  by (induction cs arbitrary: ds) (auto simp: fits_def split: sum.splits if_splits)

lemma set_load_eligible:
  "load_eligible_candidates t now req = Inr ls \<Longrightarrow>
   set ls = serialize_candidate ` {m \<in> set (t_models t). eligible now req m}"
  by (auto simp: load_eligible_candidates_def split: if_splits)

lemma candidate_pool_eq:
  assumes "candidate_pool t now te req = Inr cs"
  obtains ls where "load_eligible_candidates t now req = Inr ls" "cs = filter (fits te req) ls"
proof -
  from assms obtain ls where ls: "load_eligible_candidates t now req = Inr ls"
    "filter_candidates_by_tokenizer_estimate te ls req = Inr cs"
    by (auto simp: candidate_pool_def sbind_Inr)
  from ls(2) have "cs = filter (fits te req) ls"
    by (cases "rr_token_messages req = JNull")
      (auto simp: filter_candidates_by_tokenizer_estimate_def fits_def dest: keep_fitting_filter)
  with ls(1) that show ?thesis by blast
qed

lemma set_candidate_pool:
  "candidate_pool t now te req = Inr cs \<Longrightarrow>
   set cs = {c \<in> serialize_candidate ` {m \<in> set (t_models t). eligible now req m}. fits te req c}"
  by (erule candidate_pool_eq) (auto simp: set_load_eligible)

lemma map_id_load_eligible:
  "load_eligible_candidates t now req = Inr ls \<Longrightarrow>
   map c_id ls = map m_id (sort_desc m_composite_score (filter (eligible now req) (t_models t)))"
  by (auto simp: load_eligible_candidates_def serialize_candidate_def split: if_splits)

text \<open>The estimate is computed and does not fit.\<close>

definition estimate_exceeds :: "tok_env \<Rightarrow> routing_requirements \<Rightarrow> candidate \<Rightarrow> bool" where
  "estimate_exceeds te req c = (rr_token_messages req \<noteq> JNull
     \<and> (case required_tokens te req c of Inl e \<Rightarrow> False | Inr n \<Rightarrow> c_context_window c < n))"

lemma keep_fitting_Nil_iff:
  "rr_token_messages req \<noteq> JNull \<Longrightarrow>
   keep_fitting te req cs = Inr [] \<longleftrightarrow> (\<forall>c \<in> set cs. estimate_exceeds te req c)"
proof (induction cs)
  case (Cons c cs)
  then show ?case
    by (cases "required_tokens te req c"; cases "keep_fitting te req cs") (auto simp: estimate_exceeds_def)
qed simp

lemma empty_pool_iff:
  "candidate_pool t now te req = Inr [] \<longleftrightarrow> query_bindable req
     \<and> (\<forall>m \<in> set (t_models t). eligible now req m \<longrightarrow> estimate_exceeds te req (serialize_candidate m))"
proof (cases "load_eligible_candidates t now req")
  case (Inl e)
  then show ?thesis by (auto simp: candidate_pool_def load_eligible_candidates_def split: if_splits)
next
  case (Inr ls)
  then have "query_bindable req" by (auto simp: load_eligible_candidates_def split: if_splits)
  moreover have "filter_candidates_by_tokenizer_estimate te ls req = Inr [] \<longleftrightarrow> (\<forall>c \<in> set ls. estimate_exceeds te req c)"
  proof (cases "rr_token_messages req = JNull")
    case True
    then show ?thesis by (cases ls) (auto simp: filter_candidates_by_tokenizer_estimate_def estimate_exceeds_def)
  next
    case False
    then show ?thesis by (simp add: filter_candidates_by_tokenizer_estimate_def keep_fitting_Nil_iff)
  qed
  ultimately show ?thesis by (auto simp: candidate_pool_def Inr set_load_eligible [OF Inr])
qed

lemma distinct_candidate_pool:
  assumes "wf_tables t" and "candidate_pool t now te req = Inr cs"
  shows "distinct (map c_id cs)"
proof -
  obtain ls where ls: "load_eligible_candidates t now req = Inr ls" "cs = filter (fits te req) ls"
    using assms(2) by (rule candidate_pool_eq)
  have "distinct (map m_id (filter (eligible now req) (t_models t)))"
    using assms(1) by (simp add: wf_tables_def distinct_map_filter)
  then have "distinct (map c_id ls)" by (simp add: map_id_load_eligible [OF ls(1)])
  with ls(2) show ?thesis by (simp add: distinct_map_filter)
qed

section \<open>Ordering and the reserved slot\<close>

lemma match_explicit_subset:
  "match_explicit_model cs v = Inr es \<Longrightarrow> set es \<subseteq> set cs"
  by (auto simp: match_explicit_model_def Let_def split: if_splits json.splits)

lemma match_explicit_filter:
  assumes "match_explicit_model cs v = Inr es"
  shows "\<exists>P. es = filter P cs"
proof (cases "filter (named v) cs = []")
  case False
  with assms show ?thesis by (auto simp: match_explicit_model_def Let_def)
next
  case True
  have "\<exists>P. [] = filter P cs" by (rule exI [of _ "\<lambda>_. False"]) simp
  with assms True show ?thesis
    by (cases v) (auto simp: match_explicit_model_def Let_def split: if_splits)
qed

lemma order_candidates_set:
  assumes "order_candidates prefs v cs = Inr os" and "distinct (map c_id cs)"
  shows "set os = set cs \<and> distinct (map c_id os)"
proof (cases "\<exists>es. match_explicit_model cs v = Inr es \<and> es \<noteq> [] \<and> v \<noteq> JStr ''auto''")
  case False
  with assms have "os = sort_desc (preference_score prefs) cs"
    by (auto simp: order_candidates_def Let_def split: if_splits sum.splits)
  with assms(2) show ?thesis by simp
next
  case True
  then obtain es where es: "match_explicit_model cs v = Inr es" "es \<noteq> []" "v \<noteq> JStr ''auto''" by blast
  from match_explicit_filter [OF es(1)] obtain P where P: "es = filter P cs" by blast
  from assms(1) es have os: "os = es @ filter (\<lambda>c. c_id c \<notin> c_id ` set es) cs"
    by (auto simp: order_candidates_def Let_def)
  have "c \<in> set es" if "c \<in> set cs" "c_id c \<in> c_id ` set es" for c
    using that assms(2) P by (auto simp: distinct_map inj_on_def)
  then have "set os = set cs" unfolding os P by auto
  moreover have "distinct (map c_id os)"
    unfolding os using assms(2) by (auto simp: distinct_map_filter P) (metis (mono_tags, lifting) image_eqI mem_Collect_eq)
  ultimately show ?thesis by blast
qed

lemma order_candidates_subset:
  "order_candidates prefs v cs = Inr os \<Longrightarrow> set os \<subseteq> set cs"
  by (auto simp: order_candidates_def Let_def split: if_splits sum.splits dest!: match_explicit_subset)

lemma insert_fallback_subset:
  "set (insert_fallback fb limit cs os) \<subseteq> set os \<union> set cs"
  by (auto simp: insert_fallback_def py_suffix_from_def split: option.splits
      dest: set_py_prefix find_in_set in_set_dropD)

text \<open>The cut list: the cut order itself, or the fallback after its first entries.\<close>

lemma limited_cases:
  assumes "set os = set cs"
  obtains (same) "py_prefix limit (insert_fallback fb limit cs os) = py_prefix limit os"
      "fb \<noteq> [] \<and> fb \<in> c_id ` set cs \<Longrightarrow> fb \<in> c_id ` set (py_prefix limit os)"
  | (added) f where "f \<in> set cs" "c_id f = fb" "fb \<notin> c_id ` set (py_prefix limit os)"
      "1 \<le> limit" "py_prefix limit (insert_fallback fb limit cs os) = take (nat (limit - 1)) os @ [f]"
      "limit \<le> int (length os)"
  | (nonpos) "limit \<le> 0" "\<exists>f. c_id f = fb \<and> fb \<notin> c_id ` set (py_prefix limit os) \<and>
      (py_prefix limit (insert_fallback fb limit cs os) = [] \<or>
       py_prefix limit (insert_fallback fb limit cs os) = f # py_prefix limit os)"
proof (cases "fb = [] \<or> find (\<lambda>c. c_id c = fb) cs = None
    \<or> \<not> list_all (\<lambda>c. c_id c \<noteq> fb) (py_prefix limit os)")
  case True
  then have "insert_fallback fb limit cs os = os"
    by (auto simp: insert_fallback_def split: option.splits)
  moreover have "fb \<in> c_id ` set (py_prefix limit os)" if "fb \<noteq> [] \<and> fb \<in> c_id ` set cs"
    using True that by (auto simp: find_None_iff list_all_iff intro: rev_image_eqI)
  ultimately show ?thesis using same by simp
next
  case False
  then obtain f where f: "find (\<lambda>c. c_id c = fb) cs = Some f" by auto
  then have fid: "c_id f = fb" and fin: "f \<in> set cs" by (auto simp: find_Some_iff)
  from False have fresh: "fb \<notin> c_id ` set (py_prefix limit os)" by (auto simp: list_all_iff)
  from False f have ins: "insert_fallback fb limit cs os =
      take (nat (max (limit - 1) 0)) os @ [f] @ drop (nat (max (limit - 1) 0)) os"
    by (simp add: insert_fallback_def py_prefix_nonneg py_suffix_from_def)
  show ?thesis
  proof (cases "1 \<le> limit")
    case True
    have "limit \<le> int (length os)"
    proof (rule ccontr)
      assume "\<not> ?thesis"
      then have "py_prefix limit os = os" using True by (simp add: py_prefix_def)
      with fresh fid fin assms show False by auto
    qed
    moreover from this True have "py_prefix limit (insert_fallback fb limit cs os)
        = take (nat (limit - 1)) os @ [f]"
      unfolding ins by (simp add: py_prefix_def min_def nat_diff_distrib) linarith
    ultimately show ?thesis using added fin fid fresh True by blast
  next
    case False
    have shift: "nat (1 + x) - Suc 0 = nat x" for x :: int by arith
    from False have "py_prefix limit (insert_fallback fb limit cs os) = [] \<or>
        py_prefix limit (insert_fallback fb limit cs os) = f # py_prefix limit os"
      unfolding ins by (auto simp: py_prefix_def take_Cons' algebra_simps shift)
    with False fid fresh show ?thesis by (intro nonpos) auto
  qed
qed

lemma pick_of_sels [simp]:
  "p_id (pick_of c) = c_id c" "p_provider_id (pick_of c) = c_provider_id c"
  "p_provider_model_id (pick_of c) = c_provider_model_id c"
  by (simp_all add: pick_of_def)

lemma map_p_id_pick_of [simp]: "map p_id (map pick_of cs) = map c_id cs"
  by simp

lemma pick_candidates_Inr:
  assumes "pick_candidates t now te req prefs fb limit = Inr ps"
  obtains cs os where
    "candidate_pool t now te (effective_requirements req prefs) = Inr cs" "cs \<noteq> []"
    "order_candidates prefs (py_or (rr_requested_model (effective_requirements req prefs)) (JStr ''auto'')) cs = Inr os"
    "ps = map pick_of (py_prefix limit (insert_fallback fb limit cs os))"
  using assms
  by (auto simp: pick_candidates_def candidate_pool_def Let_def split: sum.splits if_splits)

lemma effective_requested_model [simp]:
  "rr_requested_model (effective_requirements req prefs) = rr_requested_model req"
  by (simp add: effective_requirements_def split: option.split)

section \<open>Properties\<close>

lemma pick_row:
  assumes "pick_candidates t now te req prefs fb limit = Inr ps" and "p \<in> set ps"
  shows "\<exists>m \<in> set (t_models t). p = pick_of (serialize_candidate m)
    \<and> eligible now (effective_requirements req prefs) m
    \<and> fits te (effective_requirements req prefs) (serialize_candidate m)"
proof -
  from assms(1) obtain cs os where
    cs: "candidate_pool t now te (effective_requirements req prefs) = Inr cs"
    and os: "order_candidates prefs (py_or (rr_requested_model (effective_requirements req prefs)) (JStr ''auto'')) cs = Inr os"
    and ps: "ps = map pick_of (py_prefix limit (insert_fallback fb limit cs os))"
    by (rule pick_candidates_Inr)
  from assms(2) ps obtain c where c: "p = pick_of c" "c \<in> set (insert_fallback fb limit cs os)"
    by (auto dest: set_py_prefix)
  then have "c \<in> set cs" using insert_fallback_subset order_candidates_subset [OF os] by blast
  with set_candidate_pool [OF cs] c(1) show ?thesis by auto
qed

text \<open>
  C5 (safety). Every model handed to the failover loop is a row of the table that is active,
  healthy, out of cooldown and has every capability, context window and output capacity the
  request asks for, and the token estimate for that very model fits its context window.
\<close>

theorem picks_are_eligible:
  assumes "pick_candidates t now te req prefs fb limit = Inr ps" and "p \<in> set ps"
  shows "\<exists>m \<in> set (t_models t). p = pick_of (serialize_candidate m)
    \<and> eligible now (effective_requirements req prefs) m
    \<and> fits te (effective_requirements req prefs) (serialize_candidate m)"
  using assms by (rule pick_row)

definition example_model :: "model_id \<Rightarrow> rat \<Rightarrow> model_row" where
  "example_model i score =
     \<lparr>m_id = i, m_name = i, m_provider_id = ''openrouter'', m_endpoint_id = None,
      m_provider_model_id = i, m_provider_base_url = ''https://openrouter.ai/api/v1'',
      m_provider_api_key_env = ''OPENROUTER_API_KEY'', m_provider_options_json = None,
      m_context_window = Some 8192, m_max_output_tokens = None, m_tokenizer_family = None,
      m_supports_tools = True, m_supports_streaming = True, m_supports_vision = True,
      m_supports_structured_output = False, m_supports_system_messages = True,
      m_chatbot_arena_elo = None, m_open_llm_score = None, m_provider_rank = Some 1,
      m_openrouter_rank = Some 1, m_is_healthy = True, m_last_health_check = None,
      m_avg_latency_ms = None, m_avg_ttfb_ms = None, m_consecutive_failures = 0,
      m_backoff_level = 0, m_cooldown_until = None, m_last_error = None, m_last_probe_at = None,
      m_last_success_at = None, m_last_failure_at = None, m_last_routed_at = None,
      m_composite_score = score, m_score_updated_at = None, m_discovered_at = 0,
      m_last_seen_at = 0, m_is_active = True\<rparr>"

definition example_tables :: tables where
  "example_tables = empty_tables\<lparr>t_models := [example_model ''m1'' 40, example_model ''m2'' 70,
     example_model ''m3'' 60]\<rparr>"

definition example_request :: "string \<Rightarrow> routing_requirements" where
  "example_request model =
     \<lparr>rr_requested_model = JStr model, rr_requires_tools = False, rr_requires_vision = False,
      rr_requires_streaming = False, rr_requires_structured_output = False,
      rr_requires_system_messages = True, rr_min_context_window = 0, rr_min_output_tokens = 0,
      rr_token_messages = JNull, rr_token_tools = JNull, rr_token_response_format = JNull,
      rr_safety_buffer = 15 / 100\<rparr>"

lemmas routing_eval = pick_candidates_def effective_requirements_def load_eligible_candidates_def query_bindable_def
  filter_candidates_by_tokenizer_estimate_def order_candidates_def match_explicit_model_def
  insert_fallback_def py_prefix_def py_suffix_from_def sort_desc_def eligible_def py_or_def
  serialize_candidate_def preference_score_def pick_of_def example_tables_def example_model_def
  example_request_def empty_tables_def or_zero_def named_def

lemma example_picks:
  "pick_candidates example_tables 100 no_tokenizers (example_request ''auto'') None ''m1'' 2 =
   Inr [pick_of (serialize_candidate (example_model ''m2'' 70)),
        pick_of (serialize_candidate (example_model ''m1'' 40))]"
  by (simp add: routing_eval)

lemma example_picks_explicit:
  "pick_candidates example_tables 100 no_tokenizers (example_request ''m3'') None ''m1'' 2 =
   Inr [pick_of (serialize_candidate (example_model ''m3'' 60)),
        pick_of (serialize_candidate (example_model ''m1'' 40))]"
  by (simp add: routing_eval)

lemma example_wf: "wf_tables example_tables"
  by (simp add: wf_tables_def example_tables_def example_model_def empty_tables_def)

lemma example_pool:
  "candidate_pool example_tables 100 no_tokenizers (effective_requirements (example_request i) None) =
   Inr [serialize_candidate (example_model ''m2'' 70), serialize_candidate (example_model ''m3'' 60),
        serialize_candidate (example_model ''m1'' 40)]"
  by (simp add: candidate_pool_def routing_eval)

theorem picks_are_eligible_witness:
  "\<exists>m \<in> set (t_models example_tables).
     pick_of (serialize_candidate (example_model ''m1'' 40)) = pick_of (serialize_candidate m)
     \<and> eligible 100 (effective_requirements (example_request ''auto'') None) m
     \<and> fits no_tokenizers (effective_requirements (example_request ''auto'') None) (serialize_candidate m)"
  using picks_are_eligible [OF example_picks] by simp

text \<open>
  C15 (error). The complete account of the 503 \<open>NoHealthyModelsError\<close>. It is raised exactly when the
  requested bounds fit the 64-bit parameters of the query and every eligible row, if there is one,
  has a token estimate that is computed and exceeds its window. A bound beyond 64 bits is reported
  as an overflow instead, whatever the table holds.
\<close>

theorem no_candidates_iff:
  "(pick_candidates t now te req prefs fb limit = Inl NoHealthyModels \<longleftrightarrow>
     query_bindable (effective_requirements req prefs)
     \<and> (\<forall>m \<in> set (t_models t). eligible now (effective_requirements req prefs) m
          \<longrightarrow> estimate_exceeds te (effective_requirements req prefs) (serialize_candidate m)))
   \<and> (pick_candidates t now te req prefs fb limit = Inl (RoutingCrash OverflowError)
        \<or> query_bindable (effective_requirements req prefs))"
proof -
  define ereq where "ereq = effective_requirements req prefs"
  have pool: "candidate_pool t now te ereq = Inr [] \<longleftrightarrow>
      query_bindable ereq \<and> (\<forall>m \<in> set (t_models t). eligible now ereq m \<longrightarrow> estimate_exceeds te ereq (serialize_candidate m))"
    by (rule empty_pool_iff)
  have "pick_candidates t now te req prefs fb limit = Inl NoHealthyModels \<longleftrightarrow> candidate_pool t now te ereq = Inr []"
    by (auto simp: pick_candidates_def candidate_pool_def ereq_def Let_def split: sum.splits if_splits)
  moreover have "pick_candidates t now te req prefs fb limit = Inl (RoutingCrash OverflowError)" if "\<not> query_bindable ereq"
    using that by (simp add: pick_candidates_def load_eligible_candidates_def ereq_def Let_def)
  ultimately show ?thesis using pool unfolding ereq_def by blast
qed

text \<open>One request with an empty table, and one whose output bound is \<open>2 ^ 63\<close>.\<close>

theorem no_candidates_iff_witness:
  "pick_candidates empty_tables 100 no_tokenizers (example_request ''auto'') None ''m1'' 2 = Inl NoHealthyModels
   \<and> pick_candidates example_tables 100 no_tokenizers ((example_request ''auto'')\<lparr>rr_min_output_tokens := 2 ^ 63\<rparr>)
       None ''m1'' 2 = Inl (RoutingCrash OverflowError)"
proof -
  have "query_bindable (effective_requirements (example_request ''auto'') None)"
    "\<not> query_bindable (effective_requirements ((example_request ''auto'')\<lparr>rr_min_output_tokens := 2 ^ 63\<rparr>) None)"
    by (simp_all add: query_bindable_def effective_requirements_def example_request_def)
  then show ?thesis
    using no_candidates_iff [of empty_tables 100 no_tokenizers "example_request ''auto''" None "''m1''" 2]
      no_candidates_iff [of example_tables 100 no_tokenizers "(example_request ''auto'')\<lparr>rr_min_output_tokens := 2 ^ 63\<rparr>"
        None "''m1''" 2]
    by (simp add: empty_tables_def)
qed

text \<open>
  C14 (bounds). No model is attempted twice for one request, whatever the limit (even a negative
  one) and wherever the fallback model is inserted; with a limit of at least one the list is
  not empty and has at most that many entries.
\<close>

theorem picks_distinct_and_bounded:
  assumes "wf_tables t" and "pick_candidates t now te req prefs fb limit = Inr ps"
  shows "distinct (map p_id ps) \<and> (0 \<le> limit \<longrightarrow> int (length ps) \<le> limit) \<and> (1 \<le> limit \<longrightarrow> ps \<noteq> [])"
proof -
  from assms(2) obtain cs os where
    cs: "candidate_pool t now te (effective_requirements req prefs) = Inr cs" "cs \<noteq> []"
    and os: "order_candidates prefs (py_or (rr_requested_model (effective_requirements req prefs)) (JStr ''auto'')) cs = Inr os"
    and ps: "ps = map pick_of (py_prefix limit (insert_fallback fb limit cs os))"
    by (rule pick_candidates_Inr)
  from order_candidates_set [OF os distinct_candidate_pool [OF assms(1) cs(1)]]
  have set_os: "set os = set cs" and dist: "distinct (map c_id os)" by auto
  have "distinct (map c_id (py_prefix limit (insert_fallback fb limit cs os)))"
    using set_os
  proof (cases rule: limited_cases [of os cs limit fb])
    case same
    with dist show ?thesis by (simp add: distinct_py_prefix)
  next
    case (added f)
    have "set (take (nat (limit - 1)) os) \<subseteq> set (py_prefix limit os)"
      using added(4) by (simp add: py_prefix_def set_take_subset_set_take)
    moreover have "distinct (map c_id (take (nat (limit - 1)) os))"
      using dist by (simp flip: take_map)
    ultimately show ?thesis using added(2,3,5) by auto
  next
    case nonpos
    with dist distinct_py_prefix [OF dist, of limit] show ?thesis by auto
  qed
  moreover have "ps \<noteq> []" if "1 \<le> limit"
    using set_os
  proof (cases rule: limited_cases [of os cs limit fb])
    case same
    from cs(2) set_os have "os \<noteq> []" by auto
    with same that ps show ?thesis by (simp add: py_prefix_def)
  next
    case (added f)
    with ps show ?thesis by simp
  next
    case nonpos
    with that show ?thesis by simp
  qed
  moreover have "0 \<le> limit \<longrightarrow> int (length ps) \<le> limit"
    using length_py_prefix_le [of limit "insert_fallback fb limit cs os"] ps by simp
  ultimately show ?thesis using ps by (simp del: map_map)
qed

theorem picks_distinct_and_bounded_witness:
  "distinct (map p_id [pick_of (serialize_candidate (example_model ''m2'' 70)),
        pick_of (serialize_candidate (example_model ''m1'' 40))])
   \<and> int (length [pick_of (serialize_candidate (example_model ''m2'' 70)),
        pick_of (serialize_candidate (example_model ''m1'' 40))]) \<le> 2"
  using picks_distinct_and_bounded [OF example_wf example_picks] by simp

text \<open>
  The configured fallback model, when it is in the pool, is always one of the
  attempts of a request with at least one attempt, however low it ranks.
\<close>

theorem fallback_is_attempted:
  assumes "wf_tables t" and "pick_candidates t now te req prefs fb limit = Inr ps"
    and "candidate_pool t now te (effective_requirements req prefs) = Inr cs"
    and "fb \<noteq> []" and "fb \<in> c_id ` set cs" and "1 \<le> limit"
  shows "fb \<in> p_id ` set ps"
proof -
  from assms(2) obtain os where
    os: "order_candidates prefs (py_or (rr_requested_model (effective_requirements req prefs)) (JStr ''auto'')) cs = Inr os"
    and ps: "ps = map pick_of (py_prefix limit (insert_fallback fb limit cs os))"
    by (rule pick_candidates_Inr) (use assms(3) in auto)
  from order_candidates_set [OF os distinct_candidate_pool [OF assms(1,3)]] have "set os = set cs" by blast
  then show ?thesis
  proof (cases rule: limited_cases [of os cs limit fb])
    case same
    with assms(4,5) ps show ?thesis by (auto simp: image_image)
  next
    case (added f)
    with ps show ?thesis by auto
  next
    case nonpos
    with assms(6) show ?thesis by simp
  qed
qed

theorem fallback_is_attempted_witness:
  "''m1'' \<in> p_id ` set [pick_of (serialize_candidate (example_model ''m2'' 70)),
     pick_of (serialize_candidate (example_model ''m1'' 40))]"
  by (rule fallback_is_attempted [OF example_wf example_picks example_pool])
    (simp_all add: serialize_candidate_def example_model_def)

text \<open>
  A request that names a model of the pool, by its id or its provider's id, is
  attempted on such a model first, provided at least two attempts are allowed.
\<close>

theorem explicit_model_first:
  assumes "wf_tables t" and "pick_candidates t now te req prefs fb limit = Inr ps"
    and "candidate_pool t now te (effective_requirements req prefs) = Inr cs"
    and "rr_requested_model req = JStr s" and "s \<noteq> []" and "s \<noteq> ''auto''"
    and "c \<in> set cs" and "s = c_id c \<or> s = c_provider_model_id c" and "2 \<le> limit"
  shows "ps \<noteq> [] \<and> (p_id (hd ps) = s \<or> p_provider_model_id (hd ps) = s)"
proof -
  have req: "py_or (rr_requested_model (effective_requirements req prefs)) (JStr ''auto'') = JStr s"
    using assms(4,5) by (simp add: py_or_def)
  from assms(2) obtain os where os: "order_candidates prefs (JStr s) cs = Inr os"
    and ps: "ps = map pick_of (py_prefix limit (insert_fallback fb limit cs os))"
    by (rule pick_candidates_Inr) (use assms(3) req in auto)
  define es where "es = filter (named (JStr s)) cs"
  have "c \<in> set es" using assms(7,8) by (auto simp: es_def named_def)
  then have es: "es \<noteq> []" by auto
  with assms(6) os have os_eq: "os = es @ filter (\<lambda>c. c_id c \<notin> c_id ` set es) cs"
    by (simp add: order_candidates_def match_explicit_model_def es_def Let_def)
  have head: "p_id (pick_of (hd os)) = s \<or> p_provider_model_id (pick_of (hd os)) = s"
    using es hd_in_set [OF es] unfolding os_eq by (auto simp: es_def named_def)
  have ne: "os \<noteq> []" using es os_eq by simp
  from order_candidates_set [OF os distinct_candidate_pool [OF assms(1,3)]] have "set os = set cs" by blast
  then have "ps \<noteq> [] \<and> hd ps = pick_of (hd os)"
  proof (cases rule: limited_cases [of os cs limit fb])
    case same
    with assms(9) ne ps show ?thesis by (cases os) (auto simp: py_prefix_def take_Cons')
  next
    case (added f)
    with assms(9) ne ps show ?thesis by (cases os) (auto simp: take_Cons')
  next
    case nonpos
    with assms(9) show ?thesis by simp
  qed
  with head show ?thesis by simp
qed

theorem explicit_model_first_witness:
  "p_id (hd [pick_of (serialize_candidate (example_model ''m3'' 60)),
        pick_of (serialize_candidate (example_model ''m1'' 40))]) = ''m3''
   \<or> p_provider_model_id (hd [pick_of (serialize_candidate (example_model ''m3'' 60)),
        pick_of (serialize_candidate (example_model ''m1'' 40))]) = ''m3''"
  using explicit_model_first [OF example_wf example_picks_explicit example_pool, of "''m3''"
      "serialize_candidate (example_model ''m3'' 60)"]
  by (simp add: serialize_candidate_def example_model_def example_request_def)

text \<open>
  With a single attempt allowed and a fallback model in the pool that is not
  already the first choice, the fallback model takes the only slot: the model the client named
  and the best-ranked model are both left out.
\<close>

theorem single_attempt_goes_to_fallback:
  assumes "wf_tables t" and "pick_candidates t now te req prefs fb 1 = Inr ps"
    and "candidate_pool t now te (effective_requirements req prefs) = Inr cs"
    and "fb \<noteq> []" and "fb \<in> c_id ` set cs"
  shows "map p_id ps = [fb]"
proof -
  from assms(2) obtain os where
    os: "order_candidates prefs (py_or (rr_requested_model (effective_requirements req prefs)) (JStr ''auto'')) cs = Inr os"
    and ps: "ps = map pick_of (py_prefix 1 (insert_fallback fb 1 cs os))"
    by (rule pick_candidates_Inr) (use assms(3) in auto)
  from order_candidates_set [OF os distinct_candidate_pool [OF assms(1,3)]] have "set os = set cs" by blast
  then show ?thesis
  proof (cases rule: limited_cases [of os cs 1 fb])
    case same
    have one: "py_prefix 1 os = take 1 os" by (simp add: py_prefix_def)
    from same(2) assms(4,5) have "fb \<in> c_id ` set (take 1 os)" unfolding one by blast
    moreover have "ps = map pick_of (take 1 os)" unfolding ps same(1) one ..
    ultimately show ?thesis by (cases os) simp_all
  next
    case (added f)
    with ps show ?thesis by simp
  next
    case nonpos
    then show ?thesis by simp
  qed
qed

theorem single_attempt_goes_to_fallback_witness:
  "\<exists>ps. pick_candidates example_tables 100 no_tokenizers (example_request ''m3'') None ''m1'' 1 = Inr ps
     \<and> map p_id ps = [''m1'']"
proof -
  have run: "pick_candidates example_tables 100 no_tokenizers (example_request ''m3'') None ''m1'' 1
      = Inr [pick_of (serialize_candidate (example_model ''m1'' 40))]"
    by (simp add: routing_eval)
  from single_attempt_goes_to_fallback [OF example_wf run example_pool] run show ?thesis
    by (simp add: serialize_candidate_def example_model_def)
qed

text \<open>
  Without a named model and without a fallback model, the attempts are the first
  entries of the pool in descending preference: every attempted model scores at least as high
  as every model of the pool that is not attempted.
\<close>

theorem auto_prefers_best:
  assumes "pick_candidates t now te req prefs [] limit = Inr ps"
    and "candidate_pool t now te (effective_requirements req prefs) = Inr cs"
    and "py_or (rr_requested_model req) (JStr ''auto'') = JStr ''auto''"
  shows "\<exists>rest. sort_desc (preference_score prefs) cs = take (length ps) (sort_desc (preference_score prefs) cs) @ rest
    \<and> ps = map pick_of (take (length ps) (sort_desc (preference_score prefs) cs))
    \<and> (\<forall>c \<in> set (take (length ps) (sort_desc (preference_score prefs) cs)). \<forall>d \<in> set rest.
          preference_score prefs d \<le> preference_score prefs c)"
proof -
  define os where "os = sort_desc (preference_score prefs) cs"
  have ord: "order_candidates prefs (JStr ''auto'') cs = Inr os"
    by (simp add: order_candidates_def os_def)
  from assms(1) have ps: "ps = map pick_of (py_prefix limit os)"
    by (rule pick_candidates_Inr) (use assms(2,3) ord in \<open>auto simp: insert_fallback_def\<close>)
  obtain n where n: "py_prefix limit os = take n os" by (simp add: py_prefix_def)
  have take: "take (length ps) os = take n os" using ps n by (simp add: min_def)
  have "sorted_wrt (\<lambda>x y. preference_score prefs y \<le> preference_score prefs x) (take n os @ drop n os)"
    by (simp add: os_def sort_desc_sorted)
  then have "\<forall>c \<in> set (take n os). \<forall>d \<in> set (drop n os). preference_score prefs d \<le> preference_score prefs c"
    unfolding sorted_wrt_append by blast
  with ps n take show ?thesis
    unfolding os_def [symmetric] by (intro exI [of _ "drop n os"]) simp
qed

theorem auto_prefers_best_witness:
  "\<exists>rest. sort_desc (preference_score None) [serialize_candidate (example_model ''m2'' 70),
       serialize_candidate (example_model ''m3'' 60), serialize_candidate (example_model ''m1'' 40)]
     = take 1 (sort_desc (preference_score None) [serialize_candidate (example_model ''m2'' 70),
       serialize_candidate (example_model ''m3'' 60), serialize_candidate (example_model ''m1'' 40)]) @ rest"
proof -
  have run: "pick_candidates example_tables 100 no_tokenizers (example_request ''auto'') None [] 1
      = Inr [pick_of (serialize_candidate (example_model ''m2'' 70))]"
    by (simp add: routing_eval)
  have "py_or (rr_requested_model (example_request ''auto'')) (JStr ''auto'') = JStr ''auto''"
    by (simp add: py_or_def example_request_def)
  from auto_prefers_best [OF run example_pool this] show ?thesis by auto
qed

end
