(* ===== verification/FL_Config.thy ===== *)
theory FL_Config
  imports FL_Json
begin

text \<open>
  Configuration (\<open>src/config.py\<close>): the \<open>Settings\<close> dataclass as a record with the fields of
  the source, its construction from the YAML file and the environment (\<open>from_env\<close>), the
  stored overrides (\<open>apply_overrides\<close>), managed secrets, the provider switches and the
  public view.

  The parsed YAML file is a \<^typ>\<open>json\<close> value with text keys, absent when there is no file.
  The environment, \<open>repr\<close> and the reading of floats from text are parameters
  (\<open>cfg_env\<close>). Constructing or changing the settings field by field is a list of steps that
  may raise, run in the order the source evaluates them.
\<close>

record cfg_env =
  ce_repr :: "json \<Rightarrow> string"
  ce_float :: "string \<Rightarrow> rat option"
  ce_getenv :: "string \<Rightarrow> string option"

definition PROVIDER_DEFAULT_API_KEY_ENVS :: "(provider_id, string) dict" where
  "PROVIDER_DEFAULT_API_KEY_ENVS =
    [(''openrouter'', ''OPENROUTER_API_KEY''), (''openai'', ''OPENAI_API_KEY''),
     (''together'', ''TOGETHER_API_KEY''), (''groq'', ''GROQ_API_KEY''),
     (''deepseek'', ''DEEPSEEK_API_KEY''), (''xai'', ''XAI_API_KEY''),
     (''cerebras'', ''CEREBRAS_API_KEY''), (''perplexity'', ''PERPLEXITY_API_KEY''),
     (''nvidia'', ''NVIDIA_API_KEY'')]"

definition OVERRIDABLE_KEYS :: "string list" where
  "OVERRIDABLE_KEYS =
    [''discovery.interval_minutes'', ''ranking.interval_minutes'', ''routing.max_attempts'',
     ''routing.enable_request_preference_headers'', ''ranking.fallback_model'',
     ''providers.openrouter.active_probe_enabled'', ''health.probe_interval_minutes'',
     ''health.probe_timeout_seconds'', ''health.probe_concurrency'', ''health.max_probes_per_run'',
     ''health.stale_after_minutes'', ''health.top_n_stale_probe'', ''health.startup_probe_limit'',
     ''health.consecutive_failures_threshold'', ''health.cooldown_minutes'',
     ''health.max_backoff_exponent'', ''health.probe_max_tokens'',
     ''health.daily_request_budget_by_provider.openrouter'', ''logging.runtime_enabled'',
     ''logging.runtime_verbosity'', ''logging.request_log_retention_days'']"

definition DEFAULT_RANKING_WEIGHTS :: "(string, rat) dict" where
  "DEFAULT_RANKING_WEIGHTS =
    [(''benchmark_score'', 3 / 10), (''real_world_usage'', 3 / 20), (''latency'', 1 / 5),
     (''availability'', 1 / 5), (''context_window'', 1 / 10), (''feature_support'', 1 / 20)]"

definition DEFAULT_PROVIDER_PROBE_BUDGET :: int where
  "DEFAULT_PROVIDER_PROBE_BUDGET = 5"

record settings =
  openrouter_api_key :: string
  gateway_api_key :: string
  gateway_host :: string
  gateway_port :: int
  gateway_workers :: int
  gateway_log_level :: string
  database_url :: json
  database_busy_timeout_ms :: int
  app_env :: string
  providers_enabled :: "provider_id list"
  provider_enabled :: "(provider_id, bool) dict"
  provider_discovery_enabled :: "(provider_id, bool) dict"
  provider_inference_enabled :: "(provider_id, bool) dict"
  provider_active_probe_enabled :: "(provider_id, bool) dict"
  provider_bootstrap_config :: "(provider_id, (string, json) dict) dict"
  openrouter_enabled :: bool
  openrouter_discovery_enabled :: bool
  openrouter_inference_enabled :: bool
  openrouter_dev_stub_enabled :: bool
  discovery_interval_minutes :: int
  discovery_request_timeout_seconds :: int
  discovery_leaderboard_chatbot_arena_enabled :: bool
  discovery_leaderboard_chatbot_arena_cache_hours :: int
  discovery_leaderboard_open_llm_enabled :: bool
  discovery_leaderboard_open_llm_cache_hours :: int
  ranking_interval_minutes :: int
  routing_max_attempts :: int
  routing_enable_request_preference_headers :: bool
  openrouter_api_base :: json
  openrouter_active_probe_enabled :: bool
  ranking_weights :: "(string, rat) dict"
  ranking_fallback_model :: string
  health_probe_interval_minutes :: int
  health_probe_timeout_seconds :: int
  health_probe_concurrency :: int
  health_max_probes_per_run :: int
  health_stale_after_minutes :: int
  health_top_n_stale_probe :: int
  health_startup_probe_limit :: int
  health_consecutive_failures_threshold :: int
  health_cooldown_minutes :: int
  health_max_backoff_exponent :: int
  health_probe_max_tokens :: int
  health_daily_request_budget_by_provider :: "(provider_id, int) dict"
  logging_request_log_enabled :: bool
  logging_log_queue_size :: int
  logging_request_log_retention_days :: int
  logging_runtime_enabled :: bool
  logging_runtime_verbosity :: string
  logging_runtime_queue_size :: int
  gateway_max_request_body_bytes :: int
  gateway_max_upstream_response_bytes :: int
  gateway_max_sse_event_bytes :: int
  gateway_stream_idle_timeout_seconds :: int
  gateway_stream_total_timeout_seconds :: int
  security_auth_failure_limit :: int
  security_auth_failure_window_seconds :: int
  security_auth_throttle_max_entries :: int

text \<open>The field defaults of the dataclass, before \<open>__post_init__\<close>.\<close>

definition field_defaults :: settings where
  "field_defaults = \<lparr>
     openrouter_api_key = [], gateway_api_key = [], gateway_host = ''127.0.0.1'',
     gateway_port = 8000, gateway_workers = 1, gateway_log_level = ''info'',
     database_url = JStr ''freelunch.db'', database_busy_timeout_ms = 5000, app_env = ''dev'',
     providers_enabled = [''openrouter''], provider_enabled = [], provider_discovery_enabled = [],
     provider_inference_enabled = [], provider_active_probe_enabled = [],
     provider_bootstrap_config = [], openrouter_enabled = True,
     openrouter_discovery_enabled = True, openrouter_inference_enabled = True,
     openrouter_dev_stub_enabled = False, discovery_interval_minutes = 30,
     discovery_request_timeout_seconds = 15, discovery_leaderboard_chatbot_arena_enabled = True,
     discovery_leaderboard_chatbot_arena_cache_hours = 24,
     discovery_leaderboard_open_llm_enabled = True,
     discovery_leaderboard_open_llm_cache_hours = 24, ranking_interval_minutes = 15,
     routing_max_attempts = 3, routing_enable_request_preference_headers = True,
     openrouter_api_base = JStr ''https://openrouter.ai/api/v1'',
     openrouter_active_probe_enabled = True, ranking_weights = DEFAULT_RANKING_WEIGHTS,
     ranking_fallback_model = ''openrouter/openrouter/free'', health_probe_interval_minutes = 180,
     health_probe_timeout_seconds = 15, health_probe_concurrency = 1,
     health_max_probes_per_run = 1, health_stale_after_minutes = 360,
     health_top_n_stale_probe = 3, health_startup_probe_limit = 2,
     health_consecutive_failures_threshold = 3, health_cooldown_minutes = 30,
     health_max_backoff_exponent = 4, health_probe_max_tokens = 1,
     health_daily_request_budget_by_provider = [(''openrouter'', 5)],
     logging_request_log_enabled = True, logging_log_queue_size = 5000,
     logging_request_log_retention_days = 30, logging_runtime_enabled = True,
     logging_runtime_verbosity = ''concise'', logging_runtime_queue_size = 1000,
     gateway_max_request_body_bytes = 10 * 1024 * 1024,
     gateway_max_upstream_response_bytes = 16 * 1024 * 1024,
     gateway_max_sse_event_bytes = 1024 * 1024, gateway_stream_idle_timeout_seconds = 60,
     gateway_stream_total_timeout_seconds = 600, security_auth_failure_limit = 5,
     security_auth_failure_window_seconds = 300, security_auth_throttle_max_entries = 4096\<rparr>"

section \<open>Coercions\<close>

definition has_key :: "('k, 'v) dict \<Rightarrow> 'k \<Rightarrow> bool" where
  "has_key d k = (k \<in> fst ` set d)"

fun py_float_of :: "(string \<Rightarrow> rat option) \<Rightarrow> json \<Rightarrow> py_error + rat" where
  "py_float_of py_float (JBool b) = Inr (if b then 1 else 0)"
| "py_float_of py_float (JInt i) = Inr (of_int i)"
| "py_float_of py_float (JFloat r) = Inr r"
| "py_float_of py_float (JStr s) = (case py_float s of None \<Rightarrow> Inl ValueError | Some r \<Rightarrow> Inr r)"
| "py_float_of py_float _ = Inl TypeError"

text \<open>A comprehension over items whose conversion may raise.\<close>

fun map_items :: "('v \<Rightarrow> 'e + 'w) \<Rightarrow> ('k, 'v) dict \<Rightarrow> 'e + ('k, 'w) dict" where
  "map_items f [] = Inr []"
| "map_items f ((k, v) # kvs) =
     sbind (f v) (\<lambda>w. sbind (map_items f kvs) (\<lambda>ws. Inr ((k, w) # ws)))"

definition coerce_float_mapping :: "(string \<Rightarrow> rat option) \<Rightarrow> json \<Rightarrow> py_error + (string, rat) dict" where
  "coerce_float_mapping py_float v =
     (case v of JObj kvs \<Rightarrow> map_items (py_float_of py_float) kvs | _ \<Rightarrow> Inr [])"

definition coerce_int_mapping :: "json \<Rightarrow> py_error + (string, int) dict" where
  "coerce_int_mapping v = (case v of JObj kvs \<Rightarrow> map_items py_int_of kvs | _ \<Rightarrow> Inr [])"

definition coerce_provider_bootstrap_config ::
  "(provider_id, (string, json) dict) dict \<Rightarrow> (provider_id, (string, json) dict) dict" where
  "coerce_provider_bootstrap_config d = filter (\<lambda>(k, v). k \<noteq> []) d"

definition coerce_string_list :: "(json \<Rightarrow> string) \<Rightarrow> json \<Rightarrow> string list" where
  "coerce_string_list py_repr v = (case v of
       JList items \<Rightarrow> filter (\<lambda>s. py_strip s \<noteq> []) (map (py_str py_repr) items)
     | _ \<Rightarrow> [])"

definition coerce_provider_sections :: "json \<Rightarrow> (provider_id, (string, json) dict) dict" where
  "coerce_provider_sections v = (case v of
       JObj kvs \<Rightarrow> concat (map (\<lambda>(k, w). case w of JObj d \<Rightarrow> if k = ''enabled'' then [] else [(k, d)]
                                             | _ \<Rightarrow> []) kvs)
     | _ \<Rightarrow> [])"

definition env_bool :: "cfg_env \<Rightarrow> string \<Rightarrow> json \<Rightarrow> bool" where
  "env_bool ce name v = (case ce_getenv ce name of
       None \<Rightarrow> py_truthy v
     | Some raw \<Rightarrow> py_lower (py_strip raw) \<in> set [''1'', ''true'', ''yes'', ''on''])"

text \<open>\<open>d.setdefault(k, v)\<close> for a key that may be absent.\<close>

definition setdefault :: "'k \<Rightarrow> 'v \<Rightarrow> ('k, 'v) dict \<Rightarrow> ('k, 'v) dict" where
  "setdefault k v d = (if has_key d k then d else d @ [(k, v)])"

text \<open>
  \<open>__post_init__\<close>. The mappings of the record already have the types the coercions give; the
  bootstrap sections still lose an empty key, and \<open>openrouter\<close> gets its entries.
\<close>

definition post_init :: "settings \<Rightarrow> settings" where
  "post_init s =
    (let enabled = setdefault ''openrouter'' (openrouter_enabled s) (provider_enabled s);
         discovery = setdefault ''openrouter'' (openrouter_discovery_enabled s) (provider_discovery_enabled s);
         inference = setdefault ''openrouter'' (openrouter_inference_enabled s) (provider_inference_enabled s);
         probe = setdefault ''openrouter'' (openrouter_active_probe_enabled s) (provider_active_probe_enabled s)
     in s\<lparr>provider_enabled := enabled,
          provider_discovery_enabled := discovery,
          provider_inference_enabled := inference,
          provider_active_probe_enabled := probe,
          provider_bootstrap_config := setdefault ''openrouter'' []
             (coerce_provider_bootstrap_config (provider_bootstrap_config s)),
          openrouter_enabled := dict_get enabled ''openrouter'' False,
          openrouter_discovery_enabled := dict_get discovery ''openrouter'' False,
          openrouter_inference_enabled := dict_get inference ''openrouter'' False,
          openrouter_active_probe_enabled := dict_get probe ''openrouter'' True\<rparr>)"

definition default_settings :: settings where
  "default_settings = post_init field_defaults"

section \<open>Steps that set one field\<close>

type_synonym settings_step = "settings \<Rightarrow> py_error + settings"

text \<open>\<open>section.get(key, default)\<close>; a section that is not a mapping has no \<open>get\<close>.\<close>

definition getd :: "json \<Rightarrow> string \<Rightarrow> json \<Rightarrow> py_error + json" where
  "getd sec key dflt = (case sec of JObj d \<Rightarrow> Inr (dict_get d key dflt) | _ \<Rightarrow> Inl AttributeError)"

definition set_raw :: "json \<Rightarrow> string \<Rightarrow> json \<Rightarrow> (json \<Rightarrow> settings \<Rightarrow> settings) \<Rightarrow> settings_step" where
  "set_raw sec key dflt upd s = sbind (getd sec key dflt) (\<lambda>v. Inr (upd v s))"

definition set_int :: "json \<Rightarrow> string \<Rightarrow> int \<Rightarrow> (int \<Rightarrow> settings \<Rightarrow> settings) \<Rightarrow> settings_step" where
  "set_int sec key dflt upd s =
     sbind (getd sec key (JInt dflt)) (\<lambda>v. sbind (py_int_of v) (\<lambda>i. Inr (upd i s)))"

text \<open>\<open>int(os.getenv(name, section.get(key, default)))\<close>\<close>

definition set_env_int ::
  "cfg_env \<Rightarrow> string \<Rightarrow> json \<Rightarrow> string \<Rightarrow> int \<Rightarrow> (int \<Rightarrow> settings \<Rightarrow> settings) \<Rightarrow> settings_step" where
  "set_env_int ce name sec key dflt upd s =
     sbind (getd sec key (JInt dflt)) (\<lambda>v.
     sbind (py_int_of (case ce_getenv ce name of None \<Rightarrow> v | Some raw \<Rightarrow> JStr raw)) (\<lambda>i.
     Inr (upd i s)))"

definition set_pure :: "(settings \<Rightarrow> settings) \<Rightarrow> settings_step" where
  "set_pure upd s = Inr (upd s)"

section \<open>Reading the file and the environment\<close>

text \<open>The provider switches, one entry per provider id in sorted order.\<close>

definition provider_ids_of :: "(provider_id, (string, json) dict) dict \<Rightarrow> provider_id list \<Rightarrow> provider_id list" where
  "provider_ids_of sections enabled = sort (remdups (map fst sections @ enabled @ [''openrouter'']))"

definition configured_enabled ::
  "(provider_id, (string, json) dict) dict \<Rightarrow> provider_id list \<Rightarrow> provider_id \<Rightarrow> bool" where
  "configured_enabled sections enabled p =
     (p \<in> set enabled \<and> py_truthy (dict_get (dict_get sections p []) ''enabled'' (JBool True)))"

definition provider_switches ::
  "cfg_env \<Rightarrow> (provider_id, (string, json) dict) dict \<Rightarrow> provider_id list \<Rightarrow> settings \<Rightarrow> settings" where
  "provider_switches ce sections enabled s =
    (let ids = provider_ids_of sections enabled;
         sec = (\<lambda>p. dict_get sections p []);
         conf = configured_enabled sections enabled;
         disc = map (\<lambda>p. (p, conf p \<and> py_truthy (dict_get (sec p) ''discovery_enabled'' (JBool True)))) ids;
         infer = map (\<lambda>p. (p, conf p \<and> py_truthy (dict_get (sec p) ''inference_enabled'' (JBool True)))) ids;
         probe = map (\<lambda>p. (p, let v = dict_get (sec p) ''active_probe_enabled'' (JBool True) in
                   if p = ''openrouter'' then env_bool ce ''OPENROUTER_ACTIVE_PROBE_ENABLED'' v
                   else py_truthy v)) ids;
         en = map (\<lambda>p. (p, conf p)) ids
     in s\<lparr>providers_enabled := enabled,
          provider_enabled := en,
          provider_discovery_enabled := disc,
          provider_inference_enabled := infer,
          provider_active_probe_enabled := probe,
          provider_bootstrap_config := map (\<lambda>p. (p, sec p)) ids,
          openrouter_enabled := dict_get en ''openrouter'' False,
          openrouter_discovery_enabled := dict_get disc ''openrouter'' False,
          openrouter_inference_enabled := dict_get infer ''openrouter'' False,
          openrouter_active_probe_enabled := dict_get probe ''openrouter'' True\<rparr>)"

text \<open>
  The arguments of \<open>cls(...)\<close>, in the order in which they are evaluated. The dictionaries of
  weights and budgets are computed before the call; the order of the budget entries is that
  of a Python set, which nothing depends on, and is sorted here.
\<close>

definition gateway_steps :: "cfg_env \<Rightarrow> json \<Rightarrow> json \<Rightarrow> settings_step list" where
  "gateway_steps ce gateway database_sec =
    [set_pure (\<lambda>s. s\<lparr>openrouter_api_key := (case ce_getenv ce ''OPENROUTER_API_KEY'' of None \<Rightarrow> [] | Some v \<Rightarrow> v)\<rparr>),
     set_pure (\<lambda>s. s\<lparr>gateway_api_key := (case ce_getenv ce ''GATEWAY_API_KEY'' of None \<Rightarrow> [] | Some v \<Rightarrow> v)\<rparr>),
     set_raw gateway ''host'' (JStr ''127.0.0.1'') (\<lambda>v s. s\<lparr>gateway_host := py_str (ce_repr ce) v\<rparr>),
     set_int gateway ''port'' 8000 (\<lambda>i s. s\<lparr>gateway_port := max i 1\<rparr>),
     set_int gateway ''workers'' 1 (\<lambda>i s. s\<lparr>gateway_workers := max i 1\<rparr>),
     set_raw gateway ''log_level'' (JStr ''info'') (\<lambda>v s. s\<lparr>gateway_log_level := py_str (ce_repr ce) v\<rparr>),
     set_raw database_sec ''path'' (JStr ''freelunch.db'') (\<lambda>v s. s\<lparr>database_url :=
        (case ce_getenv ce ''DATABASE_URL'' of None \<Rightarrow> v | Some raw \<Rightarrow> JStr raw)\<rparr>),
     set_int database_sec ''busy_timeout_ms'' 5000 (\<lambda>i s. s\<lparr>database_busy_timeout_ms := max i 1\<rparr>),
     set_pure (\<lambda>s. s\<lparr>app_env := (case ce_getenv ce ''APP_ENV'' of None \<Rightarrow> ''dev'' | Some v \<Rightarrow> v)\<rparr>)]"

definition discovery_steps :: "cfg_env \<Rightarrow> (string, json) dict \<Rightarrow> json \<Rightarrow> json \<Rightarrow> json \<Rightarrow> settings_step list" where
  "discovery_steps ce openrouter discovery chatbot_arena open_llm =
    [set_pure (\<lambda>s. s\<lparr>openrouter_dev_stub_enabled := env_bool ce ''OPENROUTER_DEV_STUB_ENABLED''
        (dict_get openrouter ''dev_stub_enabled'' (JBool False))\<rparr>),
     set_int discovery ''interval_minutes'' 30 (\<lambda>i s. s\<lparr>discovery_interval_minutes := max i 1\<rparr>),
     set_int discovery ''request_timeout_seconds'' 15 (\<lambda>i s. s\<lparr>discovery_request_timeout_seconds := max i 1\<rparr>),
     set_raw chatbot_arena ''enabled'' (JBool True)
       (\<lambda>v s. s\<lparr>discovery_leaderboard_chatbot_arena_enabled := py_truthy v\<rparr>),
     set_int chatbot_arena ''cache_hours'' 24
       (\<lambda>i s. s\<lparr>discovery_leaderboard_chatbot_arena_cache_hours := max i 1\<rparr>),
     set_raw open_llm ''enabled'' (JBool True)
       (\<lambda>v s. s\<lparr>discovery_leaderboard_open_llm_enabled := py_truthy v\<rparr>),
     set_int open_llm ''cache_hours'' 24
       (\<lambda>i s. s\<lparr>discovery_leaderboard_open_llm_cache_hours := max i 1\<rparr>)]"

definition ranking_steps ::
  "cfg_env \<Rightarrow> (string, json) dict \<Rightarrow> json \<Rightarrow> json \<Rightarrow> (string, rat) dict \<Rightarrow> settings_step list" where
  "ranking_steps ce openrouter ranking routing weights =
    [set_int ranking ''interval_minutes'' 15 (\<lambda>i s. s\<lparr>ranking_interval_minutes := max i 1\<rparr>),
     set_env_int ce ''ROUTING_MAX_ATTEMPTS'' routing ''max_attempts'' 3 (\<lambda>i s. s\<lparr>routing_max_attempts := i\<rparr>),
     set_raw routing ''enable_request_preference_headers'' (JBool True)
       (\<lambda>v s. s\<lparr>routing_enable_request_preference_headers :=
          env_bool ce ''ROUTING_ENABLE_REQUEST_PREFERENCE_HEADERS'' v\<rparr>),
     set_pure (\<lambda>s. s\<lparr>openrouter_api_base := (case ce_getenv ce ''OPENROUTER_API_BASE'' of
         None \<Rightarrow> dict_get openrouter ''api_base'' (JStr ''https://openrouter.ai/api/v1'')
       | Some raw \<Rightarrow> JStr raw)\<rparr>),
     set_pure (\<lambda>s. s\<lparr>ranking_weights := weights\<rparr>),
     set_raw ranking ''fallback_model'' (JStr ''openrouter/openrouter/free'')
       (\<lambda>v s. s\<lparr>ranking_fallback_model := py_str (ce_repr ce) v\<rparr>)]"

definition health_steps :: "cfg_env \<Rightarrow> json \<Rightarrow> (provider_id, int) dict \<Rightarrow> settings_step list" where
  "health_steps ce health budgets =
    [set_int health ''probe_interval_minutes'' 180 (\<lambda>i s. s\<lparr>health_probe_interval_minutes := i\<rparr>),
     set_int health ''probe_timeout_seconds'' 15 (\<lambda>i s. s\<lparr>health_probe_timeout_seconds := i\<rparr>),
     set_int health ''probe_concurrency'' 1 (\<lambda>i s. s\<lparr>health_probe_concurrency := max i 1\<rparr>),
     set_int health ''max_probes_per_run'' 1 (\<lambda>i s. s\<lparr>health_max_probes_per_run := max i 0\<rparr>),
     set_int health ''stale_after_minutes'' 360 (\<lambda>i s. s\<lparr>health_stale_after_minutes := max i 1\<rparr>),
     set_int health ''top_n_stale_probe'' 3 (\<lambda>i s. s\<lparr>health_top_n_stale_probe := max i 0\<rparr>),
     set_env_int ce ''STARTUP_PROBE_LIMIT'' health ''startup_probe_limit'' 2
       (\<lambda>i s. s\<lparr>health_startup_probe_limit := max i 0\<rparr>),
     set_int health ''consecutive_failures_threshold'' 3
       (\<lambda>i s. s\<lparr>health_consecutive_failures_threshold := max i 1\<rparr>),
     set_int health ''cooldown_minutes'' 30 (\<lambda>i s. s\<lparr>health_cooldown_minutes := max i 1\<rparr>),
     set_int health ''max_backoff_exponent'' 4 (\<lambda>i s. s\<lparr>health_max_backoff_exponent := max i 0\<rparr>),
     set_int health ''probe_max_tokens'' 1 (\<lambda>i s. s\<lparr>health_probe_max_tokens := max i 1\<rparr>),
     set_pure (\<lambda>s. s\<lparr>health_daily_request_budget_by_provider := budgets\<rparr>)]"

definition logging_steps :: "cfg_env \<Rightarrow> json \<Rightarrow> json \<Rightarrow> settings_step list" where
  "logging_steps ce logging security =
    [set_raw logging ''request_log_enabled'' (JBool True) (\<lambda>v s. s\<lparr>logging_request_log_enabled := py_truthy v\<rparr>),
     set_int logging ''log_queue_size'' 5000 (\<lambda>i s. s\<lparr>logging_log_queue_size := max i 1\<rparr>),
     set_int logging ''request_log_retention_days'' 30
       (\<lambda>i s. s\<lparr>logging_request_log_retention_days := max i 1\<rparr>),
     set_raw logging ''runtime_enabled'' (JBool True) (\<lambda>v s. s\<lparr>logging_runtime_enabled := py_truthy v\<rparr>),
     set_raw logging ''runtime_verbosity'' (JStr ''concise'')
       (\<lambda>v s. s\<lparr>logging_runtime_verbosity := py_str (ce_repr ce) v\<rparr>),
     set_int logging ''runtime_queue_size'' 1000 (\<lambda>i s. s\<lparr>logging_runtime_queue_size := max i 1\<rparr>),
     set_int security ''max_request_body_bytes'' (10 * 1024 * 1024)
       (\<lambda>i s. s\<lparr>gateway_max_request_body_bytes := max i 1024\<rparr>),
     set_int security ''max_upstream_response_bytes'' (16 * 1024 * 1024)
       (\<lambda>i s. s\<lparr>gateway_max_upstream_response_bytes := max i 1024\<rparr>),
     set_int security ''max_sse_event_bytes'' (1024 * 1024)
       (\<lambda>i s. s\<lparr>gateway_max_sse_event_bytes := max i 1024\<rparr>),
     set_int security ''stream_idle_timeout_seconds'' 60
       (\<lambda>i s. s\<lparr>gateway_stream_idle_timeout_seconds := max i 1\<rparr>),
     set_int security ''stream_total_timeout_seconds'' 600
       (\<lambda>i s. s\<lparr>gateway_stream_total_timeout_seconds := max i 1\<rparr>),
     set_int security ''auth_failure_limit'' 5 (\<lambda>i s. s\<lparr>security_auth_failure_limit := max i 1\<rparr>),
     set_int security ''auth_failure_window_seconds'' 300
       (\<lambda>i s. s\<lparr>security_auth_failure_window_seconds := max i 1\<rparr>),
     set_int security ''auth_throttle_max_entries'' 4096
       (\<lambda>i s. s\<lparr>security_auth_throttle_max_entries := max i 1\<rparr>)]"

definition dict_update :: "('k, 'v) dict \<Rightarrow> ('k, 'v) dict \<Rightarrow> ('k, 'v) dict" where
  "dict_update d e = fold (\<lambda>(k, v). AList.update k v) e d"

text \<open>A nested section is read only from a mapping; otherwise it is the empty mapping.\<close>

definition subsection_of :: "json \<Rightarrow> string \<Rightarrow> json" where
  "subsection_of sec key = (case sec of JObj d \<Rightarrow> dict_get d key (JObj []) | _ \<Rightarrow> JObj [])"

definition from_env :: "cfg_env \<Rightarrow> json option \<Rightarrow> py_error + settings" where
  "from_env ce config_file =
    (let config_data = (case config_file of None \<Rightarrow> JObj [] | Some v \<Rightarrow> py_or v (JObj [])) in
     sbind (getd config_data ''gateway'' (JObj [])) (\<lambda>gateway.
     sbind (getd config_data ''discovery'' (JObj [])) (\<lambda>discovery.
     let leaderboard = subsection_of discovery ''leaderboard'';
         chatbot_arena = subsection_of leaderboard ''chatbot_arena'';
         open_llm = subsection_of leaderboard ''open_llm'' in
     sbind (getd config_data ''routing'' (JObj [])) (\<lambda>routing.
     sbind (getd config_data ''health'' (JObj [])) (\<lambda>health.
     sbind (getd config_data ''ranking'' (JObj [])) (\<lambda>ranking.
     sbind (getd config_data ''logging'' (JObj [])) (\<lambda>logging.
     sbind (getd config_data ''security'' (JObj [])) (\<lambda>security.
     sbind (getd config_data ''database'' (JObj [])) (\<lambda>database_sec.
     sbind (getd config_data ''providers'' (JObj [])) (\<lambda>providers.
     let sections = coerce_provider_sections providers;
         openrouter = dict_get sections ''openrouter'' [];
         enabled = coerce_string_list (ce_repr ce) (case providers of
             JObj d \<Rightarrow> dict_get d ''enabled'' (JList [JStr ''openrouter''])
           | _ \<Rightarrow> JList [JStr ''openrouter'']) in
     sbind (sbind (getd ranking ''weights'' (JObj [])) (coerce_float_mapping (ce_float ce))) (\<lambda>weights.
     sbind (sbind (getd health ''daily_request_budget_by_provider'' (JObj [])) coerce_int_mapping) (\<lambda>budgets.
     sbind (run_steps
        (gateway_steps ce gateway database_sec
         @ [set_pure (provider_switches ce sections enabled)]
         @ discovery_steps ce openrouter discovery chatbot_arena open_llm
         @ ranking_steps ce openrouter ranking routing (dict_update DEFAULT_RANKING_WEIGHTS weights)
         @ health_steps ce health (dict_update
             (map (\<lambda>p. (p, DEFAULT_PROVIDER_PROBE_BUDGET)) (provider_ids_of sections enabled)) budgets)
         @ logging_steps ce logging security)
        field_defaults) (\<lambda>s.
     Inr (post_init s))))))))))))))"

section \<open>Keys that name a provider\<close>

definition between :: "string \<Rightarrow> string \<Rightarrow> string \<Rightarrow> provider_id option" where
  "between pre suf key =
     (if \<not> py_startswith key pre \<or> \<not> py_endswith key suf then None
      else let p = py_strip (drop (length pre) (take (length key - length suf) key))
           in if p = [] then None else Some p)"

definition provider_from_active_probe_key :: "string \<Rightarrow> provider_id option" where
  "provider_from_active_probe_key key = between ''providers.'' ''.active_probe_enabled'' key"

definition provider_from_probe_budget_key :: "string \<Rightarrow> provider_id option" where
  "provider_from_probe_budget_key key =
     (if \<not> py_startswith key ''health.daily_request_budget_by_provider.'' then None
      else let p = py_strip (drop (length ''health.daily_request_budget_by_provider.'') key)
           in if p = [] then None else Some p)"

definition provider_from_managed_secret_key :: "string \<Rightarrow> provider_id option" where
  "provider_from_managed_secret_key key = between ''providers.'' ''.api_key'' key"

definition is_managed_secret_key :: "string \<Rightarrow> bool" where
  "is_managed_secret_key key =
     (key = ''openrouter_api_key'' \<or>
      (case provider_from_managed_secret_key key of
         None \<Rightarrow> False | Some p \<Rightarrow> has_key PROVIDER_DEFAULT_API_KEY_ENVS p))"

definition is_overridable :: "string \<Rightarrow> bool" where
  "is_overridable key =
     (key \<in> set OVERRIDABLE_KEYS \<or> py_startswith key ''ranking.weights.''
      \<or> provider_from_active_probe_key key \<noteq> None \<or> provider_from_probe_budget_key key \<noteq> None)"

section \<open>Overrides\<close>

type_synonym overrides = "(string, json) dict"

definition ov_int :: "overrides \<Rightarrow> string \<Rightarrow> (int \<Rightarrow> settings \<Rightarrow> settings) \<Rightarrow> settings_step" where
  "ov_int ov key upd s = (case map_of ov key of
       None \<Rightarrow> Inr s | Some raw \<Rightarrow> sbind (py_int_of raw) (\<lambda>i. Inr (upd i s)))"

definition ov_raw :: "overrides \<Rightarrow> string \<Rightarrow> (json \<Rightarrow> settings \<Rightarrow> settings) \<Rightarrow> settings_step" where
  "ov_raw ov key upd s = (case map_of ov key of None \<Rightarrow> Inr s | Some raw \<Rightarrow> Inr (upd raw s))"

definition scalar_override_steps :: "(json \<Rightarrow> string) \<Rightarrow> overrides \<Rightarrow> settings_step list" where
  "scalar_override_steps py_repr ov =
    [ov_int ov ''discovery.interval_minutes'' (\<lambda>i s. s\<lparr>discovery_interval_minutes := max i 1\<rparr>),
     ov_int ov ''ranking.interval_minutes'' (\<lambda>i s. s\<lparr>ranking_interval_minutes := max i 1\<rparr>),
     ov_int ov ''routing.max_attempts'' (\<lambda>i s. s\<lparr>routing_max_attempts := i\<rparr>),
     ov_raw ov ''routing.enable_request_preference_headers''
       (\<lambda>v s. s\<lparr>routing_enable_request_preference_headers := py_truthy v\<rparr>),
     ov_int ov ''health.probe_interval_minutes'' (\<lambda>i s. s\<lparr>health_probe_interval_minutes := max i 1\<rparr>),
     ov_int ov ''health.probe_timeout_seconds'' (\<lambda>i s. s\<lparr>health_probe_timeout_seconds := max i 1\<rparr>),
     ov_int ov ''health.probe_concurrency'' (\<lambda>i s. s\<lparr>health_probe_concurrency := max i 1\<rparr>),
     ov_int ov ''health.startup_probe_limit'' (\<lambda>i s. s\<lparr>health_startup_probe_limit := i\<rparr>),
     ov_int ov ''health.max_probes_per_run'' (\<lambda>i s. s\<lparr>health_max_probes_per_run := max i 0\<rparr>),
     ov_int ov ''health.stale_after_minutes'' (\<lambda>i s. s\<lparr>health_stale_after_minutes := max i 1\<rparr>),
     ov_int ov ''health.top_n_stale_probe'' (\<lambda>i s. s\<lparr>health_top_n_stale_probe := max i 0\<rparr>),
     ov_int ov ''health.consecutive_failures_threshold''
       (\<lambda>i s. s\<lparr>health_consecutive_failures_threshold := max i 1\<rparr>),
     ov_int ov ''health.cooldown_minutes'' (\<lambda>i s. s\<lparr>health_cooldown_minutes := max i 1\<rparr>),
     ov_int ov ''health.max_backoff_exponent'' (\<lambda>i s. s\<lparr>health_max_backoff_exponent := max i 0\<rparr>),
     ov_int ov ''health.probe_max_tokens'' (\<lambda>i s. s\<lparr>health_probe_max_tokens := max i 1\<rparr>),
     ov_raw ov ''ranking.fallback_model'' (\<lambda>v s. s\<lparr>ranking_fallback_model := py_str py_repr v\<rparr>),
     ov_int ov ''logging.request_log_retention_days''
       (\<lambda>i s. s\<lparr>logging_request_log_retention_days := max i 1\<rparr>),
     ov_raw ov ''logging.runtime_enabled'' (\<lambda>v s. s\<lparr>logging_runtime_enabled := py_truthy v\<rparr>),
     ov_raw ov ''logging.runtime_verbosity'' (\<lambda>v s. s\<lparr>logging_runtime_verbosity := py_str py_repr v\<rparr>)]"

text \<open>The loop over all items, for the keys that name a provider.\<close>

definition provider_override_step :: "string \<times> json \<Rightarrow> settings_step" where
  "provider_override_step item s = (case item of (key, raw) \<Rightarrow>
     (case provider_from_active_probe_key key of
        Some p \<Rightarrow> Inr (s\<lparr>provider_active_probe_enabled :=
                           AList.update p (py_truthy raw) (provider_active_probe_enabled s),
                         openrouter_active_probe_enabled :=
                           (if p = ''openrouter'' then py_truthy raw else openrouter_active_probe_enabled s)\<rparr>)
      | None \<Rightarrow> (case provider_from_probe_budget_key key of
          None \<Rightarrow> Inr s
        | Some p \<Rightarrow> sbind (py_int_of raw) (\<lambda>i.
            Inr (s\<lparr>health_daily_request_budget_by_provider :=
                     AList.update p (max i 0) (health_daily_request_budget_by_provider s)\<rparr>)))))"

definition weight_override_step :: "(string \<Rightarrow> rat option) \<Rightarrow> overrides \<Rightarrow> string \<Rightarrow> settings_step" where
  "weight_override_step py_float ov key s = (case map_of ov (''ranking.weights.'' @ key) of
       None \<Rightarrow> Inr s
     | Some raw \<Rightarrow> sbind (py_float_of py_float raw) (\<lambda>w.
         Inr (s\<lparr>ranking_weights := AList.update key w (ranking_weights s)\<rparr>)))"

definition apply_overrides :: "cfg_env \<Rightarrow> overrides \<Rightarrow> settings \<Rightarrow> py_error + settings" where
  "apply_overrides ce ov =
     run_steps (scalar_override_steps (ce_repr ce) ov
       @ map provider_override_step ov
       @ map (weight_override_step (ce_float ce) ov) (map fst DEFAULT_RANKING_WEIGHTS))"

section \<open>Provider switches\<close>

definition known_provider_ids :: "settings \<Rightarrow> provider_id list" where
  "known_provider_ids s =
     sort (remdups (filter (\<lambda>p. p \<noteq> [])
       (providers_enabled s @ map fst (provider_enabled s) @ map fst (provider_discovery_enabled s)
        @ map fst (provider_inference_enabled s) @ map fst (provider_active_probe_enabled s)
        @ map fst (provider_bootstrap_config s)
        @ map fst (health_daily_request_budget_by_provider s) @ [''openrouter''])))"

definition supported_provider_ids :: "settings \<Rightarrow> provider_id list" where
  "supported_provider_ids s =
     sort (remdups (filter (\<lambda>p. p \<noteq> []) (map fst PROVIDER_DEFAULT_API_KEY_ENVS @ known_provider_ids s)))"

definition is_provider_enabled :: "settings \<Rightarrow> provider_id \<Rightarrow> bool" where
  "is_provider_enabled s p = (let n = py_strip p in
     n \<noteq> [] \<and> dict_get (provider_enabled s) n (n \<in> set (providers_enabled s)))"

definition is_provider_discovery_enabled :: "settings \<Rightarrow> provider_id \<Rightarrow> bool" where
  "is_provider_discovery_enabled s p = (let n = py_strip p; d = is_provider_enabled s n in
     n \<noteq> [] \<and> d \<and> dict_get (provider_discovery_enabled s) n d)"

definition is_provider_inference_enabled :: "settings \<Rightarrow> provider_id \<Rightarrow> bool" where
  "is_provider_inference_enabled s p = (let n = py_strip p; d = is_provider_enabled s n in
     n \<noteq> [] \<and> d \<and> dict_get (provider_inference_enabled s) n d)"

definition is_provider_active_probe_enabled :: "settings \<Rightarrow> provider_id \<Rightarrow> bool" where
  "is_provider_active_probe_enabled s p = (let n = py_strip p in
     n \<noteq> [] \<and> (if n = ''openrouter''
        then dict_get (provider_active_probe_enabled s) n (openrouter_active_probe_enabled s)
        else dict_get (provider_active_probe_enabled s) n True))"

definition get_provider_bootstrap_config :: "settings \<Rightarrow> provider_id \<Rightarrow> (string, json) dict" where
  "get_provider_bootstrap_config s p = (let n = py_strip p in
     if n = [] then [] else dict_get (provider_bootstrap_config s) n [])"

definition get_provider_api_key_env :: "(json \<Rightarrow> string) \<Rightarrow> settings \<Rightarrow> provider_id \<Rightarrow> string" where
  "get_provider_api_key_env py_repr s p = (let n = py_strip p in
     if n = [] then ''API_KEY''
     else let default_env = dict_get PROVIDER_DEFAULT_API_KEY_ENVS n ''API_KEY'';
              v = py_strip (py_str py_repr
                    (dict_get (get_provider_bootstrap_config s n) ''api_key_env'' (JStr default_env)))
          in if v = [] then default_env else v)"

text \<open>The decrypted managed secrets; the supported ids are read once, before the loop.\<close>

definition managed_secret_step :: "(string, string) dict \<Rightarrow> provider_id \<Rightarrow> settings \<Rightarrow> settings" where
  "managed_secret_step secrets p s =
     (if p = ''openrouter'' then s
      else case map_of secrets (''providers.'' @ p @ ''.api_key'') of
        None \<Rightarrow> s
      | Some v \<Rightarrow> s\<lparr>provider_bootstrap_config :=
          AList.update p (AList.update ''api_key'' (JStr v) (dict_get (provider_bootstrap_config s) p []))
            (provider_bootstrap_config s)\<rparr>)"

definition apply_managed_secrets :: "(string, string) dict \<Rightarrow> settings \<Rightarrow> settings" where
  "apply_managed_secrets secrets s =
     (let s1 = (case map_of secrets ''openrouter_api_key'' of
                  None \<Rightarrow> s | Some v \<Rightarrow> s\<lparr>openrouter_api_key := v\<rparr>)
      in fold (managed_secret_step secrets) (supported_provider_ids s1) s1)"

section \<open>The public view\<close>

definition jint_dict :: "(string, int) dict \<Rightarrow> json" where
  "jint_dict d = JObj (map (\<lambda>(k, v). (k, JInt v)) d)"

definition public_scalars :: "settings \<Rightarrow> (string, json) dict" where
  "public_scalars s =
    [(''gateway.host'', JStr (gateway_host s)),
     (''gateway.port'', JInt (gateway_port s)),
     (''gateway.workers'', JInt (gateway_workers s)),
     (''gateway.log_level'', JStr (gateway_log_level s)),
     (''database.path'', database_url s),
     (''database.busy_timeout_ms'', JInt (database_busy_timeout_ms s)),
     (''security.max_request_body_bytes'', JInt (gateway_max_request_body_bytes s)),
     (''security.max_upstream_response_bytes'', JInt (gateway_max_upstream_response_bytes s)),
     (''security.max_sse_event_bytes'', JInt (gateway_max_sse_event_bytes s)),
     (''security.stream_idle_timeout_seconds'', JInt (gateway_stream_idle_timeout_seconds s)),
     (''security.stream_total_timeout_seconds'', JInt (gateway_stream_total_timeout_seconds s)),
     (''security.auth_failure_limit'', JInt (security_auth_failure_limit s)),
     (''security.auth_failure_window_seconds'', JInt (security_auth_failure_window_seconds s)),
     (''security.auth_throttle_max_entries'', JInt (security_auth_throttle_max_entries s)),
     (''providers.enabled'', JList (map JStr (providers_enabled s))),
     (''providers.openrouter.dev_stub_enabled'', JBool (openrouter_dev_stub_enabled s)),
     (''discovery.interval_minutes'', JInt (discovery_interval_minutes s)),
     (''discovery.request_timeout_seconds'', JInt (discovery_request_timeout_seconds s)),
     (''discovery.leaderboard.chatbot_arena.enabled'', JBool (discovery_leaderboard_chatbot_arena_enabled s)),
     (''discovery.leaderboard.chatbot_arena.cache_hours'',
        JInt (discovery_leaderboard_chatbot_arena_cache_hours s)),
     (''discovery.leaderboard.open_llm.enabled'', JBool (discovery_leaderboard_open_llm_enabled s)),
     (''discovery.leaderboard.open_llm.cache_hours'', JInt (discovery_leaderboard_open_llm_cache_hours s)),
     (''ranking.interval_minutes'', JInt (ranking_interval_minutes s)),
     (''routing.max_attempts'', JInt (routing_max_attempts s)),
     (''routing.enable_request_preference_headers'', JBool (routing_enable_request_preference_headers s)),
     (''ranking.fallback_model'', JStr (ranking_fallback_model s)),
     (''ranking.weights'', JObj (map (\<lambda>(k, v). (k, JFloat v)) (ranking_weights s))),
     (''health.probe_interval_minutes'', JInt (health_probe_interval_minutes s)),
     (''health.probe_timeout_seconds'', JInt (health_probe_timeout_seconds s)),
     (''health.probe_concurrency'', JInt (health_probe_concurrency s)),
     (''health.max_probes_per_run'', JInt (health_max_probes_per_run s)),
     (''health.stale_after_minutes'', JInt (health_stale_after_minutes s)),
     (''health.top_n_stale_probe'', JInt (health_top_n_stale_probe s)),
     (''health.startup_probe_limit'', JInt (health_startup_probe_limit s)),
     (''health.consecutive_failures_threshold'', JInt (health_consecutive_failures_threshold s)),
     (''health.cooldown_minutes'', JInt (health_cooldown_minutes s)),
     (''health.max_backoff_exponent'', JInt (health_max_backoff_exponent s)),
     (''health.probe_max_tokens'', JInt (health_probe_max_tokens s)),
     (''health.daily_request_budget_by_provider'', jint_dict (health_daily_request_budget_by_provider s)),
     (''logging.request_log_enabled'', JBool (logging_request_log_enabled s)),
     (''logging.log_queue_size'', JInt (logging_log_queue_size s)),
     (''logging.request_log_retention_days'', JInt (logging_request_log_retention_days s)),
     (''logging.runtime_enabled'', JBool (logging_runtime_enabled s)),
     (''logging.runtime_verbosity'', JStr (logging_runtime_verbosity s)),
     (''logging.runtime_queue_size'', JInt (logging_runtime_queue_size s))]"

definition public_settings :: "settings \<Rightarrow> (string, json) dict" where
  "public_settings s = dict_update (public_scalars s)
     (concat (map (\<lambda>p.
        [(''providers.'' @ p @ ''.enabled'', JBool (is_provider_enabled s p)),
         (''providers.'' @ p @ ''.discovery_enabled'', JBool (is_provider_discovery_enabled s p)),
         (''providers.'' @ p @ ''.inference_enabled'', JBool (is_provider_inference_enabled s p)),
         (''providers.'' @ p @ ''.active_probe_enabled'', JBool (is_provider_active_probe_enabled s p))])
       (known_provider_ids s)))"

section \<open>Bounds of the configuration\<close>

text \<open>
  The lower bounds that reading the file and applying overrides both enforce. Not among them:
  \<open>routing_max_attempts\<close> (never bounded), the probe interval and time-out (bounded by overrides
  only), the start-up probe limit (bounded by the file only).
\<close>

definition settings_bounds :: "settings \<Rightarrow> bool" where
  "settings_bounds s =
    (1 \<le> gateway_port s \<and> 1 \<le> gateway_workers s \<and> 1 \<le> database_busy_timeout_ms s
     \<and> 1 \<le> discovery_interval_minutes s \<and> 1 \<le> discovery_request_timeout_seconds s
     \<and> 1 \<le> discovery_leaderboard_chatbot_arena_cache_hours s
     \<and> 1 \<le> discovery_leaderboard_open_llm_cache_hours s \<and> 1 \<le> ranking_interval_minutes s
     \<and> 1 \<le> health_probe_concurrency s \<and> 0 \<le> health_max_probes_per_run s
     \<and> 1 \<le> health_stale_after_minutes s \<and> 0 \<le> health_top_n_stale_probe s
     \<and> 1 \<le> health_consecutive_failures_threshold s \<and> 1 \<le> health_cooldown_minutes s
     \<and> 0 \<le> health_max_backoff_exponent s \<and> 1 \<le> health_probe_max_tokens s
     \<and> 1 \<le> logging_log_queue_size s \<and> 1 \<le> logging_request_log_retention_days s
     \<and> 1 \<le> logging_runtime_queue_size s \<and> 1024 \<le> gateway_max_request_body_bytes s
     \<and> 1024 \<le> gateway_max_upstream_response_bytes s \<and> 1024 \<le> gateway_max_sse_event_bytes s
     \<and> 1 \<le> gateway_stream_idle_timeout_seconds s \<and> 1 \<le> gateway_stream_total_timeout_seconds s
     \<and> 1 \<le> security_auth_failure_limit s \<and> 1 \<le> security_auth_failure_window_seconds s
     \<and> 1 \<le> security_auth_throttle_max_entries s)"

lemma keeps_steps:
  assumes "\<And>s v. P s \<Longrightarrow> P (upd v s)"
  shows "keeps P (set_raw sec key d upd)"
  by (rule keepsI) (auto simp: set_raw_def sbind_Inr intro: assms)

lemma keeps_int_steps:
  assumes "\<And>s i. P s \<Longrightarrow> P (upd i s)"
  shows "keeps P (set_int sec key d upd)" "keeps P (set_env_int ce nm sec key d upd)"
    "keeps P (ov_int ov key upd)"
    apply (rule keepsI; auto simp: set_int_def sbind_Inr intro: assms)
   apply (rule keepsI; auto simp: set_env_int_def sbind_Inr simp del: py_int_of.simps intro: assms)
  apply (rule keepsI; auto simp: ov_int_def sbind_Inr intro: assms split: option.splits)
  done

lemma keeps_pure_step: "(\<And>s. P s \<Longrightarrow> P (upd s)) \<Longrightarrow> keeps P (set_pure upd)"
  by (rule keepsI) (auto simp: set_pure_def)

lemma keeps_ov_raw: "(\<And>s v. P s \<Longrightarrow> P (upd v s)) \<Longrightarrow> keeps P (ov_raw ov key upd)"
  by (rule keepsI) (auto simp: ov_raw_def split: option.splits)

lemmas keeps_step_rules = keeps_steps keeps_int_steps keeps_pure_step keeps_ov_raw

lemma bounds_field_defaults: "settings_bounds field_defaults"
  by (simp add: settings_bounds_def field_defaults_def)

lemma bounds_gateway_steps: "list_all (keeps settings_bounds) (gateway_steps ce gw db)"
  unfolding gateway_steps_def list.pred_inject
  by (intro conjI TrueI keeps_step_rules) (simp_all add: settings_bounds_def)

lemma bounds_discovery_steps: "list_all (keeps settings_bounds) (discovery_steps ce op d c l)"
  unfolding discovery_steps_def list.pred_inject
  by (intro conjI TrueI keeps_step_rules) (simp_all add: settings_bounds_def)

lemma bounds_ranking_steps: "list_all (keeps settings_bounds) (ranking_steps ce op r u w)"
  unfolding ranking_steps_def list.pred_inject
  by (intro conjI TrueI keeps_step_rules) (simp_all add: settings_bounds_def)

lemma bounds_health_steps: "list_all (keeps settings_bounds) (health_steps ce h b)"
  unfolding health_steps_def list.pred_inject
  by (intro conjI TrueI keeps_step_rules) (simp_all add: settings_bounds_def)

lemma bounds_logging_steps: "list_all (keeps settings_bounds) (logging_steps ce l sec)"
  unfolding logging_steps_def list.pred_inject
  by (intro conjI TrueI keeps_step_rules) (simp_all add: settings_bounds_def)

lemma bounds_scalar_overrides: "list_all (keeps settings_bounds) (scalar_override_steps r ov)"
  unfolding scalar_override_steps_def list.pred_inject
  by (intro conjI TrueI keeps_step_rules) (simp_all add: settings_bounds_def)

lemma bounds_provider_switches: "settings_bounds (provider_switches ce secs en s) = settings_bounds s"
  by (simp add: provider_switches_def settings_bounds_def Let_def)

lemma bounds_post_init: "settings_bounds (post_init s) = settings_bounds s"
  by (simp add: post_init_def settings_bounds_def Let_def)

lemma bounds_provider_override: "keeps settings_bounds (provider_override_step item)"
  by (rule keepsI, cases item)
    (auto simp: provider_override_step_def sbind_Inr settings_bounds_def split: option.splits)

lemma bounds_weight_override: "keeps settings_bounds (weight_override_step pf ov key)"
  by (rule keepsI) (auto simp: weight_override_step_def sbind_Inr settings_bounds_def split: option.splits)

lemma bounds_from_env: "from_env ce f = Inr s \<Longrightarrow> settings_bounds s"
proof -
  assume "from_env ce f = Inr s"
  then obtain gw db secs en o' d c l rk rt w h b lg sc s1 where
    run: "run_steps (gateway_steps ce gw db @ [set_pure (provider_switches ce secs en)]
       @ discovery_steps ce o' d c l @ ranking_steps ce o' rk rt w @ health_steps ce h b
       @ logging_steps ce lg sc) field_defaults = Inr s1" and s: "s = post_init s1"
    by (auto simp: from_env_def Let_def sbind_Inr)
  have "keeps settings_bounds (run_steps (gateway_steps ce gw db @ [set_pure (provider_switches ce secs en)]
       @ discovery_steps ce o' d c l @ ranking_steps ce o' rk rt w @ health_steps ce h b
       @ logging_steps ce lg sc))"
    by (rule run_steps_keeps)
      (simp add: bounds_gateway_steps bounds_discovery_steps bounds_ranking_steps bounds_health_steps
        bounds_logging_steps bounds_provider_switches keeps_pure_step)
  from keepsD [OF this bounds_field_defaults run] show ?thesis by (simp add: s bounds_post_init)
qed

lemma bounds_apply_overrides: "keeps settings_bounds (apply_overrides ce ov)"
  unfolding apply_overrides_def
  by (rule run_steps_keeps)
    (use bounds_scalar_overrides in \<open>auto simp: list_all_iff bounds_provider_override bounds_weight_override\<close>)

text \<open>
  C17 (bounds). Whatever the file, the environment and the stored overrides hold, settings that
  load and accept the overrides satisfy every lower bound of \<open>settings_bounds\<close>: ports, time-outs,
  intervals and limits are at least one, sizes at least 1024 bytes, probe counts and the backoff
  exponent not negative.
\<close>

theorem loaded_settings_bounded:
  assumes "from_env ce f = Inr s" and "apply_overrides ce ov s = Inr s'"
  shows "settings_bounds s'"
  using assms bounds_apply_overrides bounds_from_env by (blast dest: keepsD)

definition plain_env :: cfg_env where
  "plain_env = \<lparr>ce_repr = (\<lambda>_. ''?''), ce_float = (\<lambda>_. None), ce_getenv = (\<lambda>_. None)\<rparr>"

lemmas config_eval = getd_def set_raw_def set_int_def set_env_int_def set_pure_def ov_int_def ov_raw_def
  plain_env_def env_bool_def dict_get_def subsection_of_def coerce_provider_sections_def
  coerce_string_list_def coerce_float_mapping_def coerce_int_mapping_def py_or_def

lemma from_env_no_file: "\<exists>s. from_env plain_env None = Inr s"
  by (simp add: from_env_def config_eval gateway_steps_def discovery_steps_def ranking_steps_def
      health_steps_def logging_steps_def Let_def)

theorem loaded_settings_bounded_witness:
  "\<exists>s s'. from_env plain_env None = Inr s
     \<and> apply_overrides plain_env [(''health.cooldown_minutes'', JInt 0)] s = Inr s' \<and> settings_bounds s'"
proof -
  obtain s where s: "from_env plain_env None = Inr s" using from_env_no_file by blast
  have "\<exists>s'. apply_overrides plain_env [(''health.cooldown_minutes'', JInt 0)] s = Inr s'"
    by (simp add: apply_overrides_def scalar_override_steps_def config_eval provider_override_step_def
        provider_from_active_probe_key_def provider_from_probe_budget_key_def between_def
        py_startswith_def weight_override_step_def DEFAULT_RANKING_WEIGHTS_def)
  with s loaded_settings_bounded [OF s] show ?thesis by blast
qed

section \<open>Secrets\<close>

lemma public_scalars_cong:
  "public_scalars (s\<lparr>openrouter_api_key := k, gateway_api_key := g, provider_bootstrap_config := b\<rparr>)
   = public_scalars s"
  by (simp add: public_scalars_def)

lemma known_provider_ids_cong:
  "map fst b = map fst (provider_bootstrap_config s) \<Longrightarrow>
   known_provider_ids (s\<lparr>openrouter_api_key := k, gateway_api_key := g, provider_bootstrap_config := b\<rparr>)
   = known_provider_ids s"
  by (simp add: known_provider_ids_def)

lemma provider_switches_cong:
  assumes "s' = s\<lparr>openrouter_api_key := k, gateway_api_key := g, provider_bootstrap_config := b\<rparr>"
  shows "is_provider_enabled s' = is_provider_enabled s"
    "is_provider_discovery_enabled s' = is_provider_discovery_enabled s"
    "is_provider_inference_enabled s' = is_provider_inference_enabled s"
    "is_provider_active_probe_enabled s' = is_provider_active_probe_enabled s"
  unfolding assms
  by (rule ext, simp add: is_provider_enabled_def is_provider_discovery_enabled_def
      is_provider_inference_enabled_def is_provider_active_probe_enabled_def Let_def)+

text \<open>
  The settings page reveals no secret: replacing the OpenRouter key, the gateway key
  and the content of every provider section (its \<open>api_key\<close> included), with the same providers
  configured, leaves the public view unchanged.
\<close>

theorem public_settings_hide_secrets:
  assumes "map fst b = map fst (provider_bootstrap_config s)"
  shows "public_settings
      (s\<lparr>openrouter_api_key := k, gateway_api_key := g, provider_bootstrap_config := b\<rparr>)
    = public_settings s"
  unfolding public_settings_def public_scalars_cong known_provider_ids_cong [OF assms]
    provider_switches_cong [OF refl] ..

theorem public_settings_hide_secrets_witness:
  "public_settings (default_settings\<lparr>openrouter_api_key := ''sk-1'', gateway_api_key := ''g'',
      provider_bootstrap_config := [(''openrouter'', [(''api_key'', JStr ''sk-2'')])]\<rparr>)
   = public_settings default_settings"
  by (rule public_settings_hide_secrets)
    (simp add: default_settings_def post_init_def field_defaults_def Let_def setdefault_def has_key_def
      coerce_provider_bootstrap_config_def)

lemma managed_secret_fold_other:
  "p \<notin> set ps \<Longrightarrow> dict_get (provider_bootstrap_config (fold (managed_secret_step secrets) ps s)) p d
   = dict_get (provider_bootstrap_config s) p d"
  by (induction ps arbitrary: s) (auto simp: managed_secret_step_def split: option.splits)

lemma managed_secret_fold:
  assumes "p \<in> set ps" and "p \<noteq> ''openrouter''" and "distinct ps"
    and "map_of secrets (''providers.'' @ p @ ''.api_key'') = Some v"
  shows "dict_get (dict_get (provider_bootstrap_config (fold (managed_secret_step secrets) ps s)) p [])
    ''api_key'' JNull = JStr v"
  using assms
proof (induction ps arbitrary: s)
  case (Cons q ps)
  show ?case
  proof (cases "q = p")
    case True
    have "dict_get (dict_get (provider_bootstrap_config (managed_secret_step secrets p s)) p [])
        ''api_key'' JNull = JStr v"
      unfolding managed_secret_step_def using Cons.prems(2,4) by simp
    with True Cons.prems(3) managed_secret_fold_other [of p ps secrets] show ?thesis by simp
  next
    case False
    with Cons show ?thesis by simp
  qed
qed simp

text \<open>
  After the managed secrets are applied, the bootstrap section of every supported
  provider other than OpenRouter with a stored secret carries that secret as its \<open>api_key\<close>, also
  when the file had another key or no section for it.
\<close>

theorem managed_secret_reaches_provider:
  assumes "p \<in> set (supported_provider_ids s)" and "p \<noteq> ''openrouter''" and "py_strip p = p"
    and "map_of secrets (''providers.'' @ p @ ''.api_key'') = Some v"
  shows "dict_get (get_provider_bootstrap_config (apply_managed_secrets secrets s) p) ''api_key'' JNull
    = JStr v"
proof -
  define s1 where "s1 = (case map_of secrets ''openrouter_api_key'' of
                  None \<Rightarrow> s | Some v \<Rightarrow> s\<lparr>openrouter_api_key := v\<rparr>)"
  have ids: "supported_provider_ids s1 = supported_provider_ids s"
    by (simp add: s1_def supported_provider_ids_def known_provider_ids_def split: option.split)
  moreover have "p \<noteq> []" "distinct (supported_provider_ids s)"
    using assms(1) by (auto simp: supported_provider_ids_def)
  ultimately show ?thesis
    using managed_secret_fold [of p "supported_provider_ids s" secrets v s1] assms
    by (simp add: get_provider_bootstrap_config_def apply_managed_secrets_def Let_def flip: s1_def)
qed

theorem managed_secret_reaches_provider_witness:
  "dict_get (get_provider_bootstrap_config
      (apply_managed_secrets [(''providers.groq.api_key'', ''sk'')] default_settings) ''groq'') ''api_key'' JNull
   = JStr ''sk''"
  by (rule managed_secret_reaches_provider)
    (simp_all add: supported_provider_ids_def PROVIDER_DEFAULT_API_KEY_ENVS_def py_strip_def py_lstrip_def
      chr_isspace_def code_def)

end
