(* ===== verification/FL_Adapters.thy ===== *)
theory FL_Adapters
  imports FL_Providers FL_Config
begin

text \<open>
  The adapters below \<open>src/providers/\<close> as far as they do not wait for the network: the check of a
  provider's API base URL, the resolution of credentials, the factories of the shipped provider
  modules, and the translation of a provider's model list and chat answer into the gateway's
  own rows.

  URL splitting is that of \<open>urllib.parse.urlsplit\<close> on Latin-1 text; the recognition of IPv6
  literals (\<open>ipaddress\<close>) is a parameter, since such a host can only come from brackets.
\<close>

section \<open>URL splitting\<close>

definition partition_at :: "char \<Rightarrow> string \<Rightarrow> string \<times> bool \<times> string" where
  "partition_at c s = (takeWhile (\<lambda>d. d \<noteq> c) s, c \<in> set s, drop 1 (dropWhile (\<lambda>d. d \<noteq> c) s))"

definition rpartition_at :: "char \<Rightarrow> string \<Rightarrow> string \<times> bool \<times> string" where
  "rpartition_at c s = (if c \<notin> set s then ([], False, s)
     else (rev (drop 1 (dropWhile (\<lambda>d. d \<noteq> c) (rev s))), True, rev (takeWhile (\<lambda>d. d \<noteq> c) (rev s))))"

record url_parts =
  u_scheme :: string
  u_netloc :: string
  u_query :: string
  u_fragment :: string

definition scheme_char :: "char \<Rightarrow> bool" where
  "scheme_char c = (let n = code c in
     65 \<le> n \<and> n \<le> 90 \<or> 97 \<le> n \<and> n \<le> 122 \<or> 48 \<le> n \<and> n \<le> 57 \<or> c = CHR ''+'' \<or> c = CHR ''-'' \<or> c = CHR ''.'')"

definition ascii_letter :: "char \<Rightarrow> bool" where
  "ascii_letter c = (let n = code c in 65 \<le> n \<and> n \<le> 90 \<or> 97 \<le> n \<and> n \<le> 122)"

definition split_scheme :: "string \<Rightarrow> string \<times> string" where
  "split_scheme url = (case partition_at (CHR '':'') url of
       (scheme, found, rest) \<Rightarrow>
         if found \<and> scheme \<noteq> [] \<and> ascii_letter (hd scheme) \<and> list_all scheme_char scheme
         then (py_lower scheme, rest) else ([], url))"

definition urlsplit :: "(string \<Rightarrow> bool) \<Rightarrow> string \<Rightarrow> py_error + url_parts" where
  "urlsplit valid_brackets url0 =
    (let url1 = filter (\<lambda>c. code c \<notin> {9, 10, 13}) (dropWhile (\<lambda>c. code c \<le> 32) url0);
         (scheme, url2) = split_scheme url1;
         has_netloc = py_startswith url2 ''//'';
         netloc = (if has_netloc then takeWhile (\<lambda>c. c \<notin> set ''/?#'') (drop 2 url2) else []);
         url3 = (if has_netloc then dropWhile (\<lambda>c. c \<notin> set ''/?#'') (drop 2 url2) else url2);
         (url4, _, fragment) = partition_at (CHR ''#'') url3;
         (path, _, query) = partition_at (CHR ''?'') url4;
         opening = CHR ''['' \<in> set netloc; closing = CHR '']'' \<in> set netloc
     in if opening \<noteq> closing \<or> opening \<and> \<not> valid_brackets netloc then Inl ValueError
        else Inr \<lparr>u_scheme = scheme, u_netloc = netloc, u_query = query, u_fragment = fragment\<rparr>)"

definition u_hostinfo :: "url_parts \<Rightarrow> string \<times> string" where
  "u_hostinfo u =
    (let (_, _, hostinfo) = rpartition_at (CHR ''@'') (u_netloc u);
         (_, bracket, bracketed) = partition_at (CHR ''['') hostinfo
     in if bracket
        then (let (host, _, rest) = partition_at (CHR '']'') bracketed; (_, _, port) = partition_at (CHR '':'') rest
              in (host, port))
        else (let (host, _, port) = partition_at (CHR '':'') hostinfo in (host, port)))"

definition u_hostname :: "url_parts \<Rightarrow> string option" where
  "u_hostname u = (let host = fst (u_hostinfo u); (name, percent, zone) = partition_at (CHR ''%'') host in
     if host = [] then None else Some (py_lower name @ (if percent then ''%'' else []) @ zone))"

definition u_port :: "url_parts \<Rightarrow> py_error + int option" where
  "u_port u = (let port = snd (u_hostinfo u) in
     if port = [] then Inr None
     else if \<not> list_all chr_is_ascii_digit port then Inl ValueError
     else let n = digits_value 0 port in if n \<le> 65535 then Inr (Some n) else Inl ValueError)"

definition u_has_userinfo :: "url_parts \<Rightarrow> bool" where
  "u_has_userinfo u = (CHR ''@'' \<in> set (u_netloc u))"

section \<open>Approved API bases\<close>

fun split_on :: "char \<Rightarrow> string \<Rightarrow> string list" where
  "split_on c [] = [[]]"
| "split_on c (d # ds) = (if d = c then [] # split_on c ds
     else (case split_on c ds of [] \<Rightarrow> [[d]] | p # ps \<Rightarrow> (d # p) # ps))"

definition ipv4_octet :: "string \<Rightarrow> bool" where
  "ipv4_octet s = (s \<noteq> [] \<and> length s \<le> 3 \<and> list_all chr_is_ascii_digit s \<and> (hd s = CHR ''0'' \<longrightarrow> length s = 1)
     \<and> digits_value 0 s \<le> 255)"

definition is_ipv4 :: "string \<Rightarrow> bool" where
  "is_ipv4 s = (let octets = split_on (CHR ''.'') s in length octets = 4 \<and> list_all ipv4_octet octets)"

record url_env =
  ue_valid_brackets :: "string \<Rightarrow> bool"
  ue_is_ipv6 :: "string \<Rightarrow> bool"

definition is_ip_address :: "url_env \<Rightarrow> string \<Rightarrow> bool" where
  "is_ip_address ue host = (is_ipv4 host \<or> CHR '':'' \<in> set host \<and> ue_is_ipv6 ue host)"

definition KNOWN_PROVIDER_API_HOSTS :: "(provider_id, string list) dict" where
  "KNOWN_PROVIDER_API_HOSTS =
    [(''openai'', [''api.openai.com'']), (''together'', [''api.together.xyz'']), (''groq'', [''api.groq.com'']),
     (''deepseek'', [''api.deepseek.com'']), (''xai'', [''api.x.ai'']), (''cerebras'', [''api.cerebras.ai'']),
     (''perplexity'', [''api.perplexity.ai'']), (''nvidia'', [''integrate.api.nvidia.com'']),
     (''openrouter'', [''openrouter.ai''])]"

definition url_invalid_char :: "char \<Rightarrow> bool" where
  "url_invalid_char c = (code c < 32 \<or> 127 \<le> code c \<and> code c \<le> 159)"

definition is_local_host :: "string \<Rightarrow> bool" where
  "is_local_host host = (host = ''localhost'' \<or> py_endswith host ''.localhost'' \<or> py_endswith host ''.local''
     \<or> py_endswith host ''.internal'')"

text \<open>The checks, in the order of the source; each raises \<open>ValueError\<close>.\<close>

definition base_rejected :: "url_env \<Rightarrow> provider_id \<Rightarrow> bool \<Rightarrow> string \<Rightarrow> url_parts \<Rightarrow> int option \<Rightarrow> string \<Rightarrow> bool" where
  "base_rejected ue provider_id allow_custom_api_base val parsed port hostname =
    (let normalized_host = py_rstrip_char (CHR ''.'') (py_lower hostname) in
     py_lower (u_scheme parsed) \<noteq> ''https''
     \<or> u_has_userinfo parsed
     \<or> u_fragment parsed \<noteq> [] \<or> u_query parsed \<noteq> [] \<or> CHR ''#'' \<in> set val \<or> CHR ''?'' \<in> set val
     \<or> port \<noteq> None \<and> port \<noteq> Some 443
     \<or> CHR 0x5C \<in> set val \<or> list_ex url_invalid_char val
     \<or> is_ip_address ue normalized_host
     \<or> is_local_host normalized_host
     \<or> normalized_host \<notin> set (dict_get KNOWN_PROVIDER_API_HOSTS (py_lower provider_id) []) \<and> \<not> allow_custom_api_base)"

definition validate_provider_api_base :: "url_env \<Rightarrow> provider_id \<Rightarrow> string \<Rightarrow> bool \<Rightarrow> py_error + string" where
  "validate_provider_api_base ue provider_id api_base allow_custom_api_base =
    (let val = py_strip api_base in
     sbind (urlsplit (ue_valid_brackets ue) val) (\<lambda>parsed.
     sbind (u_port parsed) (\<lambda>port.
       case u_hostname parsed of
         None \<Rightarrow> Inl ValueError
       | Some hostname \<Rightarrow>
           if base_rejected ue provider_id allow_custom_api_base val parsed port hostname then Inl ValueError
           else Inr val)))"

text \<open>The host a URL sends requests to.\<close>

definition url_host :: "url_env \<Rightarrow> string \<Rightarrow> string option" where
  "url_host ue url = (case urlsplit (ue_valid_brackets ue) url of
       Inl e \<Rightarrow> None
     | Inr u \<Rightarrow> map_option (\<lambda>h. py_rstrip_char (CHR ''.'') (py_lower h)) (u_hostname u))"

definition is_https :: "url_env \<Rightarrow> string \<Rightarrow> bool" where
  "is_https ue url = (case urlsplit (ue_valid_brackets ue) url of Inl e \<Rightarrow> False | Inr u \<Rightarrow> u_scheme u = ''https'')"

definition approved_base :: "url_env \<Rightarrow> provider_id \<Rightarrow> string \<Rightarrow> bool" where
  "approved_base ue p url = (is_https ue url
     \<and> (case url_host ue url of None \<Rightarrow> False | Some h \<Rightarrow> h \<in> set (dict_get KNOWN_PROVIDER_API_HOSTS (py_lower p) [])))"

lemma urlsplit_scheme_lower:
  "urlsplit vb url = Inr u \<Longrightarrow> py_lower (u_scheme u) = u_scheme u"
  by (auto simp: urlsplit_def split_scheme_def Let_def case_prod_beta split: if_splits)

lemma validate_facts:
  assumes "validate_provider_api_base ue p base allow = Inr v"
  obtains parsed port hostname where "v = py_strip base" and "urlsplit (ue_valid_brackets ue) v = Inr parsed"
    and "u_port parsed = Inr port" and "u_hostname parsed = Some hostname"
    and "\<not> base_rejected ue p allow v parsed port hostname"
  using assms by (auto simp: validate_provider_api_base_def sbind_Inr Let_def split: option.splits if_splits)

lemma validate_approved:
  assumes "validate_provider_api_base ue p base False = Inr v"
  shows "approved_base ue p v"
proof -
  from assms obtain parsed port hostname where u: "urlsplit (ue_valid_brackets ue) v = Inr parsed"
    and h: "u_hostname parsed = Some hostname" and ok: "\<not> base_rejected ue p False v parsed port hostname"
    by (rule validate_facts)
  from ok have "u_scheme parsed = ''https''"
    and "py_rstrip_char (CHR ''.'') (py_lower hostname) \<in> set (dict_get KNOWN_PROVIDER_API_HOSTS (py_lower p) [])"
    using urlsplit_scheme_lower [OF u] unfolding base_rejected_def Let_def by metis+
  with u h show ?thesis by (simp add: approved_base_def is_https_def url_host_def)
qed

section \<open>Credentials and factories\<close>

text \<open>What the rest of the program sees of an adapter, with the key and the base it sends to.\<close>

record adapter =
  ad_name :: string
  ad_has_probe :: bool
  ad_categorize_error :: categorizer
  ad_discovery_available :: bool
  ad_inference_available :: bool
  ad_api_key :: string
  ad_api_base :: string
  ad_api_key_env :: string

definition non_empty_or :: "string \<Rightarrow> string \<Rightarrow> string" where
  "non_empty_or s dflt = (if s = [] then dflt else s)"

definition config_text :: "cfg_env \<Rightarrow> (string, json) dict \<Rightarrow> string \<Rightarrow> json \<Rightarrow> string" where
  "config_text ce provider_config key dflt = py_strip (py_str (ce_repr ce) (dict_get provider_config key dflt))"

definition allows_custom_base :: "(string, json) dict \<Rightarrow> bool" where
  "allows_custom_base provider_config = (jget provider_config ''allow_custom_api_base'' = JBool True)"

definition resolve_openai_compatible_credentials ::
  "cfg_env \<Rightarrow> url_env \<Rightarrow> (string, json) dict \<Rightarrow> provider_id \<Rightarrow> string \<Rightarrow> string
   \<Rightarrow> py_error + string \<times> string \<times> string" where
  "resolve_openai_compatible_credentials ce ue provider_config provider_id default_api_base default_api_key_env =
    sbind (validate_provider_api_base ue provider_id
        (non_empty_or (config_text ce provider_config ''api_base'' (JStr default_api_base)) default_api_base)
        (allows_custom_base provider_config)) (\<lambda>api_base.
      let api_key_env = non_empty_or (config_text ce provider_config ''api_key_env'' (JStr default_api_key_env))
            default_api_key_env;
          from_env = (case ce_getenv ce api_key_env of None \<Rightarrow> [] | Some v \<Rightarrow> v);
          api_key = (if from_env = [] then config_text ce provider_config ''api_key'' (JStr []) else from_env)
      in Inr (api_key, api_base, api_key_env))"

definition openai_compatible_adapter :: "provider_id \<Rightarrow> string \<Rightarrow> string \<Rightarrow> string \<Rightarrow> adapter" where
  "openai_compatible_adapter name api_key api_base api_key_env =
    \<lparr>ad_name = name, ad_has_probe = True, ad_categorize_error = categorize_openai_compatible_error,
     ad_discovery_available = (api_key \<noteq> []), ad_inference_available = (api_key \<noteq> []),
     ad_api_key = api_key, ad_api_base = py_rstrip_char (CHR ''/'') api_base, ad_api_key_env = api_key_env\<rparr>"

type_synonym adapter_factory = "cfg_env \<Rightarrow> url_env \<Rightarrow> (string, json) dict \<Rightarrow> py_error + adapter"

definition compatible_factory :: "provider_id \<Rightarrow> string \<Rightarrow> string \<Rightarrow> adapter_factory" where
  "compatible_factory p default_env default_base ce ue provider_config =
    sbind (resolve_openai_compatible_credentials ce ue provider_config p default_base default_env)
      (\<lambda>(api_key, api_base, api_key_env). Inr (openai_compatible_adapter p api_key api_base api_key_env))"

text \<open>The modules of the shipped OpenAI-compatible providers: class constants and factory.\<close>

definition openai_build_provider_adapter :: adapter_factory where
  "openai_build_provider_adapter = compatible_factory ''openai'' ''OPENAI_API_KEY'' ''https://api.openai.com/v1''"

definition together_build_provider_adapter :: adapter_factory where
  "together_build_provider_adapter = compatible_factory ''together'' ''TOGETHER_API_KEY'' ''https://api.together.xyz/v1''"

definition groq_build_provider_adapter :: adapter_factory where
  "groq_build_provider_adapter = compatible_factory ''groq'' ''GROQ_API_KEY'' ''https://api.groq.com/openai/v1''"

definition deepseek_build_provider_adapter :: adapter_factory where
  "deepseek_build_provider_adapter = compatible_factory ''deepseek'' ''DEEPSEEK_API_KEY'' ''https://api.deepseek.com/v1''"

definition xai_build_provider_adapter :: adapter_factory where
  "xai_build_provider_adapter = compatible_factory ''xai'' ''XAI_API_KEY'' ''https://api.x.ai/v1''"

definition cerebras_build_provider_adapter :: adapter_factory where
  "cerebras_build_provider_adapter = compatible_factory ''cerebras'' ''CEREBRAS_API_KEY'' ''https://api.cerebras.ai/v1''"

definition perplexity_build_provider_adapter :: adapter_factory where
  "perplexity_build_provider_adapter = compatible_factory ''perplexity'' ''PERPLEXITY_API_KEY'' ''https://api.perplexity.ai''"

definition nvidia_build_provider_adapter :: adapter_factory where
  "nvidia_build_provider_adapter = compatible_factory ''nvidia'' ''NVIDIA_API_KEY'' ''https://integrate.api.nvidia.com/v1''"

definition PROVIDER_MODULES :: "(provider_id, adapter_factory) dict" where
  "PROVIDER_MODULES =
    [(''openai'', openai_build_provider_adapter),
     (''together'', together_build_provider_adapter),
     (''groq'', groq_build_provider_adapter),
     (''deepseek'', deepseek_build_provider_adapter),
     (''xai'', xai_build_provider_adapter),
     (''cerebras'', cerebras_build_provider_adapter),
     (''perplexity'', perplexity_build_provider_adapter),
     (''nvidia'', nvidia_build_provider_adapter)]"

definition openrouter_adapter :: "string \<Rightarrow> string \<Rightarrow> bool \<Rightarrow> adapter" where
  "openrouter_adapter api_key api_base dev_stub_enabled =
    (let available = (api_key \<noteq> [] \<or> dev_stub_enabled) in
     \<lparr>ad_name = ''openrouter'', ad_has_probe = True, ad_categorize_error = categorize_openrouter_error,
      ad_discovery_available = available, ad_inference_available = available,
      ad_api_key = api_key, ad_api_base = py_rstrip_char (CHR ''/'') api_base,
      ad_api_key_env = ''OPENROUTER_API_KEY''\<rparr>)"

definition openrouter_adapter_factory ::
  "cfg_env \<Rightarrow> url_env \<Rightarrow> settings \<Rightarrow> (string, json) dict \<Rightarrow> py_error + adapter" where
  "openrouter_adapter_factory ce ue s config =
    (let configured = config_text ce config ''api_base'' (openrouter_api_base s) in
     sbind (if configured \<noteq> [] then Inr configured
            else case openrouter_api_base s of JStr b \<Rightarrow> Inr b | v \<Rightarrow> Inl AttributeError) (\<lambda>api_base.
     sbind (validate_provider_api_base ue ''openrouter'' api_base (allows_custom_base config)) (\<lambda>base.
       let dev_stub = py_truthy (dict_get config ''dev_stub_enabled'' (JBool (openrouter_dev_stub_enabled s)))
       in Inr (openrouter_adapter (openrouter_api_key s) base (app_env s = ''dev'' \<and> dev_stub)))))"

text \<open>
  The bootstrap descriptor of an identifier: the built-in one, a shipped module, or nothing. A
  dotted name imports its parent first, and the error of a missing parent is not swallowed.
\<close>

definition MODULES_WITHOUT_FACTORY :: "string list" where
  "MODULES_WITHOUT_FACTORY = [''__init__'', ''base'', ''openai_compatible'', ''openrouter'', ''registry'']"

definition descriptor_import_fails :: "provider_id \<Rightarrow> bool" where
  "descriptor_import_fails p =
    (let parts = split_on (CHR ''.'') p in
     1 < length parts
     \<and> (hd parts \<notin> set (MODULES_WITHOUT_FACTORY @ map fst PROVIDER_MODULES) \<or> 2 < length parts))"

definition bootstrap_adapter ::
  "cfg_env \<Rightarrow> url_env \<Rightarrow> settings \<Rightarrow> provider_id \<Rightarrow> (py_error + adapter) option" where
  "bootstrap_adapter ce ue s p =
    (if p = ''openrouter'' then Some (openrouter_adapter_factory ce ue s (get_provider_bootstrap_config s p))
     else case map_of PROVIDER_MODULES p of
       Some factory \<Rightarrow> Some (factory ce ue (get_provider_bootstrap_config s p))
     | None \<Rightarrow> None)"

end
