(* ===== verification/FL_Registry.thy ===== *)
theory FL_Registry
  imports FL_Adapters
begin

text \<open>
  The provider registry (\<open>src/providers/registry.py\<close>) and its gating by configuration and
  adapter state (\<open>_sync_registry_runtime_gating\<close> of \<open>src/main.py\<close>). Every adapter is built from
  the settings by its module's factory, and its base URL is validated before and after.
\<close>

record registered_provider =
  rg_name :: string
  rg_adapter :: adapter
  rg_discovery_enabled :: bool
  rg_inference_enabled :: bool

type_synonym registry = "(string, registered_provider) dict"

definition registry_register ::
  "adapter \<Rightarrow> string option \<Rightarrow> bool \<Rightarrow> bool \<Rightarrow> registry \<Rightarrow> py_error + registry" where
  "registry_register ad name discovery_enabled inference_enabled reg =
    (let provider_name = py_strip (case name of Some n \<Rightarrow> if n = [] then ad_name ad else n | None \<Rightarrow> ad_name ad) in
     if provider_name = [] then Inl ValueError
     else Inr (AList.update provider_name
       \<lparr>rg_name = provider_name, rg_adapter = ad, rg_discovery_enabled = discovery_enabled,
        rg_inference_enabled = inference_enabled\<rparr> reg))"

text \<open>
  The registrations by name, with the adapter of the provider built from a key and a base. An
  empty base is the class constant. Nothing validates the base here.
\<close>

type_synonym named_registration = "string \<Rightarrow> string \<Rightarrow> bool \<Rightarrow> bool \<Rightarrow> registry \<Rightarrow> py_error + registry"

definition register_openrouter :: "bool \<Rightarrow> named_registration" where
  "register_openrouter dev_stub_enabled api_key api_base discovery_enabled inference_enabled =
    registry_register (openrouter_adapter api_key api_base dev_stub_enabled) (Some ''openrouter'')
      discovery_enabled inference_enabled"

definition register_compatible :: "string \<Rightarrow> string \<Rightarrow> string \<Rightarrow> named_registration" where
  "register_compatible name api_key_env default_api_base api_key api_base discovery_enabled inference_enabled =
    registry_register (openai_compatible_adapter name api_key (non_empty_or api_base default_api_base) api_key_env)
      (Some name) discovery_enabled inference_enabled"

definition register_openai :: named_registration where
  "register_openai = register_compatible ''openai'' ''OPENAI_API_KEY'' ''https://api.openai.com/v1''"

definition register_together :: named_registration where
  "register_together = register_compatible ''together'' ''TOGETHER_API_KEY'' ''https://api.together.xyz/v1''"

definition register_groq :: named_registration where
  "register_groq = register_compatible ''groq'' ''GROQ_API_KEY'' ''https://api.groq.com/openai/v1''"

definition register_deepseek :: named_registration where
  "register_deepseek = register_compatible ''deepseek'' ''DEEPSEEK_API_KEY'' ''https://api.deepseek.com/v1''"

definition register_xai :: named_registration where
  "register_xai = register_compatible ''xai'' ''XAI_API_KEY'' ''https://api.x.ai/v1''"

definition register_cerebras :: named_registration where
  "register_cerebras = register_compatible ''cerebras'' ''CEREBRAS_API_KEY'' ''https://api.cerebras.ai/v1''"

definition register_perplexity :: named_registration where
  "register_perplexity = register_compatible ''perplexity'' ''PERPLEXITY_API_KEY'' ''https://api.perplexity.ai''"

definition register_nvidia :: named_registration where
  "register_nvidia = register_compatible ''nvidia'' ''NVIDIA_API_KEY'' ''https://integrate.api.nvidia.com/v1''"

text \<open>
  \<open>register_configured\<close> empties the registry, loads the descriptors of the known providers and then
  builds and registers one adapter after the other. An exception leaves what was registered before it.
\<close>

definition build_registered :: "cfg_env \<Rightarrow> url_env \<Rightarrow> settings \<Rightarrow> provider_id \<Rightarrow> (py_error + adapter) \<Rightarrow> py_error + adapter" where
  "build_registered ce ue s p factory =
    (let config = get_provider_bootstrap_config s p;
         configured = jget config ''api_base'';
         allow = allows_custom_base config
     in sbind (if configured = JNull then Inr []
               else validate_provider_api_base ue p (py_str (ce_repr ce) configured) allow) (\<lambda>u.
        sbind factory (\<lambda>ad.
        sbind (validate_provider_api_base ue p (ad_api_base ad) allow) (\<lambda>v. Inr ad))))"

fun register_all ::
  "cfg_env \<Rightarrow> url_env \<Rightarrow> settings \<Rightarrow> provider_id list \<Rightarrow> registry \<Rightarrow> registry \<times> py_error option" where
  "register_all ce ue s [] reg = (reg, None)"
| "register_all ce ue s (p # ps) reg =
     (case bootstrap_adapter ce ue s p of
        None \<Rightarrow> register_all ce ue s ps reg
      | Some factory \<Rightarrow>
          (case sbind (build_registered ce ue s p factory) (\<lambda>ad. registry_register ad (Some p)
                  (is_provider_discovery_enabled s p) (is_provider_inference_enabled s p) reg) of
             Inl e \<Rightarrow> (reg, Some e)
           | Inr reg' \<Rightarrow> register_all ce ue s ps reg'))"

definition bootstrap_ids :: "settings \<Rightarrow> provider_id list" where
  "bootstrap_ids s = dedup_on id [] (filter (\<lambda>p. p \<noteq> []) (map py_strip (known_provider_ids s)))"

definition register_configured :: "cfg_env \<Rightarrow> url_env \<Rightarrow> settings \<Rightarrow> registry \<times> py_error option" where
  "register_configured ce ue s =
    (if list_ex descriptor_import_fails (bootstrap_ids s) then ([], Some ImportError)
     else register_all ce ue s (bootstrap_ids s) [])"

definition get_registered :: "registry \<Rightarrow> string \<Rightarrow> py_error + registered_provider" where
  "get_registered reg name = (let n = py_strip name in
     if n = [] then Inl KeyError else case map_of reg n of None \<Rightarrow> Inl KeyError | Some r \<Rightarrow> Inr r)"

definition registry_get :: "registry \<Rightarrow> string \<Rightarrow> py_error + adapter" where
  "registry_get reg name = sbind (get_registered reg name) (\<lambda>r.
     if \<not> rg_inference_enabled r then Inl KeyError else Inr (rg_adapter r))"

definition registry_all :: "registry \<Rightarrow> adapter list" where
  "registry_all reg = map (rg_adapter \<circ> snd) (filter (\<lambda>(n, r). rg_discovery_enabled r) reg)"

definition registry_categorize_error ::
  "registry \<Rightarrow> string \<Rightarrow> int option \<Rightarrow> string option \<Rightarrow> string \<Rightarrow> py_error + category \<times> bool" where
  "registry_categorize_error reg name status_code error_code message =
     sbind (get_registered reg name) (\<lambda>r. Inr (ad_categorize_error (rg_adapter r) status_code error_code message))"

definition sync_registry_runtime_gating :: "settings \<Rightarrow> registry \<Rightarrow> registry" where
  "sync_registry_runtime_gating s reg = map (\<lambda>(n, r). (n, r\<lparr>
     rg_discovery_enabled := is_provider_discovery_enabled s (rg_name r) \<and> ad_discovery_available (rg_adapter r),
     rg_inference_enabled := is_provider_inference_enabled s (rg_name r) \<and> ad_inference_available (rg_adapter r)\<rparr>)) reg"

text \<open>What a probe run sees: no adapter, or whether the adapter has a \<open>probe\<close> method.\<close>

definition probe_view :: "registry \<Rightarrow> provider_id \<Rightarrow> bool option" where
  "probe_view reg p = (case registry_get reg p of Inl e \<Rightarrow> None | Inr ad \<Rightarrow> Some (ad_has_probe ad))"

definition routable :: "registry \<Rightarrow> provider_id \<Rightarrow> bool" where
  "routable reg p = (case registry_get reg p of Inl e \<Rightarrow> False | Inr ad \<Rightarrow> True)"

lemma register_get:
  assumes "registry_register ad (Some p) d i reg = Inr reg'" and "p \<noteq> []" and "py_strip p = p"
  shows "registry_get reg' p = (if i then Inr ad else Inl KeyError)"
    and "q \<noteq> p \<Longrightarrow> py_strip q = q \<Longrightarrow> registry_get reg' q = registry_get reg q"
  using assms
  by (auto simp: registry_register_def registry_get_def get_registered_def Let_def update_conv' split: if_splits)

text \<open>A named registration makes its adapter available under its name, and changes no other entry.\<close>

lemma register_compatible_get:
  assumes "register_compatible name key_env dflt api_key api_base d True reg = Inr reg'" and "name \<noteq> []"
    and "py_strip name = name"
  shows "registry_get reg' name = Inr (openai_compatible_adapter name api_key (non_empty_or api_base dflt) key_env)"
    and "q \<noteq> name \<Longrightarrow> py_strip q = q \<Longrightarrow> registry_get reg' q = registry_get reg q"
  using register_get [OF assms(1) [unfolded register_compatible_def] assms(2,3)] by simp_all

lemma map_of_gating:
  "map_of (sync_registry_runtime_gating s reg) n = map_option (\<lambda>r. r\<lparr>
     rg_discovery_enabled := is_provider_discovery_enabled s (rg_name r) \<and> ad_discovery_available (rg_adapter r),
     rg_inference_enabled := is_provider_inference_enabled s (rg_name r) \<and> ad_inference_available (rg_adapter r)\<rparr>) (map_of reg n)"
  by (induction reg) (auto simp: sync_registry_runtime_gating_def)

text \<open>After gating, a provider is routable exactly when it is registered, its configuration enables
  inference and its adapter reports inference as available.\<close>

lemma gated_routable_iff:
  "routable (sync_registry_runtime_gating s reg) p \<longleftrightarrow>
   (case get_registered reg p of
      Inl e \<Rightarrow> False
    | Inr r \<Rightarrow> is_provider_inference_enabled s (rg_name r) \<and> ad_inference_available (rg_adapter r))"
  by (auto simp: routable_def registry_get_def get_registered_def map_of_gating Let_def split: option.splits)

section \<open>Where keys may be sent\<close>

lemma in_AList_update: "(n, r) \<in> set (AList.update k v d) \<Longrightarrow> (n, r) = (k, v) \<or> (n, r) \<in> set d"
  by (induction d) (auto split: if_splits)

lemma build_registered_base:
  assumes "build_registered ce ue s p factory = Inr ad" and "\<not> allows_custom_base (get_provider_bootstrap_config s p)"
  shows "approved_base ue p (py_strip (ad_api_base ad))"
proof -
  from assms obtain v where v: "validate_provider_api_base ue p (ad_api_base ad) False = Inr v"
    by (auto simp: build_registered_def sbind_Inr Let_def)
  then have "v = py_strip (ad_api_base ad)" by (rule validate_facts)
  with validate_approved [OF v] show ?thesis by simp
qed

lemma register_all_bases:
  assumes "(n, r) \<in> set (fst (register_all ce ue s ps reg))" and "(n, r) \<notin> set reg"
    and "list_all (\<lambda>p. p \<noteq> [] \<and> py_strip p = p) ps" and "\<not> allows_custom_base (get_provider_bootstrap_config s n)"
  shows "approved_base ue n (py_strip (ad_api_base (rg_adapter r))) \<and> rg_name r = n"
  using assms
proof (induction ps arbitrary: reg)
  case (Cons p ps)
  show ?case
  proof (cases "bootstrap_adapter ce ue s p")
    case None
    with Cons show ?thesis by simp
  next
    case (Some factory)
    let ?step = "sbind (build_registered ce ue s p factory) (\<lambda>ad. registry_register ad (Some p)
      (is_provider_discovery_enabled s p) (is_provider_inference_enabled s p) reg)"
    from Some Cons.prems(1,2) obtain reg1 where step: "?step = Inr reg1" by (cases ?step) auto
    with Some Cons.prems(1) have rest: "(n, r) \<in> set (fst (register_all ce ue s ps reg1))" by simp
    from step obtain ad where ad: "build_registered ce ue s p factory = Inr ad"
      and reg1: "registry_register ad (Some p) (is_provider_discovery_enabled s p)
          (is_provider_inference_enabled s p) reg = Inr reg1" by (auto simp: sbind_Inr)
    show ?thesis
    proof (cases "(n, r) \<in> set reg1")
      case False
      from Cons.IH [OF rest this] Cons.prems(3,4) show ?thesis by simp
    next
      case True
      have strip: "py_strip p = p" and ne: "p \<noteq> []" using Cons.prems(3) by simp_all
      from True reg1 strip ne Cons.prems(2) have "n = p" "r = \<lparr>rg_name = p, rg_adapter = ad,
          rg_discovery_enabled = is_provider_discovery_enabled s p,
          rg_inference_enabled = is_provider_inference_enabled s p\<rparr>"
        by (auto simp: registry_register_def Let_def dest!: in_AList_update)
      with build_registered_base [OF ad] Cons.prems(4) show ?thesis by simp
    qed
  qed
qed simp

lemma bootstrap_ids_stripped: "list_all (\<lambda>p. p \<noteq> [] \<and> py_strip p = p) (bootstrap_ids s)"
  using dedup_on_subset [of id "[]" "filter (\<lambda>p. p \<noteq> []) (map py_strip (known_provider_ids s))"]
  by (auto simp: bootstrap_ids_def list_all_iff)

text \<open>
  Keys go only to approved hosts. In the registry configured from any settings, file
  or environment, every adapter of a provider that did not opt in to a custom base sends its
  requests over HTTPS to a host on that provider's built-in list. This holds also for what an
  exception leaves registered.
\<close>

theorem registered_bases_approved:
  assumes "(n, r) \<in> set (fst (register_configured ce ue s))"
    and "\<not> allows_custom_base (get_provider_bootstrap_config s n)"
  shows "approved_base ue n (py_strip (ad_api_base (rg_adapter r)))"
  using assms register_all_bases [OF _ _ bootstrap_ids_stripped assms(2)]
  by (fastforce simp: register_configured_def split: if_splits)

definition plain_env :: cfg_env where
  "plain_env = \<lparr>ce_repr = (\<lambda>v. []), ce_float = (\<lambda>s. None), ce_getenv = (\<lambda>k. None)\<rparr>"

definition plain_urls :: url_env where
  "plain_urls = \<lparr>ue_valid_brackets = (\<lambda>n. False), ue_is_ipv6 = (\<lambda>h. False)\<rparr>"

lemma default_registry:
  "\<exists>r. register_configured plain_env plain_urls default_settings = ([(''openrouter'', r)], None)
    \<and> ad_api_base (rg_adapter r) = ''https://openrouter.ai/api/v1''"
proof -
  have ids: "bootstrap_ids default_settings = [''openrouter'']" by code_simp
  have import: "\<not> descriptor_import_fails ''openrouter''" by code_simp
  have base: "validate_provider_api_base plain_urls ''openrouter'' ''https://openrouter.ai/api/v1'' False
      = Inr ''https://openrouter.ai/api/v1''" by code_simp
  have config: "get_provider_bootstrap_config default_settings ''openrouter'' = []" by code_simp
  have slash: "py_rstrip_char (CHR ''/'') ''https://openrouter.ai/api/v1'' = ''https://openrouter.ai/api/v1''" by code_simp
  have b0: "openrouter_api_base default_settings = JStr ''https://openrouter.ai/api/v1''" by code_simp
  have strip: "py_strip ''https://openrouter.ai/api/v1'' = ''https://openrouter.ai/api/v1''" "py_strip ''openrouter'' = ''openrouter''"
    by code_simp+
  show ?thesis
    by (simp add: register_configured_def ids import bootstrap_adapter_def build_registered_def config openrouter_adapter_factory_def
        config_text_def b0 strip jget_def dict_get_def allows_custom_base_def base openrouter_adapter_def slash Let_def
        registry_register_def)
qed

theorem registered_bases_approved_witness:
  "\<exists>r. register_configured plain_env plain_urls default_settings = ([(''openrouter'', r)], None)
    \<and> approved_base plain_urls ''openrouter'' (py_strip (ad_api_base (rg_adapter r)))"
proof -
  obtain r where r: "register_configured plain_env plain_urls default_settings = ([(''openrouter'', r)], None)"
    using default_registry by blast
  have "\<not> allows_custom_base (get_provider_bootstrap_config default_settings ''openrouter'')" by code_simp
  from registered_bases_approved [OF _ this, of r plain_env plain_urls] r show ?thesis by simp
qed

definition example_adapter :: adapter where
  "example_adapter = \<lparr>ad_name = ''openrouter'', ad_has_probe = True, ad_categorize_error = categorize_openrouter_error,
     ad_discovery_available = True, ad_inference_available = True, ad_api_key = ''k'',
     ad_api_base = ''https://openrouter.ai/api/v1'', ad_api_key_env = ''OPENROUTER_API_KEY''\<rparr>"

definition example_registry :: registry where
  "example_registry = [(''openrouter'', \<lparr>rg_name = ''openrouter'', rg_adapter = example_adapter,
     rg_discovery_enabled = True, rg_inference_enabled = True\<rparr>)]"

lemma example_registry_views [simp]:
  "routable example_registry ''openrouter''" "probe_view example_registry ''openrouter'' = Some True"
  by (simp_all add: routable_def probe_view_def registry_get_def get_registered_def example_registry_def
      example_adapter_def Let_def py_strip_def py_lstrip_def chr_isspace_def code_def)

end
