(* ===== verification/FL_Health.thy ===== *)
theory FL_Health
  imports FL_Routing FL_Registry
begin

text \<open>
  Model health (\<open>src/health.py\<close>): recording failures and successes, choosing which models to
  probe, and running a batch of probes under the daily budgets.

  A handler reads the committed tables and returns the statements it hands to the writer.
  Each handler reads the clock once. A time stamp belongs to the UTC day \<open>now div 86400\<close>.
  The backoff exponent is not negative (\<open>settings_bounds\<close>), so \<open>2 ** next_backoff\<close> is an
  integer.
\<close>

text \<open>Time stamps have no upper end here; Python's \<open>datetime\<close> raises past the year 9999.\<close>

definition iso_after_minutes :: "timestamp \<Rightarrow> int \<Rightarrow> timestamp" where
  "iso_after_minutes now minutes = now + 60 * minutes"

definition stale_before_iso :: "timestamp \<Rightarrow> int \<Rightarrow> timestamp" where
  "stale_before_iso now minutes = now - 60 * minutes"

definition utc_day :: "timestamp \<Rightarrow> int" where
  "utc_day now = now div 86400"

section \<open>Failures and successes\<close>

definition mark_failure :: "settings \<Rightarrow> tables \<Rightarrow> timestamp \<Rightarrow> model_id \<Rightarrow> string \<Rightarrow> stmt list" where
  "mark_failure s t now i error = (case find_model t i of
       None \<Rightarrow> []
     | Some m \<Rightarrow>
         let next_backoff = min (m_backoff_level m + 1) (health_max_backoff_exponent s);
             cooldown_minutes = health_cooldown_minutes s * 2 ^ nat next_backoff
         in [MarkFailure i now (take 500 error) next_backoff (iso_after_minutes now cooldown_minutes)
               (health_consecutive_failures_threshold s)])"

definition mark_success ::
  "timestamp \<Rightarrow> model_id \<Rightarrow> rat option \<Rightarrow> rat option \<Rightarrow> timestamp option \<Rightarrow> stmt list" where
  "mark_success now i latency_ms ttfb_ms probed_at = [MarkSuccess i now probed_at latency_ms ttfb_ms]"

text \<open>Failures recorded one after the other, each committed before the next one reads.\<close>

fun record_failures :: "settings \<Rightarrow> model_id \<Rightarrow> (timestamp \<times> string) list \<Rightarrow> tables \<Rightarrow> tables option" where
  "record_failures s i [] t = Some t"
| "record_failures s i ((now, error) # fs) t =
     (case exec_stmts (mark_failure s t now i error) t of
        None \<Rightarrow> None | Some t' \<Rightarrow> record_failures s i fs t')"

lemma find_model_update:
  assumes "\<And>m. m_id (f m) = m_id m"
  shows "find_model (update_models (\<lambda>m. m_id m = i) f t) j =
    (if j = i then map_option f (find_model t i) else find_model t j)"
proof -
  have "find (\<lambda>m. m_id m = j) (map (\<lambda>m. if m_id m = i then f m else m) ms) =
    (if j = i then map_option f (find (\<lambda>m. m_id m = i) ms) else find (\<lambda>m. m_id m = j) ms)" for ms
    using assms by (induction ms) auto
  then show ?thesis by (simp add: find_model_def)
qed

lemma find_model_id: "find_model t i = Some m \<Longrightarrow> m_id m = i"
  by (auto simp: find_model_def find_Some_iff)

definition fail_row :: "settings \<Rightarrow> timestamp \<Rightarrow> string \<Rightarrow> model_row \<Rightarrow> model_row" where
  "fail_row s now error m =
     (let next_backoff = min (m_backoff_level m + 1) (health_max_backoff_exponent s)
      in mark_failure_row now (take 500 error) next_backoff
           (iso_after_minutes now (health_cooldown_minutes s * 2 ^ nat next_backoff))
           (health_consecutive_failures_threshold s) m)"

text \<open>A failure whose statement runs on the tables it was computed from.\<close>

lemma exec_mark_failure:
  assumes "find_model t i = Some m"
  shows "\<exists>t'. exec_stmts (mark_failure s t now i error) t = Some t'
    \<and> find_model t' i = Some (fail_row s now error m)
    \<and> (\<forall>j. j \<noteq> i \<longrightarrow> find_model t' j = find_model t j)"
  using assms
  by (auto simp: mark_failure_def Let_def fail_row_def find_model_update)

lemma exec_mark_failure_unknown:
  "find_model t i = None \<Longrightarrow> exec_stmts (mark_failure s t now i error) t = Some t"
  by (simp add: mark_failure_def)

lemma exec_mark_success:
  "\<exists>t'. exec_stmts (mark_success now i lat ttfb probed) t = Some t'
    \<and> (\<forall>j. find_model t' j = (if j = i then map_option (mark_success_row now probed lat ttfb) (find_model t i)
         else find_model t j))"
  by (simp add: mark_success_def find_model_update)

fun fail_rows :: "settings \<Rightarrow> (timestamp \<times> string) list \<Rightarrow> model_row \<Rightarrow> model_row" where
  "fail_rows s [] m = m"
| "fail_rows s ((now, error) # fs) m = fail_rows s fs (fail_row s now error m)"

lemma record_failures_row:
  "find_model t i = Some m \<Longrightarrow>
   \<exists>t'. record_failures s i fs t = Some t' \<and> find_model t' i = Some (fail_rows s fs m)"
proof (induction fs arbitrary: t m)
  case (Cons f fs)
  obtain now error where f: "f = (now, error)" by (cases f)
  from exec_mark_failure [OF Cons.prems] obtain t' where
    "exec_stmts (mark_failure s t now i error) t = Some t'"
    "find_model t' i = Some (fail_row s now error m)" by blast
  with Cons.IH [of t'] f show ?case by auto
qed simp

lemma fail_row_fields [simp]:
  "m_consecutive_failures (fail_row s now error m) = m_consecutive_failures m + 1"
  "m_backoff_level (fail_row s now error m) = min (m_backoff_level m + 1) (health_max_backoff_exponent s)"
  "m_is_healthy (fail_row s now error m) =
     (m_is_healthy m \<and> m_consecutive_failures m + 1 < health_consecutive_failures_threshold s)"
  "m_cooldown_until (fail_row s now error m) = Some (now + 60 * (health_cooldown_minutes s *
     2 ^ nat (min (m_backoff_level m + 1) (health_max_backoff_exponent s))))"
  by (auto simp: fail_row_def mark_failure_row_def Let_def iso_after_minutes_def)

lemma fail_rows_fields:
  "m_consecutive_failures (fail_rows s fs m) = m_consecutive_failures m + int (length fs)"
  "fs \<noteq> [] \<Longrightarrow> m_backoff_level (fail_rows s fs m) =
     min (m_backoff_level m + int (length fs)) (health_max_backoff_exponent s)"
  "m_is_healthy (fail_rows s fs m) = (m_is_healthy m \<and>
     (fs = [] \<or> m_consecutive_failures m + int (length fs) < health_consecutive_failures_threshold s))"
proof (induction fs arbitrary: m)
  case (Cons f fs)
  { case 1 show ?case using Cons.IH(1) by (cases f) simp }
  { case 2 show ?case using Cons.IH(2) by (cases f; cases "fs = []") auto }
  { case 3 show ?case using Cons.IH(3) by (cases f; cases "fs = []") auto }
qed simp_all

lemma fail_rows_last:
  "fail_rows s (fs @ [(now, error)]) m = fail_row s now error (fail_rows s fs m)"
  by (induction fs arbitrary: m) auto

text \<open>
  C11 (functional). The circuit breaker: a healthy model with no recorded failures that fails
  \<open>n > 0\<close> times in a row is unhealthy exactly when \<open>n\<close> has reached the threshold; its failure
  count is \<open>n\<close>, its backoff level \<open>min n max_backoff_exponent\<close>, and the cooldown set by the last
  failure lasts \<open>cooldown_minutes * 2 ^ level\<close> minutes.
\<close>

theorem circuit_breaker:
  assumes "find_model t i = Some m" and "m_is_healthy m" and "m_consecutive_failures m = 0"
    and "m_backoff_level m = 0"
  shows "\<exists>t' m'. record_failures s i (fs @ [(now, error)]) t = Some t' \<and> find_model t' i = Some m'
    \<and> m_consecutive_failures m' = int (length fs) + 1
    \<and> (m_is_healthy m' \<longleftrightarrow> int (length fs) + 1 < health_consecutive_failures_threshold s)
    \<and> m_backoff_level m' = min (int (length fs) + 1) (health_max_backoff_exponent s)
    \<and> m_cooldown_until m' =
        Some (now + 60 * (health_cooldown_minutes s * 2 ^ nat (m_backoff_level m')))"
proof -
  let ?fs = "fs @ [(now, error)]" and ?m' = "fail_rows s (fs @ [(now, error)]) m"
  from record_failures_row [OF assms(1), of s ?fs] obtain t' where
    t': "record_failures s i ?fs t = Some t'" "find_model t' i = Some ?m'" by blast
  have "m_cooldown_until ?m' = Some (now + 60 * (health_cooldown_minutes s * 2 ^ nat (m_backoff_level ?m')))"
    by (simp add: fail_rows_last)
  moreover have "m_consecutive_failures ?m' = int (length fs) + 1"
    "m_is_healthy ?m' \<longleftrightarrow> int (length fs) + 1 < health_consecutive_failures_threshold s"
    "m_backoff_level ?m' = min (int (length fs) + 1) (health_max_backoff_exponent s)"
    using fail_rows_fields [where s = s and fs = ?fs and m = m] assms by (simp_all add: add.commute)
  ultimately show ?thesis using t' by blast
qed

definition healthy_tables :: tables where
  "healthy_tables = empty_tables\<lparr>t_models := [example_model ''m1'' 40, example_model ''m2'' 70]\<rparr>"

lemma find_healthy_tables [simp]: "find_model healthy_tables ''m1'' = Some (example_model ''m1'' 40)"
  by (simp add: healthy_tables_def find_model_def empty_tables_def example_model_def)

theorem circuit_breaker_witness:
  "\<exists>t' m'. record_failures default_settings ''m1'' ([(10, ''a''), (20, ''b'')] @ [(30, ''c'')]) healthy_tables
      = Some t' \<and> find_model t' ''m1'' = Some m' \<and> \<not> m_is_healthy m' \<and> m_backoff_level m' = 3
      \<and> m_cooldown_until m' = Some (30 + 60 * (30 * 8))"
proof -
  have "health_consecutive_failures_threshold default_settings = 3"
    "health_max_backoff_exponent default_settings = 4" "health_cooldown_minutes default_settings = 30"
    by (simp_all add: default_settings_def post_init_def field_defaults_def Let_def)
  with circuit_breaker [of healthy_tables "''m1''" "example_model ''m1'' 40" default_settings
      "[(10, ''a''), (20, ''b'')]" 30 "''c''"]
  show ?thesis by (auto simp: example_model_def)
qed

text \<open>
  A recorded failure takes the model out of routing: wherever the writer has got to when it executes
  the statement, and whatever it does to the other tables afterwards, no request before the end of
  the cooldown is sent to the model. The cooldown starts from the moment of the failure and the
  backoff level read then.
\<close>

lemma cooldown_holds:
  assumes "find_model t0 i = Some m0" and "exec_stmts (mark_failure s t0 now i error) t1 = Some t2"
    and "now' \<le> now + 60 * (health_cooldown_minutes s
           * 2 ^ nat (min (m_backoff_level m0 + 1) (health_max_backoff_exponent s)))"
    and "pick_candidates t3 now' te req prefs fb limit = Inr ps" and "t_models t3 = t_models t2"
  shows "i \<notin> p_id ` set ps"
proof
  assume "i \<in> p_id ` set ps"
  then obtain p where p: "p \<in> set ps" "p_id p = i" by auto
  from pick_row [OF assms(4) p(1)] obtain m where m: "m \<in> set (t_models t3)"
    "p = pick_of (serialize_candidate m)" "eligible now' (effective_requirements req prefs) m" by blast
  with p(2) have "m_id m = i" by (simp add: pick_of_def serialize_candidate_def)
  define level until' where "level = min (m_backoff_level m0 + 1) (health_max_backoff_exponent s)"
    and "until' = now + 60 * (health_cooldown_minutes s * 2 ^ nat level)"
  define f where "f = mark_failure_row now (take 500 error) level until' (health_consecutive_failures_threshold s)"
  have t2: "t2 = update_models (\<lambda>m. m_id m = i) f t1"
    using assms(1,2) by (simp add: mark_failure_def Let_def iso_after_minutes_def level_def until'_def f_def)
  from m(1) [unfolded assms(5) t2] obtain m1 where m1: "m = (if m_id m1 = i then f m1 else m1)"
    by (rule in_update_models)
  have "m_cooldown_until m = Some until'"
    using m1 \<open>m_id m = i\<close> by (cases "m_id m1 = i") (simp_all add: f_def mark_failure_row_def)
  with m(3) assms(3) show False by (simp add: eligible_def until'_def level_def)
qed

text \<open>
  Only two kinds of statement can end a cooldown early: a success of the model, and another failure
  of it whose own cooldown is shorter. A model that is in the table is never sent to by a request
  before the time all its rows are held until.
\<close>

definition lifts_cooldown :: "model_id \<Rightarrow> timestamp \<Rightarrow> stmt \<Rightarrow> bool" where
  "lifts_cooldown i until' s = (case s of
       MarkSuccess j now probed_at latency_ms ttfb_ms \<Rightarrow> j = i
     | MarkFailure j now error next_backoff cooldown_until threshold \<Rightarrow> j = i \<and> cooldown_until < until'
     | _ \<Rightarrow> False)"

definition held_until :: "model_id \<Rightarrow> timestamp \<Rightarrow> tables \<Rightarrow> bool" where
  "held_until i until' t = (i \<in> m_id ` set (t_models t)
     \<and> (\<forall>m \<in> set (t_models t). m_id m = i \<longrightarrow> (\<exists>c. m_cooldown_until m = Some c \<and> until' \<le> c)))"

lemma held_update:
  assumes "held_until i u t" and "\<And>m. m_id (f m) = m_id m"
    and "\<And>m. p m \<Longrightarrow> m_id m = i \<Longrightarrow> \<exists>c. m_cooldown_until m = Some c \<and> u \<le> c
           \<Longrightarrow> \<exists>c. m_cooldown_until (f m) = Some c \<and> u \<le> c"
  shows "held_until i u (update_models p f t)"
  unfolding held_until_def
proof (intro conjI ballI impI)
  have "map m_id (t_models (update_models p f t)) = map m_id (t_models t)"
    using assms(2) by (rule map_id_update_models)
  from arg_cong [OF this, of set] have "m_id ` set (t_models (update_models p f t)) = m_id ` set (t_models t)"
    by (simp only: set_map)
  moreover have "i \<in> m_id ` set (t_models t)" using assms(1) by (simp add: held_until_def)
  ultimately show "i \<in> m_id ` set (t_models (update_models p f t))" by (simp only:)
next
  fix m assume m: "m \<in> set (t_models (update_models p f t))" "m_id m = i"
  from m(1) obtain m1 where m1: "m1 \<in> set (t_models t)" "m = (if p m1 then f m1 else m1)"
    by (rule in_update_models)
  with m(2) assms(2) have "m_id m1 = i" by (cases "p m1") simp_all
  with m1(1) assms(1) have "\<exists>c. m_cooldown_until m1 = Some c \<and> u \<le> c" by (simp add: held_until_def)
  with assms(3) [OF _ \<open>m_id m1 = i\<close>] m1(2) show "\<exists>c. m_cooldown_until m = Some c \<and> u \<le> c"
    by (cases "p m1") simp_all
qed

lemma held_exec:
  assumes "\<not> lifts_cooldown i u s" and "exec_stmt s t = Some t'" and "held_until i u t"
  shows "held_until i u t'"
proof -
  have same: "held_until i u (update_models p f t)"
    if "\<And>m. m_id (f m) = m_id m" "\<And>m. m_cooldown_until (f m) = m_cooldown_until m" for p f
    by (rule held_update [OF assms(3)]) (simp_all add: that)
  show ?thesis
  proof (cases s)
    case (UpsertModel row)
    show ?thesis
    proof (cases "m_id row \<in> m_id ` set (t_models t)")
      case True
      with UpsertModel assms(2) have "t' = update_models (\<lambda>m. m_id m = m_id row) (upsert_model_row row) t"
        by (simp add: upsert_model_def)
      with assms(3) show ?thesis by (auto intro!: held_update simp: upsert_model_row_def)
    next
      case False
      with assms(3) have "m_id row \<noteq> i" by (auto simp: held_until_def)
      with False UpsertModel assms(2,3) show ?thesis by (auto simp: upsert_model_def held_until_def)
    qed
  next
    case (MarkFailure j now error next_backoff cooldown_until threshold)
    with assms have "t' = update_models (\<lambda>m. m_id m = j) (mark_failure_row now error next_backoff cooldown_until threshold) t"
      "j = i \<longrightarrow> u \<le> cooldown_until"
      by (auto simp: lifts_cooldown_def)
    with assms(3) show ?thesis by (auto intro!: held_update simp: mark_failure_row_def)
  next
    case (MarkSuccess j now probed_at latency_ms ttfb_ms)
    with assms have "t' = update_models (\<lambda>m. m_id m = j) (mark_success_row now probed_at latency_ms ttfb_ms) t" "j \<noteq> i"
      by (auto simp: lifts_cooldown_def)
    with assms(3) show ?thesis by (auto intro!: held_update simp: mark_success_row_def)
  next
    case (SetModelActive j active)
    with assms(2) show ?thesis by (auto intro!: same)
  next
    case (MarkModelsNotSeen p seen_ids)
    with assms(2) show ?thesis by (auto intro!: same)
  next
    case (DeactivateProvider p)
    with assms(2) show ?thesis by (auto intro!: same)
  next
    case (UpdateScore j score now)
    with assms(2) show ?thesis by (auto intro!: same)
  next
    case (InsertLog l)
    with assms(2,3) show ?thesis by (auto simp: held_until_def split: if_splits)
  qed (use assms(2,3) in \<open>auto simp: held_until_def set_secret_def set_vault_def set_auth_def upsert_leaderboard_def\<close>)
qed

lemma held_not_picked:
  assumes "held_until i u t" and "now' \<le> u" and "pick_candidates t now' te req prefs fb limit = Inr ps"
  shows "i \<notin> p_id ` set ps"
proof
  assume "i \<in> p_id ` set ps"
  then obtain p where p: "p \<in> set ps" "p_id p = i" by auto
  from pick_row [OF assms(3) p(1)] obtain m where m: "m \<in> set (t_models t)" "m_id m = i"
    "eligible now' (effective_requirements req prefs) m"
    using p(2) by (auto simp: pick_of_def serialize_candidate_def)
  with assms(1) obtain c where "m_cooldown_until m = Some c" "u \<le> c" by (auto simp: held_until_def)
  with m(3) assms(2) show False by (simp add: eligible_def)
qed

text \<open>The end of the cooldown that a failure at \<open>now\<close> sets for a model read as \<open>m\<close>.\<close>

definition cooldown_end :: "settings \<Rightarrow> timestamp \<Rightarrow> model_row \<Rightarrow> timestamp" where
  "cooldown_end s now m = now + 60 * (health_cooldown_minutes s
     * 2 ^ nat (min (m_backoff_level m + 1) (health_max_backoff_exponent s)))"

lemma failure_holds:
  assumes "find_model t0 i = Some m0" and "exec_stmts (mark_failure s t0 now i error) t1 = Some t2"
    and "i \<in> m_id ` set (t_models t1)"
  shows "held_until i (cooldown_end s now m0) t2"
proof -
  let ?f = "mark_failure_row now (take 500 error) (min (m_backoff_level m0 + 1) (health_max_backoff_exponent s))
    (cooldown_end s now m0) (health_consecutive_failures_threshold s)"
  have t2: "t2 = update_models (\<lambda>m. m_id m = i) ?f t1"
    using assms(1,2) by (simp add: mark_failure_def Let_def iso_after_minutes_def cooldown_end_def)
  have "map m_id (t_models t2) = map m_id (t_models t1)"
    unfolding t2 by (rule map_id_update_models) (simp add: mark_failure_row_def)
  from arg_cong [OF this, of set] assms(3) have "i \<in> m_id ` set (t_models t2)" by simp
  moreover have "m_cooldown_until m = Some (cooldown_end s now m0)" if "m \<in> set (t_models t2)" "m_id m = i" for m
  proof -
    from that(1) [unfolded t2] obtain m1 where m1: "m = (if m_id m1 = i then ?f m1 else m1)"
      by (rule in_update_models)
    with that(2) show ?thesis by (cases "m_id m1 = i") (simp_all add: mark_failure_row_def)
  qed
  ultimately show ?thesis by (auto simp: held_until_def)
qed

theorem cooldown_blocks_routing:
  assumes "find_model t0 i = Some m0" and "exec_stmts (mark_failure s t0 now i error) t1 = Some t2"
    and "now' \<le> now + 60 * (health_cooldown_minutes s
           * 2 ^ nat (min (m_backoff_level m0 + 1) (health_max_backoff_exponent s)))"
    and "pick_candidates t2 now' te req prefs fb limit = Inr ps"
  shows "i \<notin> p_id ` set ps"
  using cooldown_holds [OF assms HOL.refl] .

theorem cooldown_blocks_routing_witness:
  "\<exists>t2 ps. exec_stmts (mark_failure default_settings healthy_tables 10 ''m1'' ''boom'') healthy_tables = Some t2
     \<and> pick_candidates t2 3000 no_tokenizers (example_request ''m1'') None [] 3 = Inr ps
     \<and> ''m1'' \<notin> p_id ` set ps \<and> ps \<noteq> []"
proof -
  have set: "health_consecutive_failures_threshold default_settings = 3"
    "health_max_backoff_exponent default_settings = 4" "health_cooldown_minutes default_settings = 30"
    by (simp_all add: default_settings_def post_init_def field_defaults_def Let_def)
  obtain t2 where t2: "exec_stmts (mark_failure default_settings healthy_tables 10 ''m1'' ''boom'') healthy_tables
      = Some t2" "t2 = empty_tables\<lparr>t_models := [fail_row default_settings 10 ''boom'' (example_model ''m1'' 40),
        example_model ''m2'' 70]\<rparr>"
    by (simp add: mark_failure_def Let_def fail_row_def update_models_def healthy_tables_def
        example_model_def empty_tables_def find_model_def)
  have run: "pick_candidates t2 3000 no_tokenizers (example_request ''m1'') None [] 3 =
      Inr [pick_of (serialize_candidate (example_model ''m2'' 70))]"
    unfolding t2(2) by (simp add: routing_eval fail_row_def mark_failure_row_def Let_def set iso_after_minutes_def)
  from cooldown_blocks_routing [OF find_healthy_tables t2(1) _ run] t2(1) run set
  show ?thesis by (simp add: example_model_def)
qed

text \<open>
  C37 (liveness). One success repairs a model whatever its record: the failure count, backoff,
  cooldown and error are cleared, and an active model with the requested capabilities is
  eligible again at once.
\<close>

theorem success_restores_eligibility:
  assumes "find_model t i = Some m" and "m_is_active m"
    and "eligible now' req (m\<lparr>m_is_healthy := True, m_cooldown_until := None\<rparr>)"
  shows "\<exists>t' m'. exec_stmts (mark_success now i lat ttfb probed) t = Some t' \<and> find_model t' i = Some m'
    \<and> eligible now' req m' \<and> m_consecutive_failures m' = 0 \<and> m_backoff_level m' = 0
    \<and> m_last_error m' = None \<and> (\<forall>j. j \<noteq> i \<longrightarrow> find_model t' j = find_model t j)"
  using assms exec_mark_success [of now i lat ttfb probed t]
  by (auto simp: mark_success_row_def eligible_def)

theorem success_restores_eligibility_witness:
  "\<exists>t' m'. exec_stmts (mark_success 50 ''m1'' (Some 120) None None)
      (healthy_tables\<lparr>t_models := [(example_model ''m1'' 40)\<lparr>m_is_healthy := False, m_consecutive_failures := 7\<rparr>]\<rparr>)
      = Some t' \<and> find_model t' ''m1'' = Some m' \<and> eligible 60 (example_request ''auto'') m'"
  using success_restores_eligibility [of "healthy_tables\<lparr>t_models :=
        [(example_model ''m1'' 40)\<lparr>m_is_healthy := False, m_consecutive_failures := 7\<rparr>]\<rparr>" "''m1''"
      "(example_model ''m1'' 40)\<lparr>m_is_healthy := False, m_consecutive_failures := 7\<rparr>" 60
      "example_request ''auto''" 50 "Some 120" None None]
  by (simp add: find_model_def example_model_def eligible_def example_request_def) blast

section \<open>Probe usage and budgets\<close>

definition is_probe_source :: "string \<Rightarrow> bool" where
  "is_probe_source src = (src \<in> set [''probe'', ''bootstrap''])"

definition get_provider_probe_usage :: "tables \<Rightarrow> provider_id \<Rightarrow> int \<Rightarrow> int" where
  "get_provider_probe_usage t p day =
     count_if (\<lambda>l. l_provider_id l = p \<and> is_probe_source (l_request_source l) \<and> utc_day (l_timestamp l) = day)
       (t_log t)"

record budget_summary =
  bs_provider_id :: provider_id
  bs_utc_day :: int
  bs_limit :: int
  bs_used :: int
  bs_remaining :: int

definition get_probe_budget_summary :: "tables \<Rightarrow> settings \<Rightarrow> timestamp \<Rightarrow> budget_summary list" where
  "get_probe_budget_summary t s now =
     map (\<lambda>(p, limit). let used = get_provider_probe_usage t p (utc_day now) in
            \<lparr>bs_provider_id = p, bs_utc_day = utc_day now, bs_limit = limit, bs_used = used,
             bs_remaining = max (limit - used) 0\<rparr>)
       (sort_key fst (health_daily_request_budget_by_provider s))"

record activity_counts =
  ac_total_requests :: int
  ac_successes :: int
  ac_failures :: int
  ac_last_probe_at :: "timestamp option"

definition activity_of :: "log_row list \<Rightarrow> activity_counts" where
  "activity_of ls = \<lparr>ac_total_requests = int (length ls), ac_successes = count_if l_success ls,
     ac_failures = count_if (\<lambda>l. \<not> l_success l) ls,
     ac_last_probe_at = (if ls = [] then None else Some (Max (set (map l_timestamp ls))))\<rparr>"

record probe_activity =
  pa_lookback_hours :: int
  pa_since :: timestamp
  pa_totals :: activity_counts
  pa_by_source :: "(string \<times> activity_counts) list"
  pa_by_provider :: "(provider_id \<times> activity_counts) list"

definition get_recent_probe_activity :: "tables \<Rightarrow> timestamp \<Rightarrow> int \<Rightarrow> probe_activity" where
  "get_recent_probe_activity t now lookback_hours =
    (let since = now - 3600 * max lookback_hours 1;
         rows = filter (\<lambda>l. is_probe_source (l_request_source l) \<and> since \<le> l_timestamp l) (t_log t)
     in \<lparr>pa_lookback_hours = max lookback_hours 1,
         pa_since = since,
         pa_totals = activity_of rows,
         pa_by_source = map (\<lambda>(k, g). (k, activity_of g)) (group_by l_request_source rows),
         pa_by_provider = map (\<lambda>(k, g). (k, activity_of g)) (group_by l_provider_id rows)\<rparr>)"

text \<open>
  The activity report is consistent: its total is successes plus failures, and
  both breakdowns, by source and by provider, add up to the totals, count by count.
\<close>

theorem probe_activity_consistent:
  "ac_total_requests (pa_totals (get_recent_probe_activity t now h))
     = ac_successes (pa_totals (get_recent_probe_activity t now h))
       + ac_failures (pa_totals (get_recent_probe_activity t now h))
   \<and> sum_list (map (\<lambda>(k, a). ac_successes a) (pa_by_source (get_recent_probe_activity t now h)))
     = ac_successes (pa_totals (get_recent_probe_activity t now h))
   \<and> sum_list (map (\<lambda>(k, a). ac_failures a) (pa_by_source (get_recent_probe_activity t now h)))
     = ac_failures (pa_totals (get_recent_probe_activity t now h))
   \<and> sum_list (map (\<lambda>(k, a). ac_successes a) (pa_by_provider (get_recent_probe_activity t now h)))
     = ac_successes (pa_totals (get_recent_probe_activity t now h))
   \<and> sum_list (map (\<lambda>(k, a). ac_failures a) (pa_by_provider (get_recent_probe_activity t now h)))
     = ac_failures (pa_totals (get_recent_probe_activity t now h))"
proof -
  define rows where "rows = filter (\<lambda>l. is_probe_source (l_request_source l)
    \<and> now - 3600 * max h 1 \<le> l_timestamp l) (t_log t)"
  have len: "int (length ls) = count_if l_success ls + count_if (\<lambda>l. \<not> l_success l) ls" for ls
    by (induction ls) (auto simp: count_if_def)
  have split: "map (\<lambda>(k, a). g a) (map (\<lambda>(k, r). (k, activity_of r)) gs)
      = map (\<lambda>(k, r). g (activity_of r)) gs" for g :: "activity_counts \<Rightarrow> int" and gs :: "(string \<times> log_row list) list"
    by (simp add: case_prod_beta comp_def)
  show ?thesis
    unfolding get_recent_probe_activity_def Let_def rows_def [symmetric] probe_activity.simps split
    unfolding activity_of_def activity_counts.simps group_by_counts
    using len by blast
qed

section \<open>Choosing models to probe\<close>

record probe_candidate =
  pc_id :: model_id
  pc_provider_id :: provider_id
  pc_provider_model_id :: string
  pc_probe_reason :: string

definition to_candidate :: "string \<Rightarrow> model_row \<Rightarrow> probe_candidate" where
  "to_candidate reason m = \<lparr>pc_id = m_id m, pc_provider_id = m_provider_id m,
     pc_provider_model_id = m_provider_model_id m, pc_probe_reason = reason\<rparr>"

definition select_bootstrap_candidates :: "tables \<Rightarrow> string \<Rightarrow> int \<Rightarrow> probe_candidate list" where
  "select_bootstrap_candidates t fallback_model limit =
    (let fb = (if fallback_model = [] then []
               else case find (\<lambda>m. m_id m = fallback_model \<and> m_is_active m) (t_models t) of
                      None \<Rightarrow> [] | Some m \<Rightarrow> [m]);
         rows = sql_limit (max limit 0) (sort_desc m_composite_score (filter m_is_active (t_models t)))
     in collect_until pc_id limit [] 0 (map (to_candidate ''bootstrap'') (fb @ rows)))"

definition older :: "timestamp option \<Rightarrow> timestamp \<Rightarrow> bool" where
  "older x before = (case x of None \<Rightarrow> True | Some y \<Rightarrow> y < before)"

definition cooldown_expired :: "timestamp \<Rightarrow> model_row \<Rightarrow> bool" where
  "cooldown_expired now m =
     (m_is_active m \<and> (case m_cooldown_until m of None \<Rightarrow> False | Some c \<Rightarrow> c < now))"

definition never_probed :: "model_row \<Rightarrow> bool" where
  "never_probed m = (m_is_active m \<and> m_last_probe_at m = None)"

definition is_stale :: "timestamp \<Rightarrow> model_row \<Rightarrow> bool" where
  "is_stale before m = (m_is_active m \<and> older (m_last_success_at m) before \<and> older (m_last_probe_at m) before)"

definition select_probe_candidates :: "tables \<Rightarrow> settings \<Rightarrow> timestamp \<Rightarrow> probe_candidate list" where
  "select_probe_candidates t s now =
    (let stale_before = stale_before_iso now (health_stale_after_minutes s);
         max_probes = health_max_probes_per_run s;
         cooldown_rows = sql_limit max_probes (sort_key (\<lambda>m. (the (m_cooldown_until m), - m_composite_score m))
           (filter (cooldown_expired now) (t_models t)));
         never_probed_rows = sql_limit max_probes (sort_desc m_composite_score (filter never_probed (t_models t)));
         stale_rows = sql_limit (health_top_n_stale_probe s)
           (sort_desc m_composite_score (filter (is_stale stale_before) (t_models t)))
     in collect_until pc_id max_probes [] 0
          (map (to_candidate ''cooldown_recovery'') cooldown_rows
           @ map (to_candidate ''never_probed'') never_probed_rows
           @ map (to_candidate ''stale'') stale_rows))"

lemma collect_until_facts:
  "distinct (map f (collect_until f limit [] 0 xs))"
  "int (length (collect_until f limit [] 0 xs)) \<le> max 1 limit"
  "set (collect_until f limit [] 0 xs) \<subseteq> set xs"
proof -
  show "distinct (map f (collect_until f limit [] 0 xs))"
    unfolding collect_until_take by (simp only: take_map [symmetric] distinct_take dedup_on_distinct)
  show "int (length (collect_until f limit [] 0 xs)) \<le> max 1 limit"
    unfolding collect_until_take by (simp add: min_def max_def) linarith
  show "set (collect_until f limit [] 0 xs) \<subseteq> set xs"
    unfolding collect_until_take using dedup_on_subset set_take_subset by fastforce
qed

text \<open>
  The models of a scheduled probe run are distinct and active, at most
  \<open>max 1 max_probes_per_run\<close> of them, and each is there for the reason it carries: its cooldown has
  run out, it was never probed, or it has neither succeeded nor been probed recently.
\<close>

theorem probe_candidates_sound:
  "distinct (map pc_id (select_probe_candidates t s now))
   \<and> int (length (select_probe_candidates t s now)) \<le> max 1 (health_max_probes_per_run s)
   \<and> list_all (\<lambda>c. list_ex (\<lambda>m. m_is_active m \<and> c = to_candidate (pc_probe_reason c) m
       \<and> (pc_probe_reason c = ''cooldown_recovery'' \<and> cooldown_expired now m
          \<or> pc_probe_reason c = ''never_probed'' \<and> never_probed m
          \<or> pc_probe_reason c = ''stale'' \<and> is_stale (stale_before_iso now (health_stale_after_minutes s)) m))
       (t_models t)) (select_probe_candidates t s now)"
proof (intro conjI)
  let ?sel = "select_probe_candidates t s now"
  show "distinct (map pc_id ?sel)" "int (length ?sel) \<le> max 1 (health_max_probes_per_run s)"
    unfolding select_probe_candidates_def Let_def by (rule collect_until_facts)+
  have "set ?sel \<subseteq> to_candidate ''cooldown_recovery'' ` {m \<in> set (t_models t). cooldown_expired now m}
    \<union> to_candidate ''never_probed'' ` {m \<in> set (t_models t). never_probed m}
    \<union> to_candidate ''stale'' ` {m \<in> set (t_models t). is_stale (stale_before_iso now (health_stale_after_minutes s)) m}"
    unfolding select_probe_candidates_def Let_def
    by (rule order.trans [OF collect_until_facts(3)]) (auto dest!: set_sql_limit)
  then show "list_all (\<lambda>c. list_ex (\<lambda>m. m_is_active m \<and> c = to_candidate (pc_probe_reason c) m
       \<and> (pc_probe_reason c = ''cooldown_recovery'' \<and> cooldown_expired now m
          \<or> pc_probe_reason c = ''never_probed'' \<and> never_probed m
          \<or> pc_probe_reason c = ''stale'' \<and> is_stale (stale_before_iso now (health_stale_after_minutes s)) m))
       (t_models t)) ?sel"
    unfolding list_all_iff list_ex_iff
    by (fastforce simp: to_candidate_def cooldown_expired_def never_probed_def is_stale_def)
qed

text \<open>
  A limit of zero probes per run does not disable probing: as long as some active
  model is stale and \<open>top_n_stale_probe\<close> is positive, exactly one model is selected.
\<close>

theorem zero_probes_still_selects:
  assumes "health_max_probes_per_run s = 0" and "1 \<le> health_top_n_stale_probe s"
    and "m \<in> set (t_models t)" and "is_stale (stale_before_iso now (health_stale_after_minutes s)) m"
  shows "length (select_probe_candidates t s now) = 1"
proof -
  define rows where "rows = sql_limit (health_top_n_stale_probe s) (sort_desc m_composite_score
    (filter (is_stale (stale_before_iso now (health_stale_after_minutes s))) (t_models t)))"
  have "filter (is_stale (stale_before_iso now (health_stale_after_minutes s))) (t_models t) \<noteq> []"
    using assms(3,4) by (auto simp: filter_empty_conv)
  then have "rows \<noteq> []" using assms(2) by (simp add: rows_def sql_limit_def)
  then have "dedup_on pc_id [] (map (to_candidate ''stale'') rows) \<noteq> []"
    by (simp add: dedup_on_eq_Nil)
  moreover have "select_probe_candidates t s now = take 1 (dedup_on pc_id [] (map (to_candidate ''stale'') rows))"
    using assms(1) by (simp add: select_probe_candidates_def Let_def collect_until_take rows_def sql_limit_def)
  ultimately show ?thesis
    by (cases "dedup_on pc_id [] (map (to_candidate ''stale'') rows)") auto
qed

theorem zero_probes_still_selects_witness:
  "length (select_probe_candidates healthy_tables (default_settings\<lparr>health_max_probes_per_run := 0\<rparr>) 100) = 1"
  by (rule zero_probes_still_selects [where m = "example_model ''m1'' 40"])
    (simp_all add: default_settings_def post_init_def field_defaults_def Let_def healthy_tables_def
      is_stale_def older_def example_model_def)

text \<open>
  The start-up probe set consists of distinct active models, at most
  \<open>max 1 limit\<close> of them, and starts with the fallback model whenever that is an active model.
\<close>

theorem bootstrap_candidates_sound:
  "distinct (map pc_id (select_bootstrap_candidates t fb limit))
   \<and> int (length (select_bootstrap_candidates t fb limit)) \<le> max 1 limit
   \<and> set (select_bootstrap_candidates t fb limit)
       \<subseteq> to_candidate ''bootstrap'' ` {m \<in> set (t_models t). m_is_active m}
   \<and> (case find (\<lambda>m. m_id m = fb \<and> m_is_active m) (t_models t) of
        None \<Rightarrow> True
      | Some m \<Rightarrow> fb = [] \<or> hd (select_bootstrap_candidates t fb limit) = to_candidate ''bootstrap'' m)"
proof (intro conjI)
  let ?sel = "select_bootstrap_candidates t fb limit"
  show "distinct (map pc_id ?sel)" "int (length ?sel) \<le> max 1 limit"
    unfolding select_bootstrap_candidates_def Let_def by (rule collect_until_facts)+
  show "set ?sel \<subseteq> to_candidate ''bootstrap'' ` {m \<in> set (t_models t). m_is_active m}"
    unfolding select_bootstrap_candidates_def Let_def
    by (rule order.trans [OF collect_until_facts(3)])
      (auto dest!: set_sql_limit dest: find_SomeD [OF sym] split: option.splits if_splits)
  show "case find (\<lambda>m. m_id m = fb \<and> m_is_active m) (t_models t) of
        None \<Rightarrow> True | Some m \<Rightarrow> fb = [] \<or> hd ?sel = to_candidate ''bootstrap'' m"
    by (simp add: select_bootstrap_candidates_def Let_def split: option.split)
qed

section \<open>Running a batch of probes\<close>

text \<open>
  \<open>_run_probe_batch\<close> starts one coroutine per candidate. Coroutines interleave only where they
  wait: for the semaphore and for the provider. The phases of a candidate are: not started,
  budget reserved, probing, and at the end
  skipped or done; \<open>probe_start\<close>, \<open>probe_begin\<close> and \<open>probe_finish\<close> are the
  code between two waits. The registry enters as \<open>probe_view\<close>: \<open>None\<close> for a provider that is
  not routable, otherwise whether its adapter has a \<open>probe\<close> method.
\<close>

datatype phase = Ready | Reserved | Probing string | Skipped | Done

datatype probe_result = Probed "rat option" "rat option" | ProbeRaised string

record batch_env =
  be_settings :: settings
  be_registry :: "provider_id \<Rightarrow> bool option"
  be_source :: string
  be_day :: int

record batch =
  b_phases :: "phase list"
  b_usage :: "(provider_id, int) dict"
  b_probed :: int
  b_recovered :: int
  b_failed :: int
  b_skipped :: int
  b_stmts :: "stmt list"

definition batch_init :: "probe_candidate list \<Rightarrow> batch" where
  "batch_init cs = \<lparr>b_phases = replicate (length cs) Ready, b_usage = [], b_probed = 0,
     b_recovered = 0, b_failed = 0, b_skipped = 0, b_stmts = []\<rparr>"

definition budget_limit :: "batch_env \<Rightarrow> provider_id \<Rightarrow> int" where
  "budget_limit be p = dict_get (health_daily_request_budget_by_provider (be_settings be)) p 0"

definition skip_probe :: "nat \<Rightarrow> batch \<Rightarrow> batch" where
  "skip_probe k b = b\<lparr>b_phases := (b_phases b)[k := Skipped], b_skipped := b_skipped b + 1\<rparr>"

text \<open>From the start of \<open>probe_one\<close> to the semaphore; \<open>t\<close> is the database at that moment.\<close>

definition probe_start :: "batch_env \<Rightarrow> tables \<Rightarrow> nat \<Rightarrow> probe_candidate \<Rightarrow> batch \<Rightarrow> batch" where
  "probe_start be t k c b =
    (let p = pc_provider_id c in
     if \<not> is_provider_active_probe_enabled (be_settings be) p then skip_probe k b
     else case be_registry be p of
       None \<Rightarrow> skip_probe k (b\<lparr>b_stmts := b_stmts b @ [SetModelActive (pc_id c) False]\<rparr>)
     | Some has_probe \<Rightarrow>
         if \<not> has_probe then skip_probe k b
         else
           let usage = setdefault p (get_provider_probe_usage t p (be_day be)) (b_usage b) in
           if budget_limit be p \<le> dict_get usage p 0 then skip_probe k (b\<lparr>b_usage := usage\<rparr>)
           else b\<lparr>b_usage := AList.update p (dict_get usage p 0 + 1) usage,
                  b_phases := (b_phases b)[k := Reserved]\<rparr>)"

definition is_probing :: "phase \<Rightarrow> bool" where
  "is_probing ph = (case ph of Probing r \<Rightarrow> True | _ \<Rightarrow> False)"

definition in_flight :: "batch \<Rightarrow> int" where
  "in_flight b = count_if is_probing (b_phases b)"

text \<open>Entering the semaphore.\<close>

definition probe_begin :: "batch_env \<Rightarrow> nat \<Rightarrow> probe_candidate \<Rightarrow> batch \<Rightarrow> batch" where
  "probe_begin be k c b =
     b\<lparr>b_probed := b_probed b + 1,
       b_phases := (b_phases b)[k := Probing (be_source be @ ''-'' @ pc_id c @ ''-'' @ show_int (b_probed b + 1))]\<rparr>"

definition probe_log ::
  "batch_env \<Rightarrow> timestamp \<Rightarrow> string \<Rightarrow> probe_candidate \<Rightarrow> log_row" where
  "probe_log be now request_id c =
     \<lparr>l_request_id = Some request_id, l_timestamp = now, l_request_source = be_source be,
      l_selected_model_id = pc_id c, l_provider_id = pc_provider_id c,
      l_selected_provider_model_id = None, l_selected_tokenizer_family = None,
      l_client_requested_model = JNull, l_attempt_index = 0, l_was_fallback = False,
      l_estimated_prompt_tokens = None, l_selected_context_window = None, l_prompt_tokens = JNull,
      l_completion_tokens = JNull, l_total_tokens = JNull, l_latency_ms = None, l_ttfb_ms = None,
      l_success = False, l_gateway_error_category = None, l_error_code = None,
      l_error_message = None, l_was_streaming = False, l_had_tools = False, l_had_vision = False\<rparr>"

text \<open>After the provider has answered or raised.\<close>

definition probe_finish ::
  "batch_env \<Rightarrow> tables \<Rightarrow> timestamp \<Rightarrow> nat \<Rightarrow> probe_candidate \<Rightarrow> string \<Rightarrow> probe_result \<Rightarrow> batch \<Rightarrow> batch" where
  "probe_finish be t now k c request_id res b = (case res of
       Probed latency_ms ttfb_ms \<Rightarrow>
         b\<lparr>b_phases := (b_phases b)[k := Done], b_recovered := b_recovered b + 1,
           b_stmts := b_stmts b @ mark_success now (pc_id c) latency_ms ttfb_ms (Some now)
             @ [InsertLog ((probe_log be now request_id c)\<lparr>l_latency_ms := latency_ms,
                  l_ttfb_ms := ttfb_ms, l_success := True\<rparr>)]\<rparr>
     | ProbeRaised error \<Rightarrow>
         b\<lparr>b_phases := (b_phases b)[k := Done], b_failed := b_failed b + 1,
           b_stmts := b_stmts b @ mark_failure (be_settings be) t now (pc_id c) error
             @ [InsertLog ((probe_log be now request_id c)\<lparr>
                  l_gateway_error_category := Some ''provider_error'',
                  l_error_message := Some (take 500 error)\<rparr>)]\<rparr>)"

text \<open>\<open>V\<close> holds of the database states the batch may see while it runs.\<close>

inductive batch_step :: "batch_env \<Rightarrow> (tables \<Rightarrow> bool) \<Rightarrow> probe_candidate list \<Rightarrow> batch \<Rightarrow> batch \<Rightarrow> bool"
  for be :: batch_env and V :: "tables \<Rightarrow> bool" and cs :: "probe_candidate list" where
  start: "k < length cs \<Longrightarrow> b_phases b ! k = Ready \<Longrightarrow> V t \<Longrightarrow>
     batch_step be V cs b (probe_start be t k (cs ! k) b)"
| enter: "k < length cs \<Longrightarrow> b_phases b ! k = Reserved \<Longrightarrow>
     in_flight b < health_probe_concurrency (be_settings be) \<Longrightarrow>
     batch_step be V cs b (probe_begin be k (cs ! k) b)"
| finish: "k < length cs \<Longrightarrow> b_phases b ! k = Probing r \<Longrightarrow> V t \<Longrightarrow>
     batch_step be V cs b (probe_finish be t now k (cs ! k) r res b)"

inductive batch_reach :: "batch_env \<Rightarrow> (tables \<Rightarrow> bool) \<Rightarrow> probe_candidate list \<Rightarrow> batch \<Rightarrow> bool"
  for be :: batch_env and V :: "tables \<Rightarrow> bool" and cs :: "probe_candidate list" where
  init: "batch_reach be V cs (batch_init cs)"
| step: "batch_reach be V cs b \<Longrightarrow> batch_step be V cs b b' \<Longrightarrow> batch_reach be V cs b'"

text \<open>The number of candidates of provider \<open>p\<close> that were granted a probe.\<close>

definition granted :: "phase \<Rightarrow> bool" where
  "granted ph = (ph \<noteq> Ready \<and> ph \<noteq> Skipped)"

definition started_for :: "provider_id \<Rightarrow> probe_candidate list \<Rightarrow> batch \<Rightarrow> int" where
  "started_for p cs b = count_if (\<lambda>(c, ph). pc_provider_id c = p \<and> granted ph) (zip cs (b_phases b))"

definition batch_done :: "batch \<Rightarrow> bool" where
  "batch_done b = list_all (\<lambda>ph. ph = Skipped \<or> ph = Done) (b_phases b)"

definition counts_inv :: "batch_env \<Rightarrow> probe_candidate list \<Rightarrow> batch \<Rightarrow> bool" where
  "counts_inv be cs b =
    (length (b_phases b) = length cs
     \<and> b_probed b = in_flight b + count_if (\<lambda>ph. ph = Done) (b_phases b)
     \<and> b_recovered b + b_failed b = count_if (\<lambda>ph. ph = Done) (b_phases b)
     \<and> b_skipped b = count_if (\<lambda>ph. ph = Skipped) (b_phases b)
     \<and> in_flight b \<le> max 0 (health_probe_concurrency (be_settings be)))"

lemma probe_start_cases:
  obtains (skip) b1 where "probe_start be t k c b = skip_probe k b1" "b_phases b1 = b_phases b"
      "b_probed b1 = b_probed b" "b_recovered b1 = b_recovered b" "b_failed b1 = b_failed b"
      "b_skipped b1 = b_skipped b" "b_usage b1 = b_usage b \<or>
        b_usage b1 = setdefault (pc_provider_id c) (get_provider_probe_usage t (pc_provider_id c) (be_day be)) (b_usage b)"
  | (reserve) usage where
      "usage = setdefault (pc_provider_id c) (get_provider_probe_usage t (pc_provider_id c) (be_day be)) (b_usage b)"
      "dict_get usage (pc_provider_id c) 0 < budget_limit be (pc_provider_id c)"
      "probe_start be t k c b = b\<lparr>b_usage := AList.update (pc_provider_id c) (dict_get usage (pc_provider_id c) 0 + 1) usage,
         b_phases := (b_phases b)[k := Reserved]\<rparr>"
  unfolding probe_start_def Let_def
  by (cases "be_registry be (pc_provider_id c)") (force split: if_splits)+

lemma is_probing_simps [simp]:
  "is_probing (Probing r)" "\<not> is_probing Ready" "\<not> is_probing Reserved" "\<not> is_probing Skipped"
  "\<not> is_probing Done"
  by (simp_all add: is_probing_def)

lemma counts_inv_step:
  assumes "batch_step be V cs b b'" and inv: "counts_inv be cs b"
  shows "counts_inv be cs b'"
  using assms
proof (cases rule: batch_step.cases)
  case (start k t)
  with inv have k: "k < length (b_phases b)" by (simp add: counts_inv_def)
  show ?thesis
  proof (cases rule: probe_start_cases [of be t k "cs ! k" b])
    case (skip b1)
    with start inv k show ?thesis
      by (simp add: counts_inv_def skip_probe_def in_flight_def count_if_update)
  next
    case (reserve usage)
    with start inv k show ?thesis by (simp add: counts_inv_def in_flight_def count_if_update)
  qed
next
  case (enter k)
  with inv show ?thesis by (simp add: counts_inv_def in_flight_def probe_begin_def count_if_update)
next
  case (finish k r t now res)
  with inv show ?thesis
    by (cases res) (simp_all add: counts_inv_def in_flight_def probe_finish_def count_if_update)
qed

lemma counts_inv_reach: "batch_reach be V cs b \<Longrightarrow> counts_inv be cs b"
proof (induction rule: batch_reach.induct)
  case init
  show ?case by (simp add: counts_inv_def batch_init_def in_flight_def count_if_replicate)
next
  case (step b b')
  then show ?case by (blast intro: counts_inv_step)
qed

lemma has_key_conv: "has_key d k = (map_of d k \<noteq> None)"
  by (simp add: has_key_def map_of_eq_None_iff)

lemma setdefault_get [simp]:
  "dict_get (setdefault k v d) k w = (if has_key d k then dict_get d k w else v)"
  "k' \<noteq> k \<Longrightarrow> dict_get (setdefault k v d) k' w = dict_get d k' w"
  "has_key (setdefault k v d) k' = (k' = k \<or> has_key d k')"
  by (auto simp: setdefault_def has_key_conv dict_get_def map_add_def split: option.splits)

lemma has_key_update [simp]: "has_key (AList.update k v d) k' = (k' = k \<or> has_key d k')"
  by (simp add: has_key_conv update_conv')

text \<open>A provider with no usage entry has no grant; with an entry, the entry exceeds the usage read by
  the grants made since.\<close>

definition budget_inv :: "batch_env \<Rightarrow> int \<Rightarrow> provider_id \<Rightarrow> probe_candidate list \<Rightarrow> batch \<Rightarrow> bool" where
  "budget_inv be used p cs b =
     (if has_key (b_usage b) p
      then used + started_for p cs b \<le> dict_get (b_usage b) p 0
        \<and> (started_for p cs b = 0 \<or> dict_get (b_usage b) p 0 \<le> budget_limit be p)
      else started_for p cs b = 0)"

lemma started_for_update:
  assumes "k < length cs" and "length ph = length cs"
  shows "count_if (\<lambda>(c, ph). pc_provider_id c = p \<and> granted ph) (zip cs (ph[k := x])) =
    count_if (\<lambda>(c, ph). pc_provider_id c = p \<and> granted ph) (zip cs ph)
    - (if pc_provider_id (cs ! k) = p \<and> granted (ph ! k) then 1 else 0)
    + (if pc_provider_id (cs ! k) = p \<and> granted x then 1 else 0)"
proof -
  have "zip cs (ph[k := x]) = (zip cs ph)[k := (cs ! k, x)]"
    using update_zip [of cs ph k "(cs ! k, x)"] by simp
  then show ?thesis using assms by (simp add: count_if_update)
qed

lemma granted_simps [simp]:
  "\<not> granted Ready" "granted Reserved" "granted (Probing r)" "\<not> granted Skipped" "granted Done"
  by (simp_all add: granted_def)

lemma budget_inv_step:
  assumes "batch_step be V cs b b'" and inv: "budget_inv be used p cs b" and c: "counts_inv be cs b"
    and V: "\<And>t. V t \<Longrightarrow> used \<le> get_provider_probe_usage t p (be_day be)"
  shows "budget_inv be used p cs b'"
  using assms(1)
proof (cases rule: batch_step.cases)
  case (start k t)
  with c have len: "length (b_phases b) = length cs" by (simp add: counts_inv_def)
  show ?thesis
  proof (cases rule: probe_start_cases [of be t k "cs ! k" b])
    case (skip b1)
    have "started_for p cs b' = started_for p cs b"
      using start skip(1,2) len by (simp add: started_for_def skip_probe_def started_for_update)
    moreover have "b_usage b' = b_usage b1" using start(1) skip(1) by (simp add: skip_probe_def)
    ultimately show ?thesis using inv skip(7) V [OF start(4)]
      by (cases "pc_provider_id (cs ! k) = p"; cases "has_key (b_usage b) p") (auto simp: budget_inv_def)
  next
    case (reserve usage)
    have grow: "started_for p cs b' = started_for p cs b + (if pc_provider_id (cs ! k) = p then 1 else 0)"
      using start reserve(3) len by (simp add: started_for_def started_for_update)
    show ?thesis
    proof (cases "pc_provider_id (cs ! k) = p")
      case True
      with reserve start grow inv V [OF start(4)] show ?thesis
        by (cases "has_key (b_usage b) p") (auto simp: budget_inv_def)
    next
      case False
      with reserve start grow inv show ?thesis by (auto simp: budget_inv_def)
    qed
  qed
next
  case (enter k)
  with c have "started_for p cs b' = started_for p cs b" "b_usage b' = b_usage b"
    by (simp_all add: counts_inv_def started_for_def probe_begin_def started_for_update)
  with inv show ?thesis by (simp add: budget_inv_def)
next
  case (finish k r t now res)
  with c have "started_for p cs b' = started_for p cs b" "b_usage b' = b_usage b"
    by (cases res; simp add: counts_inv_def started_for_def probe_finish_def started_for_update)+
  with inv show ?thesis by (simp add: budget_inv_def)
qed

lemma budget_inv_reach:
  assumes "batch_reach be V cs b" and V: "\<And>t. V t \<Longrightarrow> used \<le> get_provider_probe_usage t p (be_day be)"
  shows "budget_inv be used p cs b"
  using assms(1)
proof (induction rule: batch_reach.induct)
  case init
  have "started_for p cs (batch_init cs) = 0"
    by (auto simp: started_for_def batch_init_def count_if_def filter_empty_conv in_set_zip)
  then show ?case by (simp add: budget_inv_def batch_init_def has_key_def)
next
  case (step b b')
  then show ?case using budget_inv_step [OF step(2)] counts_inv_reach V by blast
qed

text \<open>
  C10 (safety). Daily budgets hold under every interleaving of the probes of a batch: if the
  database showed at least \<open>used\<close> probes of a provider today whenever it was read, then the
  probes granted to that provider never exceed its budget less \<open>used\<close>, and never more than
  \<open>probe_concurrency\<close> probes are in flight.
\<close>

theorem probe_budget_respected:
  assumes "batch_reach be V cs b" and "\<And>t. V t \<Longrightarrow> used \<le> get_provider_probe_usage t p (be_day be)"
  shows "(started_for p cs b = 0 \<or> used + started_for p cs b \<le> budget_limit be p)
    \<and> in_flight b \<le> max 0 (health_probe_concurrency (be_settings be))"
proof -
  have "budget_inv be used p cs b" "counts_inv be cs b"
    using assms budget_inv_reach counts_inv_reach by blast+
  then show ?thesis by (auto simp: budget_inv_def counts_inv_def split: if_splits)
qed

definition example_batch_env :: batch_env where
  "example_batch_env = \<lparr>be_settings = default_settings, be_registry = probe_view example_registry,
     be_source = ''probe'', be_day = 0\<rparr>"

lemma example_started:
  "probe_start example_batch_env healthy_tables 0 (to_candidate ''stale'' (example_model ''m1'' 40))
     (batch_init [to_candidate ''stale'' (example_model ''m1'' 40)]) =
   \<lparr>b_phases = [Reserved], b_usage = [(''openrouter'', 1)], b_probed = 0, b_recovered = 0, b_failed = 0,
    b_skipped = 0, b_stmts = []\<rparr>"
proof -
  have "is_provider_active_probe_enabled default_settings ''openrouter''"
    by (simp add: is_provider_active_probe_enabled_def default_settings_def post_init_def field_defaults_def
        Let_def py_strip_def py_lstrip_def chr_isspace_def code_def setdefault_def has_key_def dict_get_def)
  moreover have "budget_limit example_batch_env ''openrouter'' = 5"
    by (simp add: budget_limit_def example_batch_env_def default_settings_def post_init_def
        field_defaults_def Let_def dict_get_def)
  ultimately show ?thesis
    by (simp add: probe_start_def Let_def example_batch_env_def to_candidate_def example_model_def
        batch_init_def get_provider_probe_usage_def healthy_tables_def empty_tables_def
        setdefault_def has_key_def dict_get_def)
qed

theorem probe_budget_respected_witness:
  "\<exists>b. batch_reach example_batch_env (\<lambda>t. t = healthy_tables) [to_candidate ''stale'' (example_model ''m1'' 40)] b
     \<and> started_for ''openrouter'' [to_candidate ''stale'' (example_model ''m1'' 40)] b = 1
     \<and> started_for ''openrouter'' [to_candidate ''stale'' (example_model ''m1'' 40)] b
         \<le> budget_limit example_batch_env ''openrouter''"
proof -
  let ?c = "to_candidate ''stale'' (example_model ''m1'' 40)"
  let ?b = "probe_start example_batch_env healthy_tables 0 ?c (batch_init [?c])"
  have "batch_step example_batch_env (\<lambda>t. t = healthy_tables) [?c] (batch_init [?c])
      (probe_start example_batch_env healthy_tables 0 ([?c] ! 0) (batch_init [?c]))"
    by (rule batch_step.start) (simp_all add: batch_init_def)
  then have r: "batch_reach example_batch_env (\<lambda>t. t = healthy_tables) [?c] ?b"
    using batch_reach.init batch_reach.step by fastforce
  have one: "started_for ''openrouter'' [?c] ?b = 1"
    unfolding example_started by (simp add: started_for_def count_if_def to_candidate_def example_model_def)
  have "0 \<le> get_provider_probe_usage t ''openrouter'' (be_day example_batch_env)" for t
    by (simp add: get_provider_probe_usage_def)
  from probe_budget_respected [OF r this] one have "1 \<le> budget_limit example_batch_env ''openrouter''" by auto
  with r one show ?thesis by metis
qed

lemma count_all_phases:
  "int (length phs) = count_if (\<lambda>ph. ph = Ready) phs + count_if (\<lambda>ph. ph = Reserved) phs
     + count_if is_probing phs + count_if (\<lambda>ph. ph = Skipped) phs + count_if (\<lambda>ph. ph = Done) phs"
proof (induction phs)
  case (Cons ph phs)
  then show ?case by (cases ph) (simp_all add: count_if_Cons)
qed simp

text \<open>The steps a batch has left: three per candidate not started, two per reservation, one per probe.\<close>

definition work_left :: "batch \<Rightarrow> int" where
  "work_left b = 3 * count_if (\<lambda>ph. ph = Ready) (b_phases b)
     + 2 * count_if (\<lambda>ph. ph = Reserved) (b_phases b) + in_flight b"

lemma work_left_step:
  assumes "batch_step be V cs b b'" and inv: "counts_inv be cs b"
  shows "work_left b' < work_left b"
  using assms
proof (cases rule: batch_step.cases)
  case (start k t)
  with inv have k: "k < length (b_phases b)" by (simp add: counts_inv_def)
  show ?thesis
  proof (cases rule: probe_start_cases [of be t k "cs ! k" b])
    case (skip b1)
    with start k show ?thesis by (simp add: work_left_def skip_probe_def in_flight_def count_if_update)
  next
    case (reserve usage)
    with start k show ?thesis by (simp add: work_left_def in_flight_def count_if_update)
  qed
next
  case (enter k)
  with inv show ?thesis by (simp add: counts_inv_def work_left_def in_flight_def probe_begin_def count_if_update)
next
  case (finish k r t now res)
  with inv show ?thesis
    by (cases res) (simp_all add: counts_inv_def work_left_def in_flight_def probe_finish_def count_if_update)
qed

lemma batch_not_stuck:
  assumes inv: "counts_inv be cs b" and nd: "\<not> batch_done b" and V: "V t"
    and conc: "1 \<le> health_probe_concurrency (be_settings be)"
  shows "\<exists>b'. batch_step be V cs b b'"
proof -
  from nd obtain k where k: "k < length (b_phases b)" "b_phases b ! k \<noteq> Skipped" "b_phases b ! k \<noteq> Done"
    by (auto simp: batch_done_def list_all_length)
  from inv k(1) have len: "k < length cs" by (simp add: counts_inv_def)
  show ?thesis
  proof (cases "in_flight b < health_probe_concurrency (be_settings be)")
    case True
    with k len V show ?thesis by (cases "b_phases b ! k") (blast intro: batch_step.intros)+
  next
    case False
    with conc have "filter is_probing (b_phases b) \<noteq> []" by (auto simp: in_flight_def count_if_def)
    then obtain j where "j < length (b_phases b)" "is_probing (b_phases b ! j)"
      by (auto simp: filter_empty_conv in_set_conv_nth)
    with inv V show ?thesis
      by (cases "b_phases b ! j") (auto simp: counts_inv_def intro: batch_step.finish)
  qed
qed

lemma batch_finishes:
  assumes "counts_inv be cs b" and "V t" and "1 \<le> health_probe_concurrency (be_settings be)"
  shows "\<exists>b'. (batch_step be V cs)\<^sup>*\<^sup>* b b' \<and> batch_done b'"
  using assms(1)
proof (induction "nat (work_left b)" arbitrary: b rule: less_induct)
  case less
  show ?case
  proof (cases "batch_done b")
    case False
    with batch_not_stuck [of be cs b V t] less.prems assms(2,3) obtain b1 where b1: "batch_step be V cs b b1" by blast
    have "0 \<le> work_left b1" by (simp add: work_left_def in_flight_def)
    with work_left_step [OF b1 less.prems] have "nat (work_left b1) < nat (work_left b)" by linarith
    from less.hyps [OF this counts_inv_step [OF b1 less.prems]] b1 show ?thesis
      by (meson converse_rtranclp_into_rtranclp)
  qed blast
qed

lemma batch_steps_bound:
  "(batch_step be V cs ^^ n) b b' \<Longrightarrow> counts_inv be cs b \<Longrightarrow> int n \<le> work_left b - work_left b'"
proof (induction n arbitrary: b')
  case (Suc n)
  then obtain b1 where b1: "(batch_step be V cs ^^ n) b b1" "batch_step be V cs b1 b'" by auto
  have "counts_inv be cs b1"
    using b1(1) Suc.prems(2)
    by (metis counts_inv_step relpowp_imp_rtranclp rtranclp_induct)
  with Suc.IH [OF b1(1) Suc.prems(2)] work_left_step [OF b1(2)] show ?case by simp
qed simp

text \<open>
  C38 (termination). Every run of a probe batch ends: no schedule takes more than three steps per
  candidate, and from every reachable state the batch can run to completion (concurrency at
  least one). When it is complete, every candidate is counted once: \<open>considered = probed + skipped\<close>
  and \<open>probed = recovered + failed\<close>.
\<close>

theorem probe_batch_completes:
  assumes "1 \<le> health_probe_concurrency (be_settings be)" and "V t"
  shows "((batch_step be V cs ^^ n) (batch_init cs) b \<longrightarrow> n \<le> 3 * length cs)
    \<and> (batch_reach be V cs b \<longrightarrow> (\<exists>b'. (batch_step be V cs)\<^sup>*\<^sup>* b b' \<and> batch_done b'))
    \<and> (batch_reach be V cs b \<and> batch_done b \<longrightarrow>
        int (length cs) = b_probed b + b_skipped b \<and> b_probed b = b_recovered b + b_failed b)"
proof (intro conjI impI)
  have init: "counts_inv be cs (batch_init cs)" by (rule counts_inv_reach [OF batch_reach.init])
  show "n \<le> 3 * length cs" if "(batch_step be V cs ^^ n) (batch_init cs) b"
  proof -
    have "work_left (batch_init cs) = 3 * int (length cs)"
      by (simp add: work_left_def batch_init_def in_flight_def count_if_replicate)
    moreover have "0 \<le> work_left b" by (simp add: work_left_def in_flight_def)
    ultimately show ?thesis using batch_steps_bound [OF that init] by linarith
  qed
  show "\<exists>b'. (batch_step be V cs)\<^sup>*\<^sup>* b b' \<and> batch_done b'" if "batch_reach be V cs b"
    using batch_finishes [of be cs b V t] counts_inv_reach [OF that] assms by blast
  assume "batch_reach be V cs b \<and> batch_done b"
  then have inv: "counts_inv be cs b" and "count_if (\<lambda>ph. ph = Ready) (b_phases b) = 0"
    "count_if (\<lambda>ph. ph = Reserved) (b_phases b) = 0" "count_if is_probing (b_phases b) = 0"
    by (auto simp: counts_inv_reach batch_done_def list_all_iff count_if_def filter_empty_conv is_probing_def
        split: phase.splits)
  with count_all_phases [of "b_phases b"] show "int (length cs) = b_probed b + b_skipped b"
    "b_probed b = b_recovered b + b_failed b"
    by (simp_all add: counts_inv_def in_flight_def)
qed

theorem probe_batch_completes_witness:
  "\<exists>b'. (batch_step example_batch_env (\<lambda>t. t = healthy_tables) [to_candidate ''stale'' (example_model ''m1'' 40)])\<^sup>*\<^sup>*
      (batch_init [to_candidate ''stale'' (example_model ''m1'' 40)]) b' \<and> batch_done b'"
proof -
  have "1 \<le> health_probe_concurrency (be_settings example_batch_env)"
    by (simp add: example_batch_env_def default_settings_def post_init_def field_defaults_def Let_def)
  from probe_batch_completes [OF this, of "\<lambda>t. t = healthy_tables" healthy_tables]
  show ?thesis using batch_reach.init by blast
qed

section \<open>The runtime summary\<close>

record probe_runtime_summary =
  rs_max_probes_per_run :: int
  rs_probe_concurrency :: int
  rs_stale_after_minutes :: int
  rs_startup_probe_limit :: int
  rs_cooldown_recovery :: int
  rs_never_probed :: int
  rs_stale :: int
  rs_active_cooldowns :: int
  rs_disabled_provider_ids :: "provider_id list"
  rs_budget_exhausted_provider_ids :: "provider_id list"
  rs_next_candidates :: "probe_candidate list"

definition in_cooldown :: "timestamp \<Rightarrow> model_row \<Rightarrow> bool" where
  "in_cooldown now m = (m_is_active m \<and> (case m_cooldown_until m of None \<Rightarrow> False | Some c \<Rightarrow> now \<le> c))"

definition get_probe_runtime_summary :: "tables \<Rightarrow> settings \<Rightarrow> timestamp \<Rightarrow> probe_runtime_summary" where
  "get_probe_runtime_summary t s now =
    (let stale_before = stale_before_iso now (health_stale_after_minutes s);
         providers = map fst (group_by m_provider_id (filter m_is_active (t_models t)))
     in \<lparr>rs_max_probes_per_run = health_max_probes_per_run s,
         rs_probe_concurrency = health_probe_concurrency s,
         rs_stale_after_minutes = health_stale_after_minutes s,
         rs_startup_probe_limit = health_startup_probe_limit s,
         rs_cooldown_recovery = count_if (cooldown_expired now) (t_models t),
         rs_never_probed = count_if never_probed (t_models t),
         rs_stale = count_if (is_stale stale_before) (t_models t),
         rs_active_cooldowns = count_if (in_cooldown now) (t_models t),
         rs_disabled_provider_ids =
           filter (\<lambda>p. p \<noteq> [] \<and> \<not> is_provider_active_probe_enabled s p) providers,
         rs_budget_exhausted_provider_ids =
           map bs_provider_id (filter (\<lambda>i. bs_remaining i \<le> 0) (get_probe_budget_summary t s now)),
         rs_next_candidates = select_probe_candidates t s now\<rparr>)"

text \<open>\<open>run_health_checks\<close> and \<open>bootstrap_health_check\<close>: a batch over the selected models, for the day it
  starts on.\<close>

definition health_check_env :: "settings \<Rightarrow> registry \<Rightarrow> timestamp \<Rightarrow> batch_env" where
  "health_check_env s reg now =
     \<lparr>be_settings = s, be_registry = probe_view reg, be_source = ''probe'', be_day = utc_day now\<rparr>"

definition bootstrap_env :: "settings \<Rightarrow> registry \<Rightarrow> timestamp \<Rightarrow> batch_env" where
  "bootstrap_env s reg now = (health_check_env s reg now)\<lparr>be_source := ''bootstrap''\<rparr>"

definition run_health_checks ::
  "settings \<Rightarrow> registry \<Rightarrow> tables \<Rightarrow> timestamp \<Rightarrow> (tables \<Rightarrow> bool) \<Rightarrow> batch \<Rightarrow> bool" where
  "run_health_checks s reg t now V b =
     batch_reach (health_check_env s reg now) V (select_probe_candidates t s now) b"

definition bootstrap_health_check ::
  "settings \<Rightarrow> registry \<Rightarrow> tables \<Rightarrow> timestamp \<Rightarrow> (tables \<Rightarrow> bool) \<Rightarrow> batch \<Rightarrow> bool" where
  "bootstrap_health_check s reg t now V b =
     batch_reach (bootstrap_env s reg now) V
       (select_bootstrap_candidates t (ranking_fallback_model s) (health_startup_probe_limit s)) b"

text \<open>
  The report and the probe runs agree: a provider the summary lists as having
  exhausted its budget gets no probe from a scheduled run of the same day, as long as its usage
  does not fall below what the summary saw.
\<close>

theorem exhausted_provider_not_probed:
  assumes "distinct (map fst (health_daily_request_budget_by_provider s))"
    and "p \<in> set (rs_budget_exhausted_provider_ids (get_probe_runtime_summary t s now))"
    and "run_health_checks s reg t' now V b"
    and "\<And>u. V u \<Longrightarrow> get_provider_probe_usage t p (utc_day now) \<le> get_provider_probe_usage u p (utc_day now)"
  shows "started_for p (select_probe_candidates t' s now) b = 0"
proof -
  let ?used = "get_provider_probe_usage t p (utc_day now)" and ?be = "health_check_env s reg now"
  from assms(2) obtain limit where "(p, limit) \<in> set (health_daily_request_budget_by_provider s)"
    "max (limit - ?used) 0 \<le> 0"
    by (auto simp: get_probe_runtime_summary_def get_probe_budget_summary_def Let_def)
  with assms(1) have "budget_limit ?be p \<le> ?used"
    by (simp add: budget_limit_def health_check_env_def dict_get_def)
  moreover have "budget_inv ?be ?used p (select_probe_candidates t' s now) b"
    using assms(3,4) budget_inv_reach [of ?be V _ b ?used p] unfolding run_health_checks_def
    by (simp add: health_check_env_def)
  moreover have "0 \<le> started_for p (select_probe_candidates t' s now) b"
    by (simp add: started_for_def)
  ultimately show ?thesis by (auto simp: budget_inv_def split: if_splits)
qed

theorem exhausted_provider_not_probed_witness:
  "\<exists>b. run_health_checks (default_settings\<lparr>health_daily_request_budget_by_provider := [(''openrouter'', 0)]\<rparr>)
        example_registry healthy_tables 100 (\<lambda>u. True) b
     \<and> started_for ''openrouter'' (select_probe_candidates healthy_tables
         (default_settings\<lparr>health_daily_request_budget_by_provider := [(''openrouter'', 0)]\<rparr>) 100) b = 0"
proof -
  let ?s = "default_settings\<lparr>health_daily_request_budget_by_provider := [(''openrouter'', 0)]\<rparr>"
  have run: "run_health_checks ?s example_registry healthy_tables 100 (\<lambda>u. True)
      (batch_init (select_probe_candidates healthy_tables ?s 100))"
    unfolding run_health_checks_def by (rule batch_reach.init)
  have zero: "get_provider_probe_usage healthy_tables ''openrouter'' (utc_day 100) = 0"
    by (simp add: get_provider_probe_usage_def healthy_tables_def empty_tables_def)
  have ex: "''openrouter'' \<in> set (rs_budget_exhausted_provider_ids (get_probe_runtime_summary healthy_tables ?s 100))"
    by (simp add: get_probe_runtime_summary_def get_probe_budget_summary_def Let_def zero)
  have "started_for ''openrouter'' (select_probe_candidates healthy_tables ?s 100)
      (batch_init (select_probe_candidates healthy_tables ?s 100)) = 0"
    by (rule exhausted_provider_not_probed [OF _ ex run])
      (simp_all add: zero, simp add: get_provider_probe_usage_def)
  with run show ?thesis by blast
qed

end
