(* ===== verification/FL_Ranking.thy ===== *)
theory FL_Ranking
  imports FL_Routing FL_Config
begin

text \<open>
  Ranking (\<open>src/ranking.py\<close>): the telemetry of the last seven days, the six factors of the
  composite score, their weighted mean over the factors that are known, and the statements
  that store the scores.
\<close>

record telemetry_snapshot =
  ts_total_requests :: int
  ts_success_rate :: rat
  ts_avg_latency_ms :: rat
  ts_avg_ttfb_ms :: rat
  ts_rate_limit_ratio :: rat

definition no_telemetry :: telemetry_snapshot where
  "no_telemetry = \<lparr>ts_total_requests = 0, ts_success_rate = 0, ts_avg_latency_ms = 0,
     ts_avg_ttfb_ms = 0, ts_rate_limit_ratio = 0\<rparr>"

definition window_start_iso :: "timestamp \<Rightarrow> int \<Rightarrow> timestamp" where
  "window_start_iso now days = now - 86400 * days"

text \<open>\<open>AVG\<close> over the values that are not null, zero in place of null.\<close>

definition avg_or_zero :: "rat list \<Rightarrow> rat" where
  "avg_or_zero xs = (if xs = [] then 0 else sum_list xs / of_nat (length xs))"

definition flag :: "bool \<Rightarrow> rat" where
  "flag b = (if b then 1 else 0)"

definition rate_limited :: "log_row \<Rightarrow> bool" where
  "rate_limited l = (l_error_code l = Some ''429''
     \<or> (case l_error_message l of None \<Rightarrow> False | Some msg \<Rightarrow> py_in ''429'' msg))"

definition telemetry_of :: "log_row list \<Rightarrow> telemetry_snapshot" where
  "telemetry_of ls = \<lparr>ts_total_requests = int (length ls),
     ts_success_rate = avg_or_zero (map (flag \<circ> l_success) ls),
     ts_avg_latency_ms = avg_or_zero (List.map_filter l_latency_ms ls),
     ts_avg_ttfb_ms = avg_or_zero (List.map_filter l_ttfb_ms ls),
     ts_rate_limit_ratio = avg_or_zero (map (flag \<circ> rate_limited) ls)\<rparr>"

definition load_telemetry_by_model :: "tables \<Rightarrow> timestamp \<Rightarrow> (model_id, telemetry_snapshot) dict" where
  "load_telemetry_by_model t now =
     map (\<lambda>(i, ls). (i, telemetry_of ls)) (group_by l_selected_model_id
       (filter (\<lambda>l. l_request_source l = ''client'' \<and> window_start_iso now 7 \<le> l_timestamp l) (t_log t)))"

section \<open>Normalisation\<close>

definition normalize :: "rat \<Rightarrow> rat \<Rightarrow> rat \<Rightarrow> rat" where
  "normalize v lo hi = (if hi \<le> lo then 1 else max 0 (min 1 ((v - lo) / (hi - lo))))"

definition normalize_inverse :: "rat \<Rightarrow> rat \<Rightarrow> rat \<Rightarrow> rat" where
  "normalize_inverse v lo hi = 1 - normalize v lo hi"

definition cold_start_usage_score :: "int option \<Rightarrow> int \<Rightarrow> rat" where
  "cold_start_usage_score rank max_rank = (case rank of
       None \<Rightarrow> 1 / 2
     | Some r \<Rightarrow> normalize_inverse (of_int r) 1 (of_int (max max_rank 1)))"

fun positive_rank :: "json \<Rightarrow> int option" where
  "positive_rank JNull = None"
| "positive_rank (JList xs) = None"
| "positive_rank (JObj kvs) = None"
| "positive_rank v = (case py_int_of v of
      Inl e \<Rightarrow> None | Inr i \<Rightarrow> if 0 < i then Some i else None)"

definition effective_provider_rank :: "json \<Rightarrow> json \<Rightarrow> int option" where
  "effective_provider_rank provider_rank openrouter_rank =
     (case positive_rank provider_rank of Some r \<Rightarrow> Some r | None \<Rightarrow> positive_rank openrouter_rank)"

definition jrank :: "int option \<Rightarrow> json" where
  "jrank r = (case r of None \<Rightarrow> JNull | Some i \<Rightarrow> JInt i)"

definition rank_of_row :: "model_row \<Rightarrow> int option" where
  "rank_of_row m = effective_provider_rank (jrank (m_provider_rank m)) (jrank (m_openrouter_rank m))"

lemma normalize_bounds: "0 \<le> normalize v lo hi" "normalize v lo hi \<le> 1"
  by (simp_all add: normalize_def)

lemma normalize_inverse_bounds: "0 \<le> normalize_inverse v lo hi" "normalize_inverse v lo hi \<le> 1"
  by (simp_all add: normalize_inverse_def normalize_bounds)

section \<open>The factors\<close>

definition or_else :: "rat \<Rightarrow> rat \<Rightarrow> rat" where
  "or_else x y = (if x \<noteq> 0 then x else y)"

definition coalesce0 :: "rat option \<Rightarrow> rat" where
  "coalesce0 x = (case x of None \<Rightarrow> 0 | Some v \<Rightarrow> v)"

definition latency_reference :: "telemetry_snapshot \<Rightarrow> model_row \<Rightarrow> rat" where
  "latency_reference tel m = or_else (ts_avg_ttfb_ms tel) (or_else (ts_avg_latency_ms tel)
     (or_else (coalesce0 (m_avg_ttfb_ms m)) (coalesce0 (m_avg_latency_ms m))))"

text \<open>The extremes of each quantity over the active models.\<close>

record ranking_stats =
  st_elo :: "rat \<times> rat"
  st_llm :: "rat \<times> rat"
  st_context :: "int \<times> int"
  st_latency :: "rat \<times> rat"
  st_max_rank :: int

definition min_max :: "'a::{linorder, zero} list \<Rightarrow> 'a \<times> 'a" where
  "min_max xs = (if xs = [] then (0, 0) else (Min (set xs), Max (set xs)))"

definition ctx_of :: "model_row \<Rightarrow> int" where
  "ctx_of m = (case m_context_window m of None \<Rightarrow> 0 | Some w \<Rightarrow> w)"

definition ranking_stats_of :: "(model_id, telemetry_snapshot) dict \<Rightarrow> model_row list \<Rightarrow> ranking_stats" where
  "ranking_stats_of tels rows =
     \<lparr>st_elo = min_max (List.map_filter m_chatbot_arena_elo rows),
      st_llm = min_max (List.map_filter m_open_llm_score rows),
      st_context = min_max (map ctx_of rows),
      st_latency = min_max (filter (\<lambda>l. 0 < l)
         (map (\<lambda>m. latency_reference (dict_get tels (m_id m) no_telemetry) m) rows)),
      st_max_rank = (let ranks = List.map_filter rank_of_row rows in
         if ranks = [] then 1 else Max (set ranks))\<rparr>"

definition benchmark_score :: "ranking_stats \<Rightarrow> model_row \<Rightarrow> rat option" where
  "benchmark_score st m =
    (let parts = (case m_chatbot_arena_elo m of None \<Rightarrow> []
                  | Some e \<Rightarrow> [normalize e (fst (st_elo st)) (snd (st_elo st))])
               @ (case m_open_llm_score m of None \<Rightarrow> []
                  | Some e \<Rightarrow> [normalize e (fst (st_llm st)) (snd (st_llm st))])
     in if parts = [] then None else Some (sum_list parts / of_nat (length parts)))"

definition usage_score :: "ranking_stats \<Rightarrow> telemetry_snapshot \<Rightarrow> model_row \<Rightarrow> rat" where
  "usage_score st tel m =
     (if 5 \<le> ts_total_requests tel
      then max 0 (min 1 (ts_success_rate tel * (6 / 10)
             + of_int (min (ts_total_requests tel) 50) / 50 * (25 / 100)
             + (1 - ts_rate_limit_ratio tel) * (15 / 100)))
      else cold_start_usage_score (rank_of_row m) (st_max_rank st))"

definition latency_score :: "ranking_stats \<Rightarrow> telemetry_snapshot \<Rightarrow> model_row \<Rightarrow> rat option" where
  "latency_score st tel m = (let r = latency_reference tel m in
     if 0 < r then Some (normalize_inverse r (fst (st_latency st)) (snd (st_latency st))) else None)"

definition availability_penalty :: "settings \<Rightarrow> timestamp \<Rightarrow> model_row \<Rightarrow> rat" where
  "availability_penalty s now m =
     (if m_is_healthy m then 0 else 45 / 100)
     + (case m_cooldown_until m of None \<Rightarrow> 0 | Some c \<Rightarrow> if now < c then 30 / 100 else 0)
     + of_int (min (m_consecutive_failures m) (health_consecutive_failures_threshold s)) * (8 / 100)
     + of_int (min (m_backoff_level m) (health_max_backoff_exponent s)) * (5 / 100)"

definition availability_score :: "settings \<Rightarrow> timestamp \<Rightarrow> telemetry_snapshot \<Rightarrow> model_row \<Rightarrow> rat" where
  "availability_score s now tel m =
     max 0 (min 1 (1 - availability_penalty s now m
       + (if 0 < ts_total_requests tel then ts_success_rate tel * (20 / 100) else 10 / 100)))"

definition feature_score :: "model_row \<Rightarrow> rat" where
  "feature_score m = (flag (m_supports_tools m) + flag (m_supports_streaming m)
     + flag (m_supports_vision m) + flag (m_supports_structured_output m)) / 4"

definition factor_values ::
  "settings \<Rightarrow> timestamp \<Rightarrow> ranking_stats \<Rightarrow> telemetry_snapshot \<Rightarrow> model_row \<Rightarrow> (string, rat option) dict" where
  "factor_values s now st tel m =
    [(''benchmark_score'', benchmark_score st m),
     (''real_world_usage'', Some (usage_score st tel m)),
     (''latency'', latency_score st tel m),
     (''availability'', Some (availability_score s now tel m)),
     (''context_window'', Some (normalize (of_int (ctx_of m)) (of_int (fst (st_context st)))
        (of_int (snd (st_context st))))),
     (''feature_support'', Some (feature_score m))]"

definition available_weight :: "(string, rat) dict \<Rightarrow> (string, rat option) dict \<Rightarrow> rat" where
  "available_weight w fs = sum_list (map (\<lambda>(n, v). dict_get w n 0) (filter (\<lambda>(n, v). v \<noteq> None) fs))"

definition final_score :: "(string, rat) dict \<Rightarrow> (string, rat option) dict \<Rightarrow> rat" where
  "final_score w fs =
     (if available_weight w fs \<le> 0 then 0
      else sum_list (map (\<lambda>(n, v). dict_get w n 0 / available_weight w fs * the v)
             (filter (\<lambda>(n, v). v \<noteq> None) fs)))"

text \<open>\<open>round(x, 4)\<close>, to the nearest, ties to the even neighbour.\<close>

definition round_half_even :: "rat \<Rightarrow> int" where
  "round_half_even y = (let f = \<lfloor>y\<rfloor> in
     if y - of_int f < 1 / 2 then f
     else if 1 / 2 < y - of_int f then f + 1
     else if even f then f else f + 1)"

definition round4 :: "rat \<Rightarrow> rat" where
  "round4 x = of_int (round_half_even (x * 10000)) / 10000"

definition weights_of :: "settings \<Rightarrow> (string, rat) dict" where
  "weights_of s = (if ranking_weights s = [] then DEFAULT_RANKING_WEIGHTS else ranking_weights s)"

definition row_score ::
  "settings \<Rightarrow> timestamp \<Rightarrow> ranking_stats \<Rightarrow> (model_id, telemetry_snapshot) dict \<Rightarrow> model_row \<Rightarrow> rat" where
  "row_score s now st tels m =
     round4 (final_score (weights_of s)
       (factor_values s now st (dict_get tels (m_id m) no_telemetry) m) * 100)"

definition recompute_ranking :: "settings \<Rightarrow> tables \<Rightarrow> timestamp \<Rightarrow> int \<times> stmt list" where
  "recompute_ranking s t now =
    (let tels = load_telemetry_by_model t now;
         rows = filter m_is_active (t_models t);
         st = ranking_stats_of tels rows
     in (int (length rows), map (\<lambda>m. UpdateScore (m_id m) (row_score s now st tels m) now) rows))"

section \<open>Bounds of the score\<close>

definition weights_ok :: "(string, rat) dict \<Rightarrow> bool" where
  "weights_ok w = list_all (\<lambda>(n, x). 0 \<le> x) w"

lemma weights_ok_get: "weights_ok w \<Longrightarrow> 0 \<le> dict_get w n 0"
  by (auto simp: weights_ok_def dict_get_def list_all_iff dest!: map_of_SomeD split: option.split)

lemma round_half_even_bounds: "\<lfloor>y\<rfloor> \<le> round_half_even y" "round_half_even y \<le> \<lceil>y\<rceil>"
proof -
  show "\<lfloor>y\<rfloor> \<le> round_half_even y" by (simp add: round_half_even_def Let_def)
  have "\<lfloor>y\<rfloor> + 1 \<le> \<lceil>y\<rceil>" if "y \<noteq> of_int \<lfloor>y\<rfloor>" using that by linarith
  moreover have "\<lfloor>y\<rfloor> \<le> \<lceil>y\<rceil>" by linarith
  ultimately show "round_half_even y \<le> \<lceil>y\<rceil>" by (auto simp: round_half_even_def Let_def)
qed

lemma round_half_even_mono:
  assumes "x \<le> y"
  shows "round_half_even x \<le> round_half_even y"
proof (cases "\<lfloor>x\<rfloor> = \<lfloor>y\<rfloor>")
  case True
  with assms show ?thesis unfolding round_half_even_def Let_def by (auto; linarith)
next
  case False
  then have "\<lfloor>x\<rfloor> + 1 \<le> \<lfloor>y\<rfloor>" using floor_mono [OF assms] by linarith
  moreover have "round_half_even x \<le> \<lfloor>x\<rfloor> + 1" by (simp add: round_half_even_def Let_def)
  ultimately show ?thesis using round_half_even_bounds(1) [of y] by linarith
qed

lemma round4_mono: "x \<le> y \<Longrightarrow> round4 x \<le> round4 y"
  by (simp add: round4_def round_half_even_mono divide_right_mono)

lemma round4_int [simp]: "round4 0 = 0" "round4 100 = 100"
  by (simp_all add: round4_def round_half_even_def)

lemma weighted_sum_le:
  assumes w: "\<And>n. 0 \<le> dict_get w n 0"
    and v: "\<And>n v. (n, v) \<in> set fs \<Longrightarrow> v \<noteq> None \<Longrightarrow> 0 \<le> the v \<and> the v \<le> 1"
  shows "0 \<le> sum_list (map (\<lambda>(n, v). dict_get w n 0 * the v) (filter (\<lambda>(n, v). v \<noteq> None) fs))
    \<and> sum_list (map (\<lambda>(n, v). dict_get w n 0 * the v) (filter (\<lambda>(n, v). v \<noteq> None) fs)) \<le> available_weight w fs"
  using v
proof (induction fs)
  case (Cons f fs)
  obtain n v where f: "f = (n, v)" by (cases f)
  from Cons have IH: "0 \<le> sum_list (map (\<lambda>(n, v). dict_get w n 0 * the v) (filter (\<lambda>(n, v). v \<noteq> None) fs))"
    "sum_list (map (\<lambda>(n, v). dict_get w n 0 * the v) (filter (\<lambda>(n, v). v \<noteq> None) fs)) \<le> available_weight w fs"
    by auto
  show ?case
  proof (cases v)
    case None
    with IH f show ?thesis by (simp add: available_weight_def)
  next
    case (Some x)
    with Cons.prems [of n v] f have x: "0 \<le> x" "x \<le> 1" by auto
    have "dict_get w n 0 * x \<le> dict_get w n 0 * 1" by (rule mult_left_mono) (simp_all add: x w)
    moreover have "0 \<le> dict_get w n 0 * x" using w x by simp
    ultimately show ?thesis using IH f Some by (simp add: available_weight_def)
  qed
qed (simp add: available_weight_def)

lemma sum_list_weights_div:
  "sum_list (map (\<lambda>(n, v). f n / c * g v) xs) = sum_list (map (\<lambda>(n, v). f n * g v) xs) / c"
  for c :: rat
  by (induction xs) (auto simp: add_divide_distrib)

lemma final_score_div:
  "final_score w fs = (if available_weight w fs \<le> 0 then 0
     else sum_list (map (\<lambda>(n, v). dict_get w n 0 * the v) (filter (\<lambda>(n, v). v \<noteq> None) fs)) / available_weight w fs)"
  unfolding final_score_def sum_list_weights_div ..

lemma final_score_bounds:
  assumes "weights_ok w"
    and v: "\<And>n v. (n, v) \<in> set fs \<Longrightarrow> v \<noteq> None \<Longrightarrow> 0 \<le> the v \<and> the v \<le> 1"
  shows "0 \<le> final_score w fs" "final_score w fs \<le> 1"
proof -
  note b = weighted_sum_le [OF weights_ok_get [OF assms(1)] v]
  show "0 \<le> final_score w fs" using b by (simp add: final_score_div)
  show "final_score w fs \<le> 1"
  proof (cases "available_weight w fs \<le> 0")
    case True
    then show ?thesis by (simp add: final_score_div)
  next
    case False
    with b show ?thesis by (simp add: final_score_div divide_le_eq)
  qed
qed

lemma mean_bounds:
  assumes "xs \<noteq> []" and "\<And>x. x \<in> set xs \<Longrightarrow> 0 \<le> x \<and> x \<le> 1"
  shows "0 \<le> sum_list xs / of_nat (length xs)" "sum_list xs / of_nat (length xs) \<le> (1 :: rat)"
proof -
  have "0 \<le> sum_list xs \<and> sum_list xs \<le> of_nat (length xs)"
    using assms(2) by (induction xs) (auto simp: add_mono)
  with assms(1) show "0 \<le> sum_list xs / of_nat (length xs)" "sum_list xs / of_nat (length xs) \<le> (1 :: rat)"
    by (simp_all add: divide_le_eq)
qed

lemma benchmark_score_bounds:
  assumes "benchmark_score st m = Some x"
  shows "0 \<le> x" "x \<le> 1"
proof -
  define parts where "parts = (case m_chatbot_arena_elo m of None \<Rightarrow> []
        | Some e \<Rightarrow> [normalize e (fst (st_elo st)) (snd (st_elo st))])
      @ (case m_open_llm_score m of None \<Rightarrow> []
        | Some e \<Rightarrow> [normalize e (fst (st_llm st)) (snd (st_llm st))])"
  have "parts \<noteq> []" "x = sum_list parts / of_nat (length parts)"
    using assms by (auto simp: benchmark_score_def Let_def parts_def [symmetric] split: if_splits)
  moreover have "0 \<le> y \<and> y \<le> 1" if "y \<in> set parts" for y
    using that normalize_bounds by (auto simp: parts_def split: option.splits)
  ultimately show "0 \<le> x" "x \<le> 1" using mean_bounds [of parts] by auto
qed

lemma cold_start_bounds: "0 \<le> cold_start_usage_score r n" "cold_start_usage_score r n \<le> 1"
  by (simp_all add: cold_start_usage_score_def normalize_inverse_bounds split: option.split)

lemma usage_score_bounds: "0 \<le> usage_score st tel m" "usage_score st tel m \<le> 1"
  using cold_start_bounds by (auto simp: usage_score_def)

lemma feature_score_bounds: "0 \<le> feature_score m" "feature_score m \<le> 1"
  by (auto simp: feature_score_def flag_def)

lemma factor_values_bounds:
  assumes "(n, v) \<in> set (factor_values s now st tel m)" and "v \<noteq> None"
  shows "0 \<le> the v \<and> the v \<le> 1"
  using assms benchmark_score_bounds usage_score_bounds feature_score_bounds normalize_bounds
    normalize_inverse_bounds
  by (auto simp: factor_values_def availability_score_def latency_score_def Let_def split: if_splits)

text \<open>
  C18 (bounds). A ranking run stores exactly one score per active model and reports their number. When
  no weight in force is negative, every score stored is between 0 and 100, whatever the telemetry,
  benchmarks and latencies are. The configuration does not enforce the condition on the weights.
\<close>

theorem ranking_scores_bounded:
  "fst (recompute_ranking s t now) = int (length (snd (recompute_ranking s t now)))
    \<and> map (\<lambda>m. m_id m) (filter m_is_active (t_models t))
        = map (\<lambda>st. case st of UpdateScore i sc ts \<Rightarrow> i | _ \<Rightarrow> []) (snd (recompute_ranking s t now))
    \<and> (weights_ok (weights_of s) \<longrightarrow>
        list_all (\<lambda>st. case st of UpdateScore i sc ts \<Rightarrow> 0 \<le> sc \<and> sc \<le> 100 \<and> ts = now | _ \<Rightarrow> False)
          (snd (recompute_ranking s t now)))"
proof -
  have "0 \<le> row_score s now st tels m \<and> row_score s now st tels m \<le> 100" if "weights_ok (weights_of s)" for st tels m
  proof -
    let ?f = "final_score (weights_of s) (factor_values s now st (dict_get tels (m_id m) no_telemetry) m)"
    have "0 \<le> ?f" "?f \<le> 1" by (rule final_score_bounds [OF that], erule (1) factor_values_bounds)+
    then have "0 \<le> ?f * 100" "?f * 100 \<le> 100" by simp_all
    from round4_mono [OF this(1)] round4_mono [OF this(2)] show ?thesis by (simp add: row_score_def)
  qed
  then show ?thesis by (simp add: recompute_ranking_def Let_def list_all_iff)
qed

theorem ranking_scores_bounded_witness:
  "fst (recompute_ranking default_settings example_tables 100)
     = int (length (snd (recompute_ranking default_settings example_tables 100)))
   \<and> list_all (\<lambda>st. case st of UpdateScore i sc ts \<Rightarrow> 0 \<le> sc \<and> sc \<le> 100 \<and> ts = 100 | _ \<Rightarrow> False)
        (snd (recompute_ranking default_settings example_tables 100))"
proof -
  have "weights_ok (weights_of default_settings)"
    by (simp add: weights_ok_def weights_of_def default_settings_def post_init_def field_defaults_def Let_def
        DEFAULT_RANKING_WEIGHTS_def)
  with ranking_scores_bounded [of default_settings example_tables 100] show ?thesis by blast
qed

text \<open>The condition is needed: a negative weight for availability lifts an unhealthy model above 100.\<close>

theorem negative_weight_escapes_range:
  "recompute_ranking (default_settings\<lparr>ranking_weights := [(''benchmark_score'', 2), (''availability'', - 1)]\<rparr>)
     (empty_tables\<lparr>t_models := [(example_model ''m1'' 40)\<lparr>m_is_healthy := False, m_chatbot_arena_elo := Some 1200\<rparr>]\<rparr>) 100
   = (1, [UpdateScore ''m1'' 135 100])"
  by code_simp

section \<open>Availability\<close>

text \<open>\<open>m'\<close> is \<open>m\<close> with a health record that is no better.\<close>

definition no_better_health :: "model_row \<Rightarrow> model_row \<Rightarrow> bool" where
  "no_better_health m' m =
    ((m_is_healthy m' \<longrightarrow> m_is_healthy m)
     \<and> m_consecutive_failures m \<le> m_consecutive_failures m' \<and> m_backoff_level m \<le> m_backoff_level m'
     \<and> (case m_cooldown_until m of None \<Rightarrow> True
        | Some c \<Rightarrow> (case m_cooldown_until m' of None \<Rightarrow> False | Some c' \<Rightarrow> c \<le> c'))
     \<and> m' = m\<lparr>m_is_healthy := m_is_healthy m', m_consecutive_failures := m_consecutive_failures m',
              m_backoff_level := m_backoff_level m', m_cooldown_until := m_cooldown_until m'\<rparr>)"

lemma availability_antimono:
  assumes "no_better_health m' m"
  shows "availability_score s now tel m' \<le> availability_score s now tel m"
proof -
  have c: "m_consecutive_failures m \<le> m_consecutive_failures m'" "m_backoff_level m \<le> m_backoff_level m'"
    using assms by (simp_all add: no_better_health_def)
  then have "(of_int (min (m_consecutive_failures m) k) :: rat) \<le> of_int (min (m_consecutive_failures m') k)"
    "(of_int (min (m_backoff_level m) l) :: rat) \<le> of_int (min (m_backoff_level m') l)" for k l
    using c by (simp_all add: min_def)
  moreover have "(if m_is_healthy m then 0 else 45 / 100) \<le> (if m_is_healthy m' then (0::rat) else 45 / 100)"
    using assms by (auto simp: no_better_health_def)
  moreover have "(case m_cooldown_until m of None \<Rightarrow> 0 | Some c \<Rightarrow> if now < c then 30 / 100 else 0) \<le>
    (case m_cooldown_until m' of None \<Rightarrow> (0::rat) | Some c \<Rightarrow> if now < c then 30 / 100 else 0)"
    using assms by (auto simp: no_better_health_def split: option.splits)
  ultimately have "availability_penalty s now m \<le> availability_penalty s now m'"
    unfolding availability_penalty_def by (intro add_mono mult_right_mono) simp_all
  then show ?thesis by (simp add: availability_score_def min_def max_def)
qed

text \<open>
  With weights that are not negative, a worse health record never improves the
  score: a model that is unhealthy instead of healthy, has more consecutive failures, a higher
  backoff level or a later cooldown, all else equal, scores at most as much.
\<close>

theorem worse_health_never_ranks_higher:
  assumes "weights_ok (weights_of s)" and "no_better_health m' m"
  shows "row_score s now st tels m' \<le> row_score s now st tels m"
proof -
  from assms(2) have m': "m' = m\<lparr>m_is_healthy := m_is_healthy m', m_consecutive_failures := m_consecutive_failures m',
      m_backoff_level := m_backoff_level m', m_cooldown_until := m_cooldown_until m'\<rparr>"
    by (simp add: no_better_health_def)
  define tel where "tel = dict_get tels (m_id m) no_telemetry"
  have id: "m_id m' = m_id m" by (subst m') simp
  have same: "benchmark_score st m' = benchmark_score st m" "usage_score st tel m' = usage_score st tel m"
    "latency_score st tel m' = latency_score st tel m" "ctx_of m' = ctx_of m" "feature_score m' = feature_score m"
    by (subst m', simp add: benchmark_score_def usage_score_def latency_score_def latency_reference_def
        ctx_of_def feature_score_def rank_of_row_def)+
  let ?w = "weights_of s" and ?fs = "factor_values s now st tel m" and ?fs' = "factor_values s now st tel m'"
  have w: "0 \<le> dict_get ?w ''availability'' 0" using assms(1) by (rule weights_ok_get)
  have aw: "available_weight ?w ?fs' = available_weight ?w ?fs"
    by (simp add: available_weight_def factor_values_def same)
  have "dict_get ?w ''availability'' 0 * availability_score s now tel m'
      \<le> dict_get ?w ''availability'' 0 * availability_score s now tel m"
    using availability_antimono [OF assms(2)] w by (rule mult_left_mono)
  then have "sum_list (map (\<lambda>(n, v). dict_get ?w n 0 * the v) (filter (\<lambda>(n, v). v \<noteq> None) ?fs'))
      \<le> sum_list (map (\<lambda>(n, v). dict_get ?w n 0 * the v) (filter (\<lambda>(n, v). v \<noteq> None) ?fs))"
    by (simp add: factor_values_def same)
  then have "final_score ?w ?fs' \<le> final_score ?w ?fs"
    by (simp add: final_score_div aw divide_right_mono)
  then show ?thesis unfolding row_score_def id tel_def [symmetric]
    by (intro round4_mono mult_right_mono) simp_all
qed

theorem worse_health_never_ranks_higher_witness:
  "row_score default_settings 100 (ranking_stats_of [] [example_model ''m1'' 40]) []
      ((example_model ''m1'' 40)\<lparr>m_is_healthy := False, m_consecutive_failures := 3\<rparr>)
   \<le> row_score default_settings 100 (ranking_stats_of [] [example_model ''m1'' 40]) [] (example_model ''m1'' 40)"
  by (rule worse_health_never_ranks_higher)
    (simp_all add: weights_ok_def weights_of_def default_settings_def post_init_def field_defaults_def Let_def
      DEFAULT_RANKING_WEIGHTS_def no_better_health_def example_model_def)

end
