(* ===== verification/FL_Migrations.thy ===== *)
theory FL_Migrations
  imports FL_Prelude
begin

text \<open>
  The schema migrations (\<open>_create_base_schema\<close>, \<open>migrate_to_v1\<close> to \<open>migrate_to_v9\<close> and
  \<open>Database.init\<close> in \<open>src/db.py\<close>). A database is its tables with columns and rows, its indexes and
  the table of applied versions. A connection has a committed and a working state, because what a
  crash leaves behind depends on where the driver commits: \<open>executescript\<close> commits the transaction
  that \<open>init\<close> has begun and runs its statements one by one, so the start-up is not atomic.

  Constraints other than the primary key of the version table play no role here; a statement on
  a missing table or column raises (\<^const>\<open>None\<close>).
\<close>

section \<open>Tables, statements\<close>

datatype sql_value = SNull | SInt int | SReal rat | SText string

datatype column_type = TEXT | INTEGER | REAL

record sql_column =
  cl_name :: string
  cl_type :: column_type
  cl_not_null :: bool
  cl_primary_key :: bool
  cl_dflt :: sql_value

record sql_table =
  tb_columns :: "sql_column list"
  tb_rows :: "(string, sql_value) dict list"

record sqldb =
  sq_tables :: "(string, sql_table) dict"
  sq_indexes :: "(string \<times> string \<times> (string \<times> bool) list) list"
  sq_versions :: "(int \<times> string) list option"

text \<open>The statements; an index lists its columns with a flag for \<open>DESC\<close>.\<close>

datatype ddl =
    CreateVersions
  | CreateTable string "sql_column list"
  | DropIndex string
  | CreateIndex string string "(string \<times> bool) list"
  | AddColumnIfMissing string sql_column
  | CanonicalStamps string string
  | FillProviderRank
  | RecordVersion int string

definition column_names :: "sql_table \<Rightarrow> string list" where
  "column_names t = map cl_name (tb_columns t)"

definition add_column_if_missing :: "sql_column \<Rightarrow> sql_table \<Rightarrow> sql_table" where
  "add_column_if_missing c t =
    (if cl_name c \<in> set (column_names t) then t
     else t\<lparr>tb_columns := tb_columns t @ [c], tb_rows := map (\<lambda>r. r @ [(cl_name c, cl_dflt c)]) (tb_rows t)\<rparr>)"

text \<open>\<open>GLOB '????-??-?? ??:??:??'\<close> and \<open>REPLACE(s, ' ', 'T') || 'Z'\<close>\<close>

definition glob_stamp :: "string \<Rightarrow> bool" where
  "glob_stamp s = (length s = 19 \<and> s ! 4 = CHR ''-'' \<and> s ! 7 = CHR ''-'' \<and> s ! 10 = CHR '' ''
     \<and> s ! 13 = CHR '':'' \<and> s ! 16 = CHR '':'')"

fun canonical_stamp :: "sql_value \<Rightarrow> sql_value" where
  "canonical_stamp (SText s) =
     SText (if glob_stamp s then map (\<lambda>c. if c = CHR '' '' then CHR ''T'' else c) s @ ''Z'' else s)"
| "canonical_stamp v = v"

definition map_column :: "string \<Rightarrow> (sql_value \<Rightarrow> sql_value) \<Rightarrow> (string, sql_value) dict \<Rightarrow> (string, sql_value) dict" where
  "map_column c f r = map (\<lambda>(k, v). (k, if k = c then f v else v)) r"

definition fill_rank :: "(string, sql_value) dict \<Rightarrow> (string, sql_value) dict" where
  "fill_rank r = (let rank = dict_get r ''openrouter_rank'' SNull in
     if dict_get r ''provider_rank'' SNull = SNull \<and> rank \<noteq> SNull then map_column ''provider_rank'' (\<lambda>v. rank) r else r)"

definition on_table :: "string \<Rightarrow> string list \<Rightarrow> (sql_table \<Rightarrow> sql_table) \<Rightarrow> sqldb \<Rightarrow> sqldb option" where
  "on_table n needed f d = (case map_of (sq_tables d) n of
       None \<Rightarrow> None
     | Some t \<Rightarrow> if set needed \<subseteq> set (column_names t)
         then Some (d\<lparr>sq_tables := AList.update n (f t) (sq_tables d)\<rparr>) else None)"

fun run_ddl :: "ddl \<Rightarrow> sqldb \<Rightarrow> sqldb option" where
  "run_ddl CreateVersions d = Some (if sq_versions d = None then d\<lparr>sq_versions := Some []\<rparr> else d)"
| "run_ddl (CreateTable n cols) d = Some (if n \<in> fst ` set (sq_tables d) then d
     else d\<lparr>sq_tables := sq_tables d @ [(n, \<lparr>tb_columns = cols, tb_rows = []\<rparr>)]\<rparr>)"
| "run_ddl (DropIndex n) d = Some (d\<lparr>sq_indexes := filter (\<lambda>i. fst i \<noteq> n) (sq_indexes d)\<rparr>)"
| "run_ddl (CreateIndex n tn cols) d =
     (if n \<in> fst ` set (sq_indexes d) then Some d
      else case map_of (sq_tables d) tn of
        None \<Rightarrow> None
      | Some t \<Rightarrow> if fst ` set cols \<subseteq> set (column_names t)
          then Some (d\<lparr>sq_indexes := sq_indexes d @ [(n, tn, cols)]\<rparr>) else None)"
| "run_ddl (AddColumnIfMissing n c) d = on_table n [] (add_column_if_missing c) d"
| "run_ddl (CanonicalStamps n c) d =
     on_table n [c] (\<lambda>t. t\<lparr>tb_rows := map (map_column c canonical_stamp) (tb_rows t)\<rparr>) d"
| "run_ddl FillProviderRank d =
     on_table ''models'' [''provider_rank'', ''openrouter_rank''] (\<lambda>t. t\<lparr>tb_rows := map fill_rank (tb_rows t)\<rparr>) d"
| "run_ddl (RecordVersion v stamp) d = (case sq_versions d of
       None \<Rightarrow> None
     | Some vs \<Rightarrow> if v \<in> fst ` set vs then None else Some (d\<lparr>sq_versions := Some (vs @ [(v, stamp)])\<rparr>))"

section \<open>The schema\<close>

definition text_key :: "string \<Rightarrow> sql_column" where
  "text_key n = \<lparr>cl_name = n, cl_type = TEXT, cl_not_null = False, cl_primary_key = True, cl_dflt = SNull\<rparr>"

definition int_key :: "string \<Rightarrow> sql_column" where
  "int_key n = \<lparr>cl_name = n, cl_type = INTEGER, cl_not_null = False, cl_primary_key = True, cl_dflt = SNull\<rparr>"

definition required_text_column :: "string \<Rightarrow> sql_column" where
  "required_text_column n = \<lparr>cl_name = n, cl_type = TEXT, cl_not_null = True, cl_primary_key = False, cl_dflt = SNull\<rparr>"

definition dflt_column :: "string \<Rightarrow> column_type \<Rightarrow> sql_value \<Rightarrow> sql_column" where
  "dflt_column n ty d = \<lparr>cl_name = n, cl_type = ty, cl_not_null = False, cl_primary_key = False, cl_dflt = d\<rparr>"

definition models_columns :: "sql_column list" where
  "models_columns =
    [text_key ''id'', required_text_column ''name'', required_text_column ''provider_id'', dflt_column ''endpoint_id'' TEXT SNull,
     required_text_column ''provider_model_id'', required_text_column ''provider_base_url'', required_text_column ''provider_api_key_env'',
     dflt_column ''provider_options_json'' TEXT SNull, dflt_column ''context_window'' INTEGER (SInt 4096),
     dflt_column ''max_output_tokens'' INTEGER SNull, dflt_column ''tokenizer_family'' TEXT SNull,
     dflt_column ''supports_tools'' INTEGER (SInt 0), dflt_column ''supports_streaming'' INTEGER (SInt 1),
     dflt_column ''supports_vision'' INTEGER (SInt 0), dflt_column ''supports_structured_output'' INTEGER (SInt 0),
     dflt_column ''supports_system_messages'' INTEGER (SInt 1), dflt_column ''chatbot_arena_elo'' REAL SNull,
     dflt_column ''open_llm_score'' REAL SNull, dflt_column ''provider_rank'' INTEGER SNull,
     dflt_column ''openrouter_rank'' INTEGER SNull, dflt_column ''is_healthy'' INTEGER (SInt 1),
     dflt_column ''last_health_check'' TEXT SNull, dflt_column ''avg_latency_ms'' REAL SNull, dflt_column ''avg_ttfb_ms'' REAL SNull,
     dflt_column ''consecutive_failures'' INTEGER (SInt 0), dflt_column ''backoff_level'' INTEGER (SInt 0),
     dflt_column ''cooldown_until'' TEXT SNull, dflt_column ''last_error'' TEXT SNull, dflt_column ''last_probe_at'' TEXT SNull,
     dflt_column ''last_success_at'' TEXT SNull, dflt_column ''last_failure_at'' TEXT SNull, dflt_column ''last_routed_at'' TEXT SNull,
     dflt_column ''composite_score'' REAL (SReal 0), dflt_column ''score_updated_at'' TEXT SNull,
     required_text_column ''discovered_at'', required_text_column ''last_seen_at'', dflt_column ''is_active'' INTEGER (SInt 1)]"

definition request_log_columns :: "sql_column list" where
  "request_log_columns =
    [int_key ''id'', dflt_column ''request_id'' TEXT SNull, required_text_column ''timestamp'',
     (required_text_column ''request_source'')\<lparr>cl_dflt := SText ''client''\<rparr>, required_text_column ''selected_model_id'', required_text_column ''provider_id'',
     dflt_column ''selected_provider_model_id'' TEXT SNull, dflt_column ''selected_tokenizer_family'' TEXT SNull,
     dflt_column ''client_requested_model'' TEXT SNull, dflt_column ''attempt_index'' INTEGER (SInt 0),
     dflt_column ''was_fallback'' INTEGER (SInt 0), dflt_column ''estimated_prompt_tokens'' INTEGER SNull,
     dflt_column ''selected_context_window'' INTEGER SNull, dflt_column ''prompt_tokens'' INTEGER SNull,
     dflt_column ''completion_tokens'' INTEGER SNull, dflt_column ''total_tokens'' INTEGER SNull,
     dflt_column ''latency_ms'' REAL SNull, dflt_column ''ttfb_ms'' REAL SNull, dflt_column ''success'' INTEGER (SInt 1),
     dflt_column ''gateway_error_category'' TEXT SNull, dflt_column ''error_code'' TEXT SNull, dflt_column ''error_message'' TEXT SNull,
     dflt_column ''was_streaming'' INTEGER (SInt 0), dflt_column ''had_tools'' INTEGER (SInt 0), dflt_column ''had_vision'' INTEGER (SInt 0)]"

definition managed_secrets_columns :: "sql_column list" where
  "managed_secrets_columns = [text_key ''key'', required_text_column ''value_encrypted'', required_text_column ''created_at'', required_text_column ''updated_at'']"

definition secret_vault_columns :: "sql_column list" where
  "secret_vault_columns =
    [int_key ''id'', required_text_column ''salt_b64'', required_text_column ''verifier_encrypted'', required_text_column ''created_at'', required_text_column ''updated_at'']"

definition gateway_auth_columns :: "sql_column list" where
  "gateway_auth_columns =
    [int_key ''id'', required_text_column ''mode'', dflt_column ''token_salt_b64'' TEXT SNull, dflt_column ''token_hash_b64'' TEXT SNull,
     required_text_column ''created_at'', required_text_column ''updated_at'']"

definition create_base_schema :: "ddl list" where
  "create_base_schema =
    [CreateTable ''models'' models_columns,
     CreateTable ''request_log'' request_log_columns,
     CreateTable ''leaderboard_cache'' [text_key ''model_name_normalized'', dflt_column ''chatbot_arena_elo'' REAL SNull,
       dflt_column ''open_llm_avg_score'' REAL SNull, required_text_column ''fetched_at''],
     CreateTable ''config_overrides'' [text_key ''key'', required_text_column ''value'', required_text_column ''updated_at''],
     CreateTable ''managed_secrets'' managed_secrets_columns,
     CreateTable ''secret_vault_config'' secret_vault_columns,
     CreateTable ''gateway_auth_config'' gateway_auth_columns]"

text \<open>A migration runs its statements in a script or one by one.\<close>

datatype conn_step = BeginTx | CommitTx | CommitPending | Execute ddl

definition executescript :: "ddl list \<Rightarrow> conn_step list" where
  "executescript ds = CommitPending # map Execute ds"

definition migrate_to_v1 :: "conn_step list" where
  "migrate_to_v1 = executescript create_base_schema"

definition migrate_to_v2 :: "conn_step list" where
  "migrate_to_v2 = executescript
    [DropIndex ''idx_models_routing'', DropIndex ''idx_models_provider_active'', DropIndex ''idx_request_log_timestamp'',
     DropIndex ''idx_request_log_model'', DropIndex ''idx_request_log_provider_day'',
     CreateIndex ''idx_models_routing'' ''models''
       [(''is_active'', False), (''is_healthy'', False), (''cooldown_until'', False), (''composite_score'', True)],
     CreateIndex ''idx_models_provider_active'' ''models''
       [(''provider_id'', False), (''is_active'', False), (''last_seen_at'', True)],
     CreateIndex ''idx_request_log_timestamp'' ''request_log'' [(''timestamp'', True)],
     CreateIndex ''idx_request_log_model'' ''request_log'' [(''selected_model_id'', False)],
     CreateIndex ''idx_request_log_provider_day'' ''request_log''
       [(''provider_id'', False), (''request_source'', False), (''timestamp'', True)]]"

definition migrate_to_v3 :: "conn_step list" where
  "migrate_to_v3 =
    [Execute (CanonicalStamps ''config_overrides'' ''updated_at''), Execute (CanonicalStamps ''leaderboard_cache'' ''fetched_at'')]"

definition migrate_to_v4 :: "conn_step list" where
  "migrate_to_v4 =
    [Execute (AddColumnIfMissing ''request_log'' (dflt_column ''selected_provider_model_id'' TEXT SNull)),
     Execute (AddColumnIfMissing ''request_log'' (dflt_column ''selected_tokenizer_family'' TEXT SNull)),
     Execute (AddColumnIfMissing ''request_log'' (dflt_column ''estimated_prompt_tokens'' INTEGER SNull))]"

definition migrate_to_v5 :: "conn_step list" where
  "migrate_to_v5 = [Execute (AddColumnIfMissing ''request_log'' (dflt_column ''selected_context_window'' INTEGER SNull))]"

definition migrate_to_v6 :: "conn_step list" where
  "migrate_to_v6 =
    [Execute (AddColumnIfMissing ''models'' (dflt_column ''provider_rank'' INTEGER SNull)), Execute FillProviderRank]"

definition migrate_to_v7 :: "conn_step list" where
  "migrate_to_v7 = [Execute (CreateTable ''managed_secrets'' managed_secrets_columns)]"

definition migrate_to_v8 :: "conn_step list" where
  "migrate_to_v8 = [Execute (CreateTable ''secret_vault_config'' secret_vault_columns)]"

definition migrate_to_v9 :: "conn_step list" where
  "migrate_to_v9 = [Execute (CreateTable ''gateway_auth_config'' gateway_auth_columns)]"

definition MIGRATIONS :: "(int \<times> conn_step list) list" where
  "MIGRATIONS = [(1, migrate_to_v1), (2, migrate_to_v2), (3, migrate_to_v3), (4, migrate_to_v4), (5, migrate_to_v5),
     (6, migrate_to_v6), (7, migrate_to_v7), (8, migrate_to_v8), (9, migrate_to_v9)]"

section \<open>A connection\<close>

text \<open>
  The driver begins a transaction by itself before a statement that changes rows; a schema
  statement outside a transaction takes effect at once.
\<close>

record connection =
  cn_committed :: sqldb
  cn_working :: sqldb
  cn_in_tx :: bool

definition changes_rows :: "ddl \<Rightarrow> bool" where
  "changes_rows s = (case s of CanonicalStamps n c \<Rightarrow> True | FillProviderRank \<Rightarrow> True | RecordVersion v a \<Rightarrow> True | _ \<Rightarrow> False)"

fun conn_run :: "conn_step \<Rightarrow> connection \<Rightarrow> connection option" where
  "conn_run BeginTx c = (if cn_in_tx c then None else Some (c\<lparr>cn_in_tx := True\<rparr>))"
| "conn_run CommitTx c = Some (c\<lparr>cn_committed := cn_working c, cn_in_tx := False\<rparr>)"
| "conn_run CommitPending c = Some (c\<lparr>cn_committed := cn_working c, cn_in_tx := False\<rparr>)"
| "conn_run (Execute s) c = (case run_ddl s (cn_working c) of
       None \<Rightarrow> None
     | Some d \<Rightarrow> (let tx = cn_in_tx c \<or> changes_rows s in
         Some (c\<lparr>cn_committed := (if tx then cn_committed c else d), cn_working := d, cn_in_tx := tx\<rparr>)))"

text \<open>The steps up to the first that raises.\<close>

fun conn_runs :: "conn_step list \<Rightarrow> connection \<Rightarrow> connection \<times> bool" where
  "conn_runs [] c = (c, True)"
| "conn_runs (s # ss) c = (case conn_run s c of None \<Rightarrow> (c, False) | Some c' \<Rightarrow> conn_runs ss c')"

definition open_conn :: "sqldb \<Rightarrow> connection" where
  "open_conn d = \<lparr>cn_committed = d, cn_working = d, cn_in_tx = False\<rparr>"

definition applied_versions :: "sqldb \<Rightarrow> int list" where
  "applied_versions d = (case sq_versions d of None \<Rightarrow> [] | Some vs \<Rightarrow> map fst vs)"

definition pending_steps :: "string \<Rightarrow> int list \<Rightarrow> (int \<times> conn_step list) list \<Rightarrow> conn_step list" where
  "pending_steps now applied ms =
     concat (map (\<lambda>(v, m). if v \<in> set applied then [] else m @ [Execute (RecordVersion v now)]) ms)"

definition init_steps :: "string \<Rightarrow> sqldb \<Rightarrow> conn_step list" where
  "init_steps now d =
     [BeginTx, Execute CreateVersions] @ pending_steps now (applied_versions d) MIGRATIONS @ [CommitTx]"

text \<open>\<open>Database.init\<close>; when it raises the connection is closed, which rolls back to the last commit.\<close>

definition db_init :: "string \<Rightarrow> sqldb \<Rightarrow> sqldb option" where
  "db_init now d = (case conn_runs (init_steps now d) (open_conn d) of
       (c, ok) \<Rightarrow> if ok then Some (cn_committed c) else None)"

text \<open>What is on disk when the process dies after \<open>n\<close> steps.\<close>

definition crashed :: "string \<Rightarrow> nat \<Rightarrow> sqldb \<Rightarrow> sqldb" where
  "crashed now n d = cn_committed (fst (conn_runs (take n (init_steps now d)) (open_conn d)))"

definition empty_sqldb :: sqldb where
  "empty_sqldb = \<lparr>sq_tables = [], sq_indexes = [], sq_versions = None\<rparr>"

section \<open>Statements without transactions\<close>

definition run_ddls :: "ddl list \<Rightarrow> sqldb \<Rightarrow> sqldb option" where
  "run_ddls = fold_opt run_ddl"

lemma run_ddls_Nil [simp]: "run_ddls [] d = Some d"
  by (simp add: run_ddls_def)

lemma run_ddls_Cons: "run_ddls (s # ss) d = (case run_ddl s d of None \<Rightarrow> None | Some d' \<Rightarrow> run_ddls ss d')"
  by (simp add: run_ddls_def split: option.splits)

lemma run_ddls_append: "run_ddls (xs @ ys) d = (case run_ddls xs d of None \<Rightarrow> None | Some d' \<Rightarrow> run_ddls ys d')"
  by (simp add: run_ddls_def fold_opt_append split: option.splits)

definition statements :: "conn_step list \<Rightarrow> ddl list" where
  "statements ss = List.map_filter (\<lambda>s. case s of Execute d \<Rightarrow> Some d | _ \<Rightarrow> None) ss"

lemma statements_simps [simp]:
  "statements [] = []" "statements (BeginTx # ss) = statements ss" "statements (CommitTx # ss) = statements ss"
  "statements (CommitPending # ss) = statements ss" "statements (Execute d # ss) = d # statements ss"
  "statements (xs @ ys) = statements xs @ statements ys" "statements (map Execute ds) = ds"
  by (induction xs; induction ds; simp add: statements_def map_filter_simps split: conn_step.splits)+

definition reached :: "ddl list \<Rightarrow> sqldb \<Rightarrow> sqldb \<Rightarrow> bool" where
  "reached ds d x = (\<exists>j. run_ddls (take j ds) d = Some x)"

lemma reached_here [simp]: "reached ds d d"
  unfolding reached_def by (rule exI [of _ 0]) simp

lemma reached_Cons: "run_ddl s d = Some d' \<Longrightarrow> reached ds d' x \<Longrightarrow> reached (s # ds) d x"
  unfolding reached_def by (metis option.case(2) run_ddls_Cons take_Suc_Cons)

text \<open>
  Wherever a run of the steps stops, what is committed is the outcome of a prefix of the statements
  or was there before; a run that does not raise executes them all.
\<close>

lemma conn_runs_prefix:
  assumes "BeginTx \<notin> set ss" and "conn_runs ss c = (c', ok)"
  shows "(cn_committed c' = cn_committed c \<or> reached (statements ss) (cn_working c) (cn_committed c'))
    \<and> run_ddls (statements ss) (cn_working c) = (if ok then Some (cn_working c') else None)"
  using assms
proof (induction ss arbitrary: c)
  case (Cons s ss)
  show ?case
  proof (cases s)
    case (Execute d)
    show ?thesis
    proof (cases "run_ddl d (cn_working c)")
      case None
      with Cons.prems Execute have "c' = c" "\<not> ok" by simp_all
      with None Execute show ?thesis by (simp add: run_ddls_Cons)
    next
      case (Some w)
      let ?tx = "cn_in_tx c \<or> changes_rows d"
      let ?c = "c\<lparr>cn_committed := (if ?tx then cn_committed c else w), cn_working := w, cn_in_tx := ?tx\<rparr>"
      from Cons.prems Execute Some have "conn_runs ss ?c = (c', ok)" by (simp add: Let_def)
      from Cons.IH [OF _ this] Cons.prems(1)
      have com: "cn_committed c' = cn_committed ?c \<or> reached (statements ss) w (cn_committed c')"
        and run: "run_ddls (statements ss) w = (if ok then Some (cn_working c') else None)" by simp_all
      have "cn_committed ?c = cn_committed c \<or> cn_committed ?c = w" by simp
      with com reached_Cons [OF Some] have "cn_committed c' = cn_committed c \<or> reached (d # statements ss) (cn_working c) (cn_committed c')"
        by (metis reached_here)
      with run Execute Some show ?thesis by (simp add: run_ddls_Cons)
    qed
  next
    case CommitTx
    let ?c = "c\<lparr>cn_committed := cn_working c, cn_in_tx := False\<rparr>"
    from Cons.prems CommitTx have "conn_runs ss ?c = (c', ok)" by simp
    from Cons.IH [OF _ this] Cons.prems(1) CommitTx show ?thesis by (auto simp del: if_split_asm)
  next
    case CommitPending
    let ?c = "c\<lparr>cn_committed := cn_working c, cn_in_tx := False\<rparr>"
    from Cons.prems CommitPending have "conn_runs ss ?c = (c', ok)" by simp
    from Cons.IH [OF _ this] Cons.prems(1) CommitPending show ?thesis by auto
  qed (use Cons.prems in simp)
qed simp

definition init_statements :: "string \<Rightarrow> int list \<Rightarrow> (int \<times> ddl list) list \<Rightarrow> ddl list" where
  "init_statements now applied ms =
     concat (map (\<lambda>(v, m). if v \<in> set applied then [] else m @ [RecordVersion v now]) ms)"

definition migration_statements :: "(int \<times> ddl list) list" where
  "migration_statements = map (\<lambda>(v, m). (v, statements m)) MIGRATIONS"

lemma statements_pending:
  "statements (pending_steps now applied ms) = init_statements now applied (map (\<lambda>(v, m). (v, statements m)) ms)"
  by (induction ms) (auto simp: pending_steps_def init_statements_def)

lemma statements_init:
  "statements (init_steps now d) = CreateVersions # init_statements now (applied_versions d) migration_statements"
  by (simp add: init_steps_def statements_pending migration_statements_def)

lemma begin_only_first: "BeginTx \<notin> set (pending_steps now applied MIGRATIONS)"
  by (auto simp: pending_steps_def MIGRATIONS_def migrate_to_v1_def migrate_to_v2_def migrate_to_v3_def migrate_to_v4_def
      migrate_to_v5_def migrate_to_v6_def migrate_to_v7_def migrate_to_v8_def migrate_to_v9_def executescript_def
      split: if_splits)

lemma conn_runs_append:
  "conn_runs (xs @ ys) c = (case conn_runs xs c of (c', ok) \<Rightarrow> if ok then conn_runs ys c' else (c', False))"
  by (induction xs arbitrary: c) (auto split: option.splits)

definition begun :: "sqldb \<Rightarrow> connection" where
  "begun d = (open_conn d)\<lparr>cn_in_tx := True\<rparr>"

definition body_steps :: "string \<Rightarrow> sqldb \<Rightarrow> conn_step list" where
  "body_steps now d = Execute CreateVersions # pending_steps now (applied_versions d) MIGRATIONS"

lemma init_steps_body: "init_steps now d = BeginTx # body_steps now d @ [CommitTx]"
  by (simp add: init_steps_def body_steps_def)

lemma statements_body: "statements (init_steps now d) = statements (body_steps now d)"
  by (simp add: init_steps_body)

lemma body_no_begin: "BeginTx \<notin> set (body_steps now d @ [CommitTx])"
  using begin_only_first by (simp add: body_steps_def)

lemma begun_simps [simp]:
  "conn_run BeginTx (open_conn d) = Some (begun d)" "cn_working (begun d) = d" "cn_committed (begun d) = d"
  by (simp_all add: begun_def open_conn_def)

lemma conn_runs_begin: "conn_runs (BeginTx # ss) (open_conn d) = conn_runs ss (begun d)"
  by (simp only: conn_runs.simps begun_simps option.case)

lemma conn_runs_commit: "conn_runs [CommitTx] c = (c\<lparr>cn_committed := cn_working c, cn_in_tx := False\<rparr>, True)"
  by simp

lemma reached_append: "reached xs d x \<Longrightarrow> reached (xs @ ys) d x"
proof -
  assume "reached xs d x"
  then obtain j where "run_ddls (take j xs) d = Some x" by (auto simp: reached_def)
  then have "run_ddls (take (min j (length xs)) (xs @ ys)) d = Some x" by (cases "j \<le> length xs") simp_all
  then show ?thesis unfolding reached_def by blast
qed

lemma init_runs_statements: "db_init now d = run_ddls (statements (init_steps now d)) d"
proof -
  obtain c' ok where run: "conn_runs (body_steps now d) (begun d) = (c', ok)" by fastforce
  have nb: "BeginTx \<notin> set (body_steps now d)" using body_no_begin by simp
  show ?thesis
    using conn_runs_prefix [OF nb run]
    by (simp add: db_init_def init_steps_body conn_runs_begin conn_runs_append conn_runs_commit run del: conn_runs.simps)
qed

lemma crashed_reached: "reached (statements (init_steps now d)) d (crashed now n d)"
proof (cases n)
  case 0
  then show ?thesis by (simp add: crashed_def open_conn_def)
next
  case (Suc m)
  let ?all = "body_steps now d @ [CommitTx]"
  obtain c' ok where run: "conn_runs (take m ?all) (begun d) = (c', ok)" by fastforce
  have "BeginTx \<notin> set (take m ?all)" using body_no_begin [of now d] by (meson in_set_takeD)
  from conn_runs_prefix [OF this run]
  have "cn_committed c' = d \<or> reached (statements (take m ?all)) d (cn_committed c')" by simp
  moreover have "crashed now n d = cn_committed c'" by (simp only: crashed_def init_steps_body Suc take_Suc_Cons conn_runs_begin run fst_conv)
  moreover have "statements ?all = statements (take m ?all) @ statements (drop m ?all)"
    by (metis append_take_drop_id statements_simps(6))
  then have "reached (statements (take m ?all)) d x \<Longrightarrow> reached (statements ?all) d x" for x
    by (metis reached_append)
  ultimately show ?thesis unfolding statements_init [symmetric] init_steps_body
    by (metis reached_here statements_simps(2))
qed

section \<open>Repeating a migration that was cut short\<close>

text \<open>\<open>repeatable m\<close>: after any part of \<open>m\<close> has run, running the same part again changes nothing.\<close>

definition repeatable :: "ddl list \<Rightarrow> bool" where
  "repeatable m = (\<forall>j d x. run_ddls (take j m) d = Some x \<longrightarrow> run_ddls (take j m) x = Some x)"

lemma repeatable_rerun:
  assumes "repeatable m" and "run_ddls (take j m) d = Some x"
  shows "run_ddls m x = run_ddls m d"
proof -
  have "run_ddls m x = run_ddls (drop j m) x"
    using assms run_ddls_append [of "take j m" "drop j m" x] by (simp add: repeatable_def)
  also have "\<dots> = run_ddls m d"
    using assms(2) run_ddls_append [of "take j m" "drop j m" d] by simp
  finally show ?thesis .
qed

definition keeps_versions :: "ddl list \<Rightarrow> bool" where
  "keeps_versions m = list_all (\<lambda>s. case s of CreateVersions \<Rightarrow> False | RecordVersion v a \<Rightarrow> False | _ \<Rightarrow> True) m"

lemma on_table_versions: "on_table n cs f d = Some x \<Longrightarrow> sq_versions x = sq_versions d"
  by (auto simp: on_table_def split: option.splits if_splits)

lemma run_ddls_versions: "keeps_versions m \<Longrightarrow> run_ddls m d = Some x \<Longrightarrow> sq_versions x = sq_versions d"
proof (induction m arbitrary: d)
  case (Cons s m)
  from Cons.prems obtain d' where step: "run_ddl s d = Some d'" and rest: "run_ddls m d' = Some x"
    by (auto simp: run_ddls_Cons split: option.splits)
  have "sq_versions d' = sq_versions d"
    using step Cons.prems(1)
    by (cases s) (auto simp: keeps_versions_def dest: on_table_versions split: if_splits option.splits)
  with Cons.IH [OF _ rest] Cons.prems(1) show ?case by (simp add: keeps_versions_def)
qed simp

text \<open>
  The heart of the matter: however far the pending migrations came, running those that are then
  pending gives what an undisturbed run gives.
\<close>

lemma pending_resumed:
  assumes "reached (init_statements now applied ms) d x"
    and "list_all (\<lambda>(v, m). repeatable m \<and> keeps_versions m) ms" and "distinct (map fst ms)"
    and "\<And>v. v \<in> fst ` set ms \<Longrightarrow> v \<in> set applied \<longleftrightarrow> v \<in> set (applied_versions d)"
  shows "run_ddls (init_statements now (applied_versions x) ms) x = run_ddls (init_statements now applied ms) d
    \<and> set (applied_versions d) \<subseteq> set (applied_versions x)"
  using assms
proof (induction ms arbitrary: d)
  case Nil
  then show ?case by (auto simp: init_statements_def reached_def)
next
  case (Cons vm ms)
  obtain v m where vm: "vm = (v, m)" by fastforce
  from Cons.prems(2) vm have rep: "repeatable m" "keeps_versions m"
    and rest: "list_all (\<lambda>(v, m). repeatable m \<and> keeps_versions m) ms" by simp_all
  from Cons.prems(3) vm have dist: "distinct (map fst ms)" and new: "v \<notin> fst ` set ms" by auto
  have same: "\<And>w. w \<in> fst ` set ms \<Longrightarrow> w \<in> set applied \<longleftrightarrow> w \<in> set (applied_versions d)"
    using Cons.prems(4) vm by simp
  show ?case
  proof (cases "v \<in> set applied")
    case True
    then have skip: "init_statements now applied (vm # ms) = init_statements now applied ms"
      by (simp add: init_statements_def vm)
    from Cons.IH [OF _ rest dist same] Cons.prems(1) skip
    have IH: "run_ddls (init_statements now (applied_versions x) ms) x = run_ddls (init_statements now applied ms) d"
      "set (applied_versions d) \<subseteq> set (applied_versions x)" by simp_all
    from True Cons.prems(4) [of v] vm IH(2) have "v \<in> set (applied_versions x)" by auto
    then have "init_statements now (applied_versions x) (vm # ms) = init_statements now (applied_versions x) ms"
      by (simp add: init_statements_def vm)
    with IH skip show ?thesis by simp
  next
    case False
    let ?rest = "init_statements now applied ms"
    have all: "init_statements now applied (vm # ms) = m @ RecordVersion v now # ?rest"
      using False by (simp add: init_statements_def vm)
    from Cons.prems(1) all obtain j where j: "run_ddls (take j (m @ RecordVersion v now # ?rest)) d = Some x"
      by (auto simp: reached_def)
    show ?thesis
    proof (cases "j \<le> length m")
      case True
      with j have part: "run_ddls (take j m) d = Some x" by simp
      have "keeps_versions (take j m)" using rep(2) by (auto simp: keeps_versions_def list_all_iff dest: in_set_takeD)
      then have vers: "applied_versions x = applied_versions d"
        using run_ddls_versions [OF _ part] by (simp add: applied_versions_def)
      have agree: "init_statements now (applied_versions x) (vm # ms) = init_statements now applied (vm # ms)"
      proof -
        have "(fst wm \<in> set (applied_versions x)) = (fst wm \<in> set applied)" if "wm \<in> set (vm # ms)" for wm
          using Cons.prems(4) [of "fst wm"] that vers by (metis image_eqI)
        then show ?thesis unfolding init_statements_def
          by (intro arg_cong [where f = concat] map_cong HOL.refl) (simp add: case_prod_beta)
      qed
      show ?thesis
        unfolding agree all run_ddls_append repeatable_rerun [OF rep(1) part] by (simp add: vers)
    next
      case False
      then obtain i where i: "j = length m + Suc i" by (metis add_Suc_right less_imp_Suc_add not_le)
      from j i obtain d1 where d1: "run_ddls m d = Some d1"
        and j1: "run_ddls (RecordVersion v now # take i ?rest) d1 = Some x"
        by (auto simp: run_ddls_append split: option.splits)
      then obtain d2 where d2: "run_ddl (RecordVersion v now) d1 = Some d2" and j2: "run_ddls (take i ?rest) d2 = Some x"
        by (auto simp: run_ddls_Cons split: option.splits)
      have v1: "sq_versions d1 = sq_versions d" by (rule run_ddls_versions [OF rep(2) d1])
      with d2 have v2: "applied_versions d2 = applied_versions d @ [v]"
        by (auto simp: applied_versions_def split: option.splits if_splits)
      have same2: "w \<in> set applied \<longleftrightarrow> w \<in> set (applied_versions d2)" if "w \<in> fst ` set ms" for w
        using same [OF that] that new v2 by auto
      have "reached ?rest d2 x" using j2 by (auto simp: reached_def)
      from Cons.IH [OF this rest dist same2] have
        IH: "run_ddls (init_statements now (applied_versions x) ms) x = run_ddls ?rest d2"
          "set (applied_versions d2) \<subseteq> set (applied_versions x)" by simp_all
      then have "v \<in> set (applied_versions x)" using v2 by auto
      then have "init_statements now (applied_versions x) (vm # ms) = init_statements now (applied_versions x) ms"
        by (simp add: init_statements_def vm)
      with IH v2 d1 d2 all show ?thesis by (auto simp: run_ddls_append run_ddls_Cons)
    qed
  qed
qed

section \<open>Each migration is repeatable\<close>

text \<open>A statement is at rest in a database that it does not change.\<close>

definition at_rest :: "ddl \<Rightarrow> sqldb \<Rightarrow> bool" where
  "at_rest s d = (run_ddl s d = Some d)"

definition stays_at_rest :: "ddl \<Rightarrow> ddl \<Rightarrow> bool" where
  "stays_at_rest s t = (\<forall>d d'. at_rest s d \<longrightarrow> run_ddl t d = Some d' \<longrightarrow> at_rest s d')"

definition settles :: "ddl \<Rightarrow> bool" where
  "settles s = (\<forall>d d'. run_ddl s d = Some d' \<longrightarrow> at_rest s d')"

fun settling :: "ddl list \<Rightarrow> bool" where
  "settling [] = True"
| "settling (s # ss) = (settles s \<and> list_all (stays_at_rest s) ss \<and> settling ss)"

lemma run_keeps_at_rest: "list_all (stays_at_rest s) ss \<Longrightarrow> at_rest s d \<Longrightarrow> run_ddls ss d = Some x \<Longrightarrow> at_rest s x"
  by (induction ss arbitrary: d) (auto simp: run_ddls_Cons stays_at_rest_def split: option.splits)

lemma settling_settles: "settling ss \<Longrightarrow> run_ddls ss d = Some x \<Longrightarrow> list_all (\<lambda>s. at_rest s x) ss"
proof (induction ss arbitrary: d)
  case (Cons s ss)
  from Cons.prems(2) obtain d' where d': "run_ddl s d = Some d'" "run_ddls ss d' = Some x"
    by (auto simp: run_ddls_Cons split: option.splits)
  then have "at_rest s d'" using Cons.prems(1) by (simp add: settles_def)
  with Cons d' show ?case by (auto intro: run_keeps_at_rest)
qed simp

lemma at_rest_run: "list_all (\<lambda>s. at_rest s x) ss \<Longrightarrow> run_ddls ss x = Some x"
  by (induction ss) (auto simp: run_ddls_Cons at_rest_def)

lemma settling_take: "settling ss \<Longrightarrow> settling (take j ss)"
  by (induction ss arbitrary: j) (auto simp: take_Cons' list_all_iff dest: in_set_takeD)

lemma settling_repeatable: "settling ss \<Longrightarrow> repeatable ss"
  unfolding repeatable_def using settling_take settling_settles at_rest_run by blast

lemma create_at_rest: "at_rest (CreateTable n cols) d \<longleftrightarrow> n \<in> fst ` set (sq_tables d)"
proof -
  have "d\<lparr>sq_tables := sq_tables d @ [t]\<rparr> \<noteq> d" for t
    by (metis append_self_conv sqldb.select_convs(1) sqldb.surjective sqldb.update_convs(1) not_Cons_self2)
  then show ?thesis by (simp add: at_rest_def)
qed

lemma settles_create [simp]: "settles (CreateTable n cols)"
  by (auto simp: settles_def create_at_rest)

lemma create_create [simp]: "stays_at_rest (CreateTable n cols) (CreateTable n' cols')"
  by (auto simp: stays_at_rest_def create_at_rest split: if_splits)

lemma AList_update_map_of: "map_of d n = Some t \<Longrightarrow> AList.update n t d = d"
  by (induction d) (auto split: if_splits)

lemma on_table_at_rest:
  "on_table n cs f d = Some d \<longleftrightarrow> (\<exists>t. map_of (sq_tables d) n = Some t \<and> set cs \<subseteq> set (column_names t) \<and> f t = t)"
proof
  assume on: "on_table n cs f d = Some d"
  then obtain t where t: "map_of (sq_tables d) n = Some t" "set cs \<subseteq> set (column_names t)"
    "d\<lparr>sq_tables := AList.update n (f t) (sq_tables d)\<rparr> = d"
    by (auto simp: on_table_def split: option.splits if_splits)
  then have "AList.update n (f t) (sq_tables d) = sq_tables d" by (metis sqldb.select_convs(1) sqldb.surjective sqldb.update_convs(1))
  with t(1) have "f t = t" by (metis fun_upd_same option.inject update_conv)
  with t show "\<exists>t. map_of (sq_tables d) n = Some t \<and> set cs \<subseteq> set (column_names t) \<and> f t = t" by blast
qed (auto simp: on_table_def AList_update_map_of)

lemma on_table_tables:
  "on_table n cs f d = Some d' \<Longrightarrow> \<exists>t. map_of (sq_tables d) n = Some t \<and> map_of (sq_tables d') = (map_of (sq_tables d))(n \<mapsto> f t)"
  by (auto simp: on_table_def update_conv' split: option.splits if_splits)

lemma settles_on_table:
  assumes "\<And>d. run_ddl s d = on_table n cs f d" and "\<And>t. f (f t) = f t" and "\<And>t. set (column_names t) \<subseteq> set (column_names (f t))"
  shows "settles s"
  unfolding settles_def at_rest_def assms(1) on_table_at_rest
proof (intro allI impI)
  fix d d' :: sqldb
  assume run: "on_table n cs f d = Some d'"
  then obtain t where t: "map_of (sq_tables d) n = Some t" "set cs \<subseteq> set (column_names t)"
    by (auto simp: on_table_def split: option.splits if_splits)
  from on_table_tables [OF run] t(1) have "map_of (sq_tables d') n = Some (f t)" by auto
  with t(2) assms(2,3) [of t] show "\<exists>t. map_of (sq_tables d') n = Some t \<and> set cs \<subseteq> set (column_names t) \<and> f t = t"
    by blast
qed

lemma stays_on_table:
  assumes "\<And>d. run_ddl s d = on_table n cs f d" and "\<And>d. run_ddl s' d = on_table n' cs' f' d"
    and "n = n' \<Longrightarrow> (\<And>t. set cs \<subseteq> set (column_names t) \<Longrightarrow> f t = t \<Longrightarrow> f (f' t) = f' t)"
    and "\<And>t. set (column_names t) \<subseteq> set (column_names (f' t))"
  shows "stays_at_rest s s'"
  unfolding stays_at_rest_def at_rest_def assms(1,2) on_table_at_rest
proof (intro allI impI)
  fix d d' :: sqldb
  assume "\<exists>t. map_of (sq_tables d) n = Some t \<and> set cs \<subseteq> set (column_names t) \<and> f t = t"
  then obtain t where t: "map_of (sq_tables d) n = Some t" "set cs \<subseteq> set (column_names t)" "f t = t" by blast
  assume "on_table n' cs' f' d = Some d'"
  from on_table_tables [OF this] obtain t' where t': "map_of (sq_tables d) n' = Some t'"
    and d': "map_of (sq_tables d') = (map_of (sq_tables d))(n' \<mapsto> f' t')" by blast
  show "\<exists>t. map_of (sq_tables d') n = Some t \<and> set cs \<subseteq> set (column_names t) \<and> f t = t"
  proof (cases "n = n'")
    case True
    with t t' have "t' = t" by simp
    with t(2,3) assms(4) [of t] assms(3) [OF True t(2,3)] True d' show ?thesis by auto
  next
    case False
    with t d' show ?thesis by simp
  qed
qed

lemma canonical_stamp_idem [simp]: "canonical_stamp (canonical_stamp v) = canonical_stamp v"
  by (cases v) (auto simp: glob_stamp_def)

lemma map_column_idem: "(\<And>v. f (f v) = f v) \<Longrightarrow> map_column c f (map_column c f r) = map_column c f r"
  by (auto simp: map_column_def)

lemma column_names_rows [simp]: "column_names (t\<lparr>tb_rows := rs\<rparr>) = column_names t"
  by (simp add: column_names_def)

lemma settles_canonical [simp]: "settles (CanonicalStamps n c)"
  by (rule settles_on_table [OF run_ddl.simps(6)]) (auto simp: map_column_idem)

lemma canonical_canonical [simp]: "n \<noteq> n' \<Longrightarrow> stays_at_rest (CanonicalStamps n c) (CanonicalStamps n' c')"
  by (rule stays_on_table [OF run_ddl.simps(6) run_ddl.simps(6)]) auto

lemma add_column_fixed: "add_column_if_missing c t = t \<longleftrightarrow> cl_name c \<in> set (column_names t)"
proof -
  have "t\<lparr>tb_columns := tb_columns t @ [c], tb_rows := rs\<rparr> \<noteq> t" for rs
    by (metis append_self_conv not_Cons_self2 sql_table.select_convs(1) sql_table.surjective sql_table.update_convs(1,2))
  then show ?thesis by (simp add: add_column_if_missing_def)
qed

lemma add_column_names: "set (column_names (add_column_if_missing c t)) = insert (cl_name c) (set (column_names t))"
  by (auto simp: add_column_if_missing_def column_names_def)

lemma settles_add [simp]: "settles (AddColumnIfMissing n c)"
  by (rule settles_on_table [OF run_ddl.simps(5)]) (auto simp: add_column_fixed add_column_names)

lemma add_add [simp]: "stays_at_rest (AddColumnIfMissing n c) (AddColumnIfMissing n' c')"
  by (rule stays_on_table [OF run_ddl.simps(5) run_ddl.simps(5)]) (auto simp: add_column_fixed add_column_names)

lemma add_fill [simp]: "stays_at_rest (AddColumnIfMissing n c) FillProviderRank"
  by (rule stays_on_table [OF run_ddl.simps(5) run_ddl.simps(7)]) (auto simp: add_column_fixed)

lemma fill_rank_idem: "fill_rank (fill_rank r) = fill_rank r"
proof -
  have "dict_get (map_column ''provider_rank'' (\<lambda>v. x) r) ''openrouter_rank'' SNull = dict_get r ''openrouter_rank'' SNull" for x
    by (induction r) (auto simp: dict_get_def map_column_def)
  then show ?thesis by (simp add: fill_rank_def map_column_idem Let_def)
qed

lemma settles_fill [simp]: "settles FillProviderRank"
  by (rule settles_on_table [OF run_ddl.simps(7)]) (auto simp: fill_rank_idem)

text \<open>The second migration drops its indexes before it creates them again.\<close>

lemma run_drops:
  "run_ddls (map DropIndex ns @ ds) d = run_ddls ds (d\<lparr>sq_indexes := filter (\<lambda>i. fst i \<notin> set ns) (sq_indexes d)\<rparr>)"
  by (induction ns arbitrary: d) (simp_all add: run_ddls_Cons conj_commute)

definition creates :: "(string \<times> string \<times> (string \<times> bool) list) list \<Rightarrow> ddl list" where
  "creates is = map (\<lambda>(n, tn, cs). CreateIndex n tn cs) is"

lemma run_creates:
  assumes "run_ddls (creates is) d = Some x"
    and "distinct (map fst is)" and "fst ` set (sq_indexes d) \<inter> fst ` set is = {}" and "fst ` set idx \<inter> fst ` set is = {}"
  shows "x = d\<lparr>sq_indexes := sq_indexes d @ is\<rparr>
    \<and> run_ddls (creates is) (d\<lparr>sq_indexes := idx\<rparr>) = Some (d\<lparr>sq_indexes := idx @ is\<rparr>)"
  using assms
proof (induction "is" arbitrary: d idx)
  case Nil
  then show ?case by (simp add: creates_def)
next
  case (Cons i "is")
  obtain n tn cs where i: "i = (n, tn, cs)" by (metis prod_cases3)
  let ?d = "d\<lparr>sq_indexes := sq_indexes d @ [i]\<rparr>"
  have cons: "creates (i # is) = CreateIndex n tn cs # creates is" by (simp add: creates_def i)
  from Cons.prems(3) i have new: "n \<notin> fst ` set (sq_indexes d)" by auto
  with Cons.prems(1) obtain t where t: "map_of (sq_tables d) tn = Some t" "fst ` set cs \<subseteq> set (column_names t)"
    and rest: "run_ddls (creates is) ?d = Some x"
    unfolding cons by (auto simp: run_ddls_Cons i split: option.splits if_splits)
  have dist: "distinct (map fst is)" "fst ` set (sq_indexes ?d) \<inter> fst ` set is = {}"
    and idx: "fst ` set (idx @ [i]) \<inter> fst ` set is = {}" "n \<notin> fst ` set idx"
    using Cons.prems(2,3,4) i by auto
  from Cons.IH [OF rest dist idx(1)] have
    x: "x = d\<lparr>sq_indexes := sq_indexes d @ i # is\<rparr>"
    and again: "run_ddls (creates is) (d\<lparr>sq_indexes := idx @ [i]\<rparr>) = Some (d\<lparr>sq_indexes := idx @ i # is\<rparr>)" by simp_all
  have "run_ddl (CreateIndex n tn cs) (d\<lparr>sq_indexes := idx\<rparr>) = Some (d\<lparr>sq_indexes := idx @ [i]\<rparr>)"
    using t idx(2) i by simp
  with x again show ?case unfolding cons by (simp add: run_ddls_Cons del: run_ddl.simps)
qed

lemma reindex_repeatable:
  assumes "distinct (map fst is)" and "fst ` set is \<subseteq> set ns"
  shows "repeatable (map DropIndex ns @ creates is)"
  unfolding repeatable_def
proof (intro allI impI)
  fix j d x
  let ?is = "take (j - length ns) is" and ?ns = "take j ns"
  have part: "take j (map DropIndex ns @ creates is)
      = map DropIndex ?ns @ creates ?is" by (simp add: take_map creates_def)
  assume "run_ddls (take j (map DropIndex ns @ creates is)) d = Some x"
  then have run: "run_ddls (creates ?is)
      (d\<lparr>sq_indexes := filter (\<lambda>i. fst i \<notin> set ?ns) (sq_indexes d)\<rparr>) = Some x"
    unfolding part run_drops .
  have dist: "distinct (map fst ?is)" using assms(1) by (metis distinct_take take_map)
  have covered: "fst ` set ?is \<subseteq> set ?ns"
  proof (cases "j \<le> length ns")
    case False
    then show ?thesis using assms(2) by (auto dest: in_set_takeD)
  qed simp
  let ?idx = "filter (\<lambda>i. fst i \<notin> set ?ns) (sq_indexes d)"
  have free: "fst ` set ?idx \<inter> fst ` set ?is = {}" using covered by auto
  from run_creates [OF run dist, of ?idx] free have x: "x = d\<lparr>sq_indexes := ?idx @ ?is\<rparr>"
    and again: "run_ddls (creates ?is) (d\<lparr>sq_indexes := ?idx\<rparr>) = Some (d\<lparr>sq_indexes := ?idx @ ?is\<rparr>)"
    by simp_all
  have "filter (\<lambda>i. fst i \<notin> set ?ns) (?idx @ ?is) = ?idx" using covered by (auto simp: filter_empty_conv)
  with again x have "run_ddls (map DropIndex ?ns @ creates ?is) x = Some x"
    by (simp add: run_drops)
  then show "run_ddls (take j (map DropIndex ns @ creates is)) x = Some x"
    unfolding part .
qed

lemmas migration_defs = migrate_to_v1_def migrate_to_v2_def migrate_to_v3_def migrate_to_v4_def migrate_to_v5_def
  migrate_to_v6_def migrate_to_v7_def migrate_to_v8_def migrate_to_v9_def executescript_def create_base_schema_def

lemma second_migration:
  "repeatable (statements migrate_to_v2)"
proof -
  let ?is = "[(''idx_models_routing'', ''models'',
        [(''is_active'', False), (''is_healthy'', False), (''cooldown_until'', False), (''composite_score'', True)]),
      (''idx_models_provider_active'', ''models'', [(''provider_id'', False), (''is_active'', False), (''last_seen_at'', True)]),
      (''idx_request_log_timestamp'', ''request_log'', [(''timestamp'', True)]),
      (''idx_request_log_model'', ''request_log'', [(''selected_model_id'', False)]),
      (''idx_request_log_provider_day'', ''request_log'',
        [(''provider_id'', False), (''request_source'', False), (''timestamp'', True)])]"
  have "statements migrate_to_v2 = map DropIndex (map fst ?is) @ creates ?is"
    by (simp add: migrate_to_v2_def executescript_def creates_def)
  moreover have "distinct (map fst ?is)" by simp
  ultimately show ?thesis using reindex_repeatable [of ?is "map fst ?is"] by simp
qed

lemma migrations_repeatable: "list_all (\<lambda>(v, m). repeatable m \<and> keeps_versions m) migration_statements"
  using second_migration
  by (simp add: migration_statements_def MIGRATIONS_def)
    (auto simp: migration_defs keeps_versions_def dflt_column_def intro!: settling_repeatable)

lemma migrations_distinct: "distinct (map fst migration_statements)"
  by (simp add: migration_statements_def MIGRATIONS_def)

lemma versions_never_vanish:
  "run_ddl s d = Some x \<Longrightarrow> sq_versions d \<noteq> None \<Longrightarrow> sq_versions x \<noteq> None"
  by (cases s) (auto dest: on_table_versions split: if_splits option.splits)

lemma run_ddls_never_vanish: "run_ddls ss d = Some x \<Longrightarrow> sq_versions d \<noteq> None \<Longrightarrow> sq_versions x \<noteq> None"
  by (induction ss arbitrary: d) (auto simp: run_ddls_Cons dest: versions_never_vanish split: option.splits)

lemma resumed_statements:
  assumes "reached (statements (init_steps now d)) d x"
  shows "run_ddls (statements (init_steps now x)) x = run_ddls (statements (init_steps now d)) d"
proof -
  let ?pending = "\<lambda>a. init_statements now a migration_statements"
  from assms obtain j where j: "run_ddls (take j (CreateVersions # ?pending (applied_versions d))) d = Some x"
    by (auto simp: reached_def statements_init)
  show ?thesis
  proof (cases j)
    case 0
    with j show ?thesis by simp
  next
    case (Suc i)
    define d1 where "d1 = the (run_ddl CreateVersions d)"
    have d1: "run_ddl CreateVersions d = Some d1" by (simp add: d1_def)
    then have same: "applied_versions d1 = applied_versions d" and vers: "sq_versions d1 \<noteq> None"
      by (auto simp: applied_versions_def)
    from j Suc d1 have run: "run_ddls (take i (?pending (applied_versions d))) d1 = Some x"
      by (simp add: run_ddls_Cons del: run_ddl.simps)
    then have "reached (?pending (applied_versions d)) d1 x" by (auto simp: reached_def)
    from pending_resumed [OF this migrations_repeatable migrations_distinct] same
    have resumed: "run_ddls (?pending (applied_versions x)) x = run_ddls (?pending (applied_versions d)) d1" by simp
    have "sq_versions x \<noteq> None" by (rule run_ddls_never_vanish [OF run vers])
    then have "run_ddl CreateVersions x = Some x" by simp
    with resumed d1 show ?thesis by (simp add: statements_init run_ddls_Cons del: run_ddl.simps)
  qed
qed

text \<open>The same up to the time stamps of the version table.\<close>

definition without_stamps :: "sqldb \<Rightarrow> sqldb" where
  "without_stamps d = d\<lparr>sq_versions := map_option (map (\<lambda>(v, a). (v, []))) (sq_versions d)\<rparr>"

fun unstamped :: "ddl \<Rightarrow> ddl" where
  "unstamped (RecordVersion v stamp) = RecordVersion v []"
| "unstamped s = s"

lemma without_stamps_simps [simp]:
  "sq_tables (without_stamps d) = sq_tables d" "sq_indexes (without_stamps d) = sq_indexes d"
  "applied_versions (without_stamps d) = applied_versions d"
  by (auto simp: without_stamps_def applied_versions_def case_prod_beta split: option.splits)

lemma on_table_stamps: "on_table n cs f (without_stamps d) = map_option without_stamps (on_table n cs f d)"
  by (auto simp: on_table_def without_stamps_def split: option.splits)

lemma run_ddl_stamps: "run_ddl (unstamped s) (without_stamps d) = map_option without_stamps (run_ddl s d)"
  by (cases s) (simp_all add: on_table_stamps, auto simp: without_stamps_def image_iff split: option.splits)

lemma run_ddls_stamps:
  "run_ddls (map unstamped ss) (without_stamps d) = map_option without_stamps (run_ddls ss d)"
  by (induction ss arbitrary: d) (simp_all add: run_ddls_Cons run_ddl_stamps split: option.splits)

lemma keeps_unstamped: "keeps_versions m \<Longrightarrow> map unstamped m = m"
  by (induction m) (auto simp: keeps_versions_def split: ddl.splits)

lemma init_statements_stamps:
  "list_all (\<lambda>(v, m). repeatable m \<and> keeps_versions m) ms \<Longrightarrow>
   map unstamped (init_statements now applied ms) = init_statements [] applied ms"
  by (induction ms) (auto simp: init_statements_def keeps_unstamped)

lemma init_stamps:
  "map unstamped (statements (init_steps now d)) = statements (init_steps [] (without_stamps d))"
  by (simp add: statements_init init_statements_stamps [OF migrations_repeatable])

lemma reached_stamps: "reached ss d x \<Longrightarrow> reached (map unstamped ss) (without_stamps d) (without_stamps x)"
  unfolding reached_def take_map run_ddls_stamps by auto

lemma db_init_stamps:
  "map_option without_stamps (db_init now d) = run_ddls (statements (init_steps [] (without_stamps d))) (without_stamps d)"
  unfolding init_runs_statements init_stamps [of now d, symmetric] run_ddls_stamps ..

text \<open>
  C29 (equivalence). Starting again repairs any interrupted start. Let the process die after any step of
  \<open>init\<close>, before or between the commits, on any sqldb whatever: the next start gives the same
  tables, rows, indexes and versions as a start that was never interrupted, and raises exactly when
  that one raises. With \<open>n\<close> beyond the last step this says that a second start changes nothing.
\<close>

theorem interrupted_init_is_repaired:
  "map_option without_stamps (db_init later (crashed now n d)) = map_option without_stamps (db_init now d)"
  unfolding db_init_stamps
  by (rule resumed_statements) (use reached_stamps [OF crashed_reached, of now d n] in \<open>simp only: init_stamps\<close>)

text \<open>A start on no sqldb at all builds the schema the statements of the program rely on.\<close>

lemma fresh_database:
  "\<exists>x. db_init now empty_sqldb = Some x \<and> applied_versions x = [1, 2, 3, 4, 5, 6, 7, 8, 9]
    \<and> map_option column_names (map_of (sq_tables x) ''models'') = Some (map cl_name models_columns)
    \<and> map_option column_names (map_of (sq_tables x) ''request_log'') = Some (map cl_name request_log_columns)
    \<and> length (sq_indexes x) = 5"
proof -
  have "(case db_init [] empty_sqldb of None \<Rightarrow> False | Some x \<Rightarrow> applied_versions x = [1, 2, 3, 4, 5, 6, 7, 8, 9]
    \<and> map_option column_names (map_of (sq_tables x) ''models'') = Some (map cl_name models_columns)
    \<and> map_option column_names (map_of (sq_tables x) ''request_log'') = Some (map cl_name request_log_columns)
    \<and> length (sq_indexes x) = 5)" by code_simp
  then obtain y where y: "db_init [] empty_sqldb = Some y" "applied_versions y = [1, 2, 3, 4, 5, 6, 7, 8, 9]"
    "map_option column_names (map_of (sq_tables y) ''models'') = Some (map cl_name models_columns)"
    "map_option column_names (map_of (sq_tables y) ''request_log'') = Some (map cl_name request_log_columns)"
    "length (sq_indexes y) = 5" by (cases "db_init [] empty_sqldb") simp_all
  have "map_option without_stamps (db_init now empty_sqldb) = map_option without_stamps (db_init [] empty_sqldb)"
    by (simp only: db_init_stamps)
  with y(1) obtain x where x: "db_init now empty_sqldb = Some x" "without_stamps x = without_stamps y" by auto
  from x(2) have "sq_tables x = sq_tables y" "sq_indexes x = sq_indexes y" "applied_versions x = applied_versions y"
    by (metis without_stamps_simps)+
  with x(1) y show ?thesis by simp
qed

end
