(* ===== verification/FL_Sse.thy ===== *)
theory FL_Sse
  imports FL_Providers
begin

text \<open>
  The event splitter of both adapters: the nested generator \<open>event_stream\<close> of
  \<open>stream_chat_completions\<close> in \<open>src/providers/openai_compatible.py\<close> and
  \<open>src/providers/openrouter.py\<close> (the same code in both). The body of the response arrives in
  chunks cut anywhere; the generator collects lines and yields one event per blank line.

  The input is the list of chunks and how the response ends (\<open>stream_end\<close>). A run is the list of
  events yielded and the error raised, if any; events precede the error. The lines themselves
  are kept as bytes: \<open>env_decode_replace\<close> is the lenient decoding of a line followed by the
  encoding of the yielded text.
\<close>

section \<open>The generator\<close>

definition LF :: char where
  "LF = CHR 0x0A"

definition CR :: char where
  "CR = CHR 0x0D"

record sse_state =
  ss_pending :: "bytes list"
  ss_bytes :: int

type_synonym sse_run = "bytes list \<times> (provider_error + sse_state)"

definition event_too_long :: provider_error where
  "event_too_long = unavailable ''provider SSE event exceeded size limit''"

definition strip_cr :: "bytes \<Rightarrow> bytes" where
  "strip_cr line = (if line \<noteq> [] \<and> last line = CR then butlast line else line)"

definition render_event :: "bytes list \<Rightarrow> bytes" where
  "render_event ls = join [LF] ls @ [LF, LF]"

definition add_line :: "int \<Rightarrow> bytes \<Rightarrow> bytes \<Rightarrow> sse_state \<Rightarrow> provider_error + sse_state" where
  "add_line limit line decoded st =
    (let n = ss_bytes st + int (length line) + 1 in
     if limit < n then Inl event_too_long
     else Inr \<lparr>ss_pending = ss_pending st @ [decoded], ss_bytes = n\<rparr>)"

text \<open>The body of the loop over the complete lines in the buffer.\<close>

definition sse_line :: "py_env \<Rightarrow> int \<Rightarrow> bytes \<Rightarrow> sse_state \<Rightarrow> sse_run" where
  "sse_line env limit raw st =
    (let line = strip_cr raw; decoded = env_decode_replace env line in
     if limit < int (length line) then ([], Inl event_too_long)
     else if line = [] then
       (if ss_pending st = [] then ([], Inr st)
        else ([render_event (ss_pending st)], Inr \<lparr>ss_pending = [], ss_bytes = 0\<rparr>))
     else if py_startswith decoded '':'' then ([], Inr st)
     else ([], add_line limit line decoded st))"

definition then_run :: "sse_run \<Rightarrow> (sse_state \<Rightarrow> bytes list \<times> (provider_error + 'a)) \<Rightarrow> bytes list \<times> (provider_error + 'a)" where
  "then_run r f = (case r of
       (evs, Inl e) \<Rightarrow> (evs, Inl e)
     | (evs, Inr st) \<Rightarrow> (let (evs', r') = f st in (evs @ evs', r')))"

text \<open>\<open>while b"\n" in line_buffer\<close>: take the text before the first line feed out of the buffer.\<close>

function drain :: "py_env \<Rightarrow> int \<Rightarrow> bytes \<Rightarrow> sse_state \<Rightarrow> bytes list \<times> (provider_error + bytes \<times> sse_state)" where
  "drain env limit buf st =
    (if LF \<notin> set buf then ([], Inr (buf, st))
     else then_run (sse_line env limit (takeWhile (\<lambda>c. c \<noteq> LF) buf) st)
       (drain env limit (drop 1 (dropWhile (\<lambda>c. c \<noteq> LF) buf))))"
  by pat_completeness auto

lemma dropWhile_rest_shorter: "c \<in> set buf \<Longrightarrow> length (drop 1 (dropWhile (\<lambda>d. d \<noteq> c) buf)) < length buf"
  by (induction buf) auto

termination drain
  by (relation "measure (\<lambda>(env, limit, buf, st). length buf)") (auto dest: dropWhile_rest_shorter)

declare drain.simps [simp del]

datatype stream_end = Finished | TimedOut | TransportFailed

text \<open>What follows the last chunk: the unterminated line and the pending event, or the mapped error.\<close>

definition sse_end :: "py_env \<Rightarrow> int \<Rightarrow> stream_end \<Rightarrow> bytes \<Rightarrow> sse_state \<Rightarrow> bytes list \<times> (provider_error + unit)" where
  "sse_end env limit ending buf st = (case ending of
       TimedOut \<Rightarrow> ([], Inl (unavailable ''provider stream timeout''))
     | TransportFailed \<Rightarrow> ([], Inl (unavailable ''provider stream transport error''))
     | Finished \<Rightarrow>
         (case (if buf = [] then Inr st
                else add_line limit (strip_cr buf) (env_decode_replace env (strip_cr buf)) st) of
            Inl e \<Rightarrow> ([], Inl e)
          | Inr st' \<Rightarrow> (if ss_pending st' = [] then [] else [render_event (ss_pending st')], Inr ())))"

fun sse_chunks ::
  "py_env \<Rightarrow> int \<Rightarrow> bytes list \<Rightarrow> stream_end \<Rightarrow> bytes \<Rightarrow> sse_state \<Rightarrow> bytes list \<times> (provider_error + unit)" where
  "sse_chunks env limit [] ending buf st = sse_end env limit ending buf st"
| "sse_chunks env limit (chunk # chunks) ending buf st =
    (case drain env limit (buf @ chunk) st of
       (evs, Inl e) \<Rightarrow> (evs, Inl e)
     | (evs, Inr (buf', st')) \<Rightarrow>
         if limit < int (length buf') then (evs, Inl event_too_long)
         else (let (evs', r) = sse_chunks env limit chunks ending buf' st' in (evs @ evs', r)))"

definition sse_init :: sse_state where
  "sse_init = \<lparr>ss_pending = [], ss_bytes = 0\<rparr>"

definition event_stream :: "py_env \<Rightarrow> int \<Rightarrow> bytes list \<Rightarrow> stream_end \<Rightarrow> bytes list \<times> (provider_error + unit)" where
  "event_stream env limit chunks ending = sse_chunks env limit chunks ending [] sse_init"

section \<open>The reference: lines of the whole body\<close>

text \<open>The terminated lines of a text and the rest after the last line feed.\<close>

fun split_lines :: "bytes \<Rightarrow> bytes list \<times> bytes" where
  "split_lines [] = ([], [])"
| "split_lines (c # cs) =
    (let (ls, rest) = split_lines cs in
     if c = LF then ([] # ls, rest)
     else (case ls of [] \<Rightarrow> ([], c # rest) | l # ls' \<Rightarrow> ((c # l) # ls', rest)))"

fun run_lines :: "py_env \<Rightarrow> int \<Rightarrow> bytes list \<Rightarrow> sse_state \<Rightarrow> sse_run" where
  "run_lines env limit [] st = ([], Inr st)"
| "run_lines env limit (l # ls) st = then_run (sse_line env limit l st) (run_lines env limit ls)"

definition reference_stream :: "py_env \<Rightarrow> int \<Rightarrow> bytes \<Rightarrow> stream_end \<Rightarrow> bytes list \<times> (provider_error + unit)" where
  "reference_stream env limit body ending =
    (let (ls, rest) = split_lines body in
     then_run (run_lines env limit ls sse_init)
       (\<lambda>st. if limit < int (length rest) then ([], Inl event_too_long) else sse_end env limit ending rest st))"

lemma then_run_simps [simp]:
  "then_run (evs, Inl e) f = (evs, Inl e)"
  "then_run (evs, Inr st) f = (evs @ fst (f st), snd (f st))"
  by (simp_all add: then_run_def case_prod_beta)

lemma then_run_unit [simp]: "then_run r (\<lambda>st. ([], Inr st)) = r"
  by (simp add: then_run_def split: prod.splits sum.splits)

lemma then_run_assoc: "then_run (then_run r f) g = then_run r (\<lambda>st. then_run (f st) g)"
  by (simp add: then_run_def case_prod_beta split: sum.split)

lemma then_run_fail: "(\<And>st. f st = ([], Inl e)) \<Longrightarrow> then_run (then_run r f) g = then_run r f"
  by (simp add: then_run_def case_prod_beta split: sum.split)

lemma split_lines_no_LF: "LF \<notin> set s \<Longrightarrow> split_lines s = ([], s)"
  by (induction s) auto

lemma split_lines_Cons_line: "LF \<notin> set l \<Longrightarrow> split_lines (l @ LF # s) = (l # fst (split_lines s), snd (split_lines s))"
  by (induction l) (auto simp: case_prod_beta Let_def)

lemma split_lines_rest_no_LF: "LF \<notin> set (snd (split_lines s))"
  by (induction s) (auto simp: case_prod_beta Let_def split: list.split)

lemma line_decomp:
  assumes "LF \<in> set s"
  obtains l r where "s = l @ LF # r" and "LF \<notin> set l"
    and "takeWhile (\<lambda>c. c \<noteq> LF) s = l" and "drop 1 (dropWhile (\<lambda>c. c \<noteq> LF) s) = r"
proof -
  from split_list_first [OF assms] obtain l r where s: "s = l @ LF # r" "LF \<notin> set l" by blast
  then have "takeWhile (\<lambda>c. c \<noteq> LF) s = l" "drop 1 (dropWhile (\<lambda>c. c \<noteq> LF) s) = r"
    by (auto simp: takeWhile_append dropWhile_append)
  with s that show ?thesis by blast
qed

lemma run_lines_append:
  "run_lines env limit (ls @ ls') = (\<lambda>st. then_run (run_lines env limit ls st) (run_lines env limit ls'))"
proof (induction ls)
  case (Cons l ls)
  then show ?case by (intro ext) (simp only: append_Cons run_lines.simps then_run_assoc)
qed simp

text \<open>The lines of a concatenation: the rest of the first text begins the next line.\<close>

lemma split_lines_append:
  "split_lines (s @ t) =
   (fst (split_lines s) @ fst (split_lines (snd (split_lines s) @ t)), snd (split_lines (snd (split_lines s) @ t)))"
proof (induction s rule: measure_induct_rule [where f = length])
  case (less s)
  show ?case
  proof (cases "LF \<in> set s")
    case False
    then show ?thesis by (simp add: split_lines_no_LF)
  next
    case True
    then obtain l r where s: "s = l @ LF # r" and l: "LF \<notin> set l" by (rule line_decomp)
    then have "length r < length s" by simp
    from less [OF this] show ?thesis
      by (simp add: s split_lines_Cons_line [OF l])
  qed
qed

lemma drain_run_lines:
  "drain env limit buf st =
   then_run (run_lines env limit (fst (split_lines buf)) st) (\<lambda>st'. ([], Inr (snd (split_lines buf), st')))"
proof (induction env limit buf st rule: drain.induct)
  case (1 env limit buf st)
  show ?case
  proof (cases "LF \<in> set buf")
    case False
    then show ?thesis by (simp add: drain.simps split_lines_no_LF)
  next
    case True
    obtain l r where buf: "buf = l @ LF # r" and l: "LF \<notin> set l"
      and parts: "takeWhile (\<lambda>c. c \<noteq> LF) buf = l" "drop 1 (dropWhile (\<lambda>c. c \<noteq> LF) buf) = r"
      using line_decomp [OF True] by blast
    have step: "drain env limit buf st = then_run (sse_line env limit l st) (drain env limit r)"
      using True by (subst drain.simps) (simp only: parts simp_thms if_False)
    have IH: "drain env limit r st' =
        then_run (run_lines env limit (fst (split_lines r)) st') (\<lambda>st'. ([], Inr (snd (split_lines r), st')))" for st'
      using "1.IH" [of st'] True unfolding parts by simp
    show ?thesis unfolding step IH by (simp add: buf split_lines_Cons_line [OF l] then_run_assoc)
  qed
qed

section \<open>Chunking does not matter\<close>

definition reference_from ::
  "py_env \<Rightarrow> int \<Rightarrow> bytes \<Rightarrow> stream_end \<Rightarrow> sse_state \<Rightarrow> bytes list \<times> (provider_error + unit)" where
  "reference_from env limit body ending st =
    then_run (run_lines env limit (fst (split_lines body)) st)
      (\<lambda>st. if limit < int (length (snd (split_lines body))) then ([], Inl event_too_long)
        else sse_end env limit ending (snd (split_lines body)) st)"

lemma strip_cr_length: "length line \<le> Suc (length (strip_cr line))"
  by (simp add: strip_cr_def)

lemma sse_line_too_long: "limit + 1 < int (length raw) \<Longrightarrow> sse_line env limit raw st = ([], Inl event_too_long)"
  using strip_cr_length [of raw] by (simp add: sse_line_def Let_def)

text \<open>A line that already exceeds the limit fails, whatever follows it.\<close>

lemma long_prefix_fails:
  assumes "LF \<notin> set b" and "limit < int (length b)"
    and "\<And>l. l \<in> set (fst (split_lines (b @ tail))) \<Longrightarrow> int (length l) \<noteq> limit + 1"
  shows "reference_from env limit (b @ tail) ending st = ([], Inl event_too_long)"
proof (cases "LF \<in> set tail")
  case False
  with assms(1,2) show ?thesis by (simp add: reference_from_def split_lines_no_LF)
next
  case True
  then obtain l r where tl: "tail = l @ LF # r" "LF \<notin> set l" using line_decomp by blast
  then have lines: "split_lines (b @ tail) = ((b @ l) # fst (split_lines r), snd (split_lines r))"
    using split_lines_Cons_line [of "b @ l" r] assms(1) by simp
  then have "int (length (b @ l)) \<noteq> limit + 1" using assms(3) [of "b @ l"] by simp
  with assms(2) have "limit + 1 < int (length (b @ l))" by simp
  from sse_line_too_long [OF this] lines show ?thesis by (simp add: reference_from_def)
qed

lemma sse_chunks_reference:
  assumes "\<And>l. l \<in> set (fst (split_lines (buf @ concat chunks))) \<Longrightarrow> int (length l) \<noteq> limit + 1"
    and "LF \<notin> set buf" and "int (length buf) \<le> limit"
  shows "sse_chunks env limit chunks ending buf st = reference_from env limit (buf @ concat chunks) ending st"
  using assms
proof (induction chunks arbitrary: buf st)
  case Nil
  then show ?case by (simp add: reference_from_def split_lines_no_LF)
next
  case (Cons chunk chunks)
  obtain A B where AB: "split_lines (buf @ chunk) = (A, B)" by fastforce
  have B: "LF \<notin> set B" using split_lines_rest_no_LF [of "buf @ chunk"] AB by simp
  have lines: "split_lines (buf @ concat (chunk # chunks)) =
      (A @ fst (split_lines (B @ concat chunks)), snd (split_lines (B @ concat chunks)))"
    using split_lines_append [of "buf @ chunk" "concat chunks"] AB by simp
  have short: "int (length l) \<noteq> limit + 1" if "l \<in> set (fst (split_lines (B @ concat chunks)))" for l
    using Cons.prems(1) [of l] that unfolding lines by simp
  have ref: "reference_from env limit (buf @ concat (chunk # chunks)) ending st =
      then_run (run_lines env limit A st) (reference_from env limit (B @ concat chunks) ending)"
    unfolding reference_from_def lines fst_conv snd_conv by (simp add: run_lines_append then_run_assoc)
  have drained: "drain env limit (buf @ chunk) st = then_run (run_lines env limit A st) (\<lambda>st'. ([], Inr (B, st')))"
    using drain_run_lines [of env limit "buf @ chunk" st] AB by simp
  obtain evs r where run: "run_lines env limit A st = (evs, r)" by fastforce
  show ?case
  proof (cases r)
    case (Inl e)
    then show ?thesis unfolding ref sse_chunks.simps drained run by simp
  next
    case (Inr st')
    have "sse_chunks env limit chunks ending B st' = reference_from env limit (B @ concat chunks) ending st'"
      if "int (length B) \<le> limit" by (rule Cons.IH) (use short B that in auto)
    with long_prefix_fails [OF B _ short, where env = env and ending = ending and st = st'] show ?thesis
      unfolding ref sse_chunks.simps drained run by (simp add: Inr case_prod_beta)
  qed
qed

text \<open>
  C30 (equivalence). However the response is cut into chunks, the generator yields the events, and
  ends with the error, of the reference that splits the whole body into lines at once. The only
  exception are lines one byte above the limit: their last byte may be the carriage return that
  is not counted, which the generator cannot know before it sees the line feed.
\<close>

theorem event_stream_chunking:
  assumes "list_all (\<lambda>l. int (length l) \<noteq> limit + 1) (fst (split_lines (concat chunks)))" and "0 \<le> limit"
  shows "event_stream env limit chunks ending = reference_stream env limit (concat chunks) ending"
  using sse_chunks_reference [of "[]" chunks limit env ending sse_init] assms
  by (simp add: event_stream_def reference_stream_def reference_from_def list_all_iff case_prod_beta)

theorem event_stream_chunking_witness:
  "event_stream \<lparr>env_loads = (\<lambda>b. None), env_loads_text = (\<lambda>b. None), env_decode_ignore = id, env_decode_replace = id,
      env_repr = (\<lambda>v. [])\<rparr> 100 [''data: '', ''x'' @ [CR], [LF], [LF, CHR ''y'']] Finished = ([''data: x'' @ [LF, LF], ''y'' @ [LF, LF]], Inr ())"
proof -
  let ?env = "\<lparr>env_loads = (\<lambda>b. None), env_loads_text = (\<lambda>b. None), env_decode_ignore = id, env_decode_replace = id,
      env_repr = (\<lambda>v. [])\<rparr>" and ?chunks = "[''data: '', ''x'' @ [CR], [LF], [LF, CHR ''y'']]"
  have "list_all (\<lambda>l. int (length l) \<noteq> 100 + 1) (fst (split_lines (concat ?chunks)))"
    by (simp add: LF_def CR_def)
  from event_stream_chunking [OF this, of ?env Finished]
  show ?thesis
    by (simp add: reference_stream_def LF_def CR_def sse_line_def strip_cr_def py_startswith_def add_line_def sse_init_def
        render_event_def sse_end_def Let_def)
qed

section \<open>What a server sends arrives\<close>

definition good_line :: "py_env \<Rightarrow> bytes \<Rightarrow> bool" where
  "good_line env l = (l \<noteq> [] \<and> LF \<notin> set l \<and> last l \<noteq> CR \<and> \<not> py_startswith l '':'' \<and> env_decode_replace env l = l)"

definition lines_size :: "bytes list \<Rightarrow> int" where
  "lines_size ls = sum_list (map (\<lambda>l. int (length l) + 1) ls)"

definition good_event :: "py_env \<Rightarrow> int \<Rightarrow> bytes list \<Rightarrow> bool" where
  "good_event env limit ls = (ls \<noteq> [] \<and> list_all (good_line env) ls \<and> lines_size ls \<le> limit)"

text \<open>The body of a server that ends its lines by a line feed or by both characters.\<close>

definition wire_line :: "bool \<Rightarrow> bytes \<Rightarrow> bytes" where
  "wire_line crlf l = l @ (if crlf then [CR] else [])"

definition wire_lines :: "bool \<Rightarrow> bytes list list \<Rightarrow> bytes list" where
  "wire_lines crlf events = concat (map (\<lambda>ls. map (wire_line crlf) (ls @ [[]])) events)"

definition wire_body :: "bool \<Rightarrow> bytes list list \<Rightarrow> bytes" where
  "wire_body crlf events = concat (map (\<lambda>l. l @ [LF]) (wire_lines crlf events))"

lemma lines_size_simps [simp]:
  "lines_size [] = 0" "lines_size (l # ls) = int (length l) + 1 + lines_size ls"
  by (simp_all add: lines_size_def)

lemma lines_size_nonneg [simp]: "0 \<le> lines_size ls"
  by (induction ls) simp_all

lemma line_le_size: "l \<in> set ls \<Longrightarrow> int (length l) + 1 \<le> lines_size ls"
proof (induction ls)
  case (Cons k ks)
  then show ?case using lines_size_nonneg [of ks] by auto
qed simp

lemma LF_neq_CR [simp]: "LF \<noteq> CR" "CR \<noteq> LF"
  by (simp_all add: LF_def CR_def)

lemma strip_cr_wire: "l = [] \<or> last l \<noteq> CR \<Longrightarrow> strip_cr (wire_line crlf l) = l"
  by (auto simp: strip_cr_def wire_line_def)

lemma split_lines_body:
  "list_all (\<lambda>l. LF \<notin> set l) ls \<Longrightarrow> split_lines (concat (map (\<lambda>l. l @ [LF]) ls)) = (ls, [])"
  by (induction ls) (simp_all add: split_lines_Cons_line)

lemma sse_line_good:
  assumes "good_line env l" and "ss_bytes st + int (length l) + 1 \<le> limit" and "0 \<le> ss_bytes st"
  shows "sse_line env limit (wire_line crlf l) st =
    ([], Inr \<lparr>ss_pending = ss_pending st @ [l], ss_bytes = ss_bytes st + int (length l) + 1\<rparr>)"
  using assms by (simp add: sse_line_def add_line_def good_line_def strip_cr_wire Let_def)

lemma sse_line_blank:
  "0 \<le> limit \<Longrightarrow> sse_line env limit (wire_line crlf []) st =
    (if ss_pending st = [] then ([], Inr st) else ([render_event (ss_pending st)], Inr sse_init))"
  by (simp add: sse_line_def strip_cr_wire sse_init_def)

lemma run_lines_good:
  assumes "list_all (good_line env) ls" and "ss_bytes st + lines_size ls \<le> limit" and "0 \<le> ss_bytes st"
  shows "run_lines env limit (map (wire_line crlf) ls) st =
    ([], Inr \<lparr>ss_pending = ss_pending st @ ls, ss_bytes = ss_bytes st + lines_size ls\<rparr>)"
  using assms
proof (induction ls arbitrary: st)
  case (Cons l ls)
  have "ss_bytes st + int (length l) + 1 \<le> limit" using Cons.prems(2) lines_size_nonneg [of ls] unfolding lines_size_simps by linarith
  with Cons.prems have "sse_line env limit (wire_line crlf l) st =
      ([], Inr \<lparr>ss_pending = ss_pending st @ [l], ss_bytes = ss_bytes st + int (length l) + 1\<rparr>)"
    by (intro sse_line_good) simp_all
  with Cons show ?case by (simp add: algebra_simps)
qed simp

lemma run_lines_event:
  assumes "good_event env limit ls"
  shows "run_lines env limit (map (wire_line crlf) (ls @ [[]])) sse_init = ([render_event ls], Inr sse_init)"
proof -
  have "0 \<le> limit" using assms lines_size_nonneg [of ls] unfolding good_event_def by linarith
  moreover have "run_lines env limit (map (wire_line crlf) ls) sse_init =
      ([], Inr \<lparr>ss_pending = ls, ss_bytes = lines_size ls\<rparr>)"
    using run_lines_good [of env ls sse_init limit crlf] assms by (simp add: good_event_def sse_init_def)
  ultimately show ?thesis using assms by (simp add: run_lines_append sse_line_blank good_event_def)
qed

lemma run_lines_events:
  "list_all (good_event env limit) events \<Longrightarrow>
   run_lines env limit (wire_lines crlf events) sse_init = (map render_event events, Inr sse_init)"
proof (induction events)
  case (Cons ls events)
  have "wire_lines crlf (ls # events) = map (wire_line crlf) (ls @ [[]]) @ wire_lines crlf events"
    by (simp add: wire_lines_def)
  with Cons run_lines_event [of env limit ls crlf] show ?case
    by (simp only: run_lines_append) simp
qed (simp add: wire_lines_def)

lemma wire_lines_facts:
  assumes "list_all (good_event env limit) events" and "l \<in> set (wire_lines crlf events)" and "0 < limit"
  shows "LF \<notin> set l \<and> int (length l) \<le> limit"
proof -
  from assms(2) obtain ls where ls: "ls \<in> set events" and "l \<in> wire_line crlf ` set (ls @ [[]])"
    by (auto simp only: wire_lines_def set_concat set_map)
  then obtain k where l: "l = wire_line crlf k" and k: "k \<in> set ls \<or> k = []" by auto
  from assms(1) ls have ev: "list_all (good_line env) ls" "lines_size ls \<le> limit"
    by (auto simp: list_all_iff good_event_def)
  then have "k \<in> set ls \<Longrightarrow> int (length k) + 1 \<le> limit" using line_le_size [of k ls] by simp
  with k ev(1) assms(3) show ?thesis by (auto simp: l wire_line_def good_line_def list_all_iff)
qed

text \<open>
  A server that writes well-formed events within the size limit, with either line
  ending, is received exactly: however the network cuts its body, the generator yields these
  events and ends without an error.
\<close>

theorem event_stream_roundtrip:
  assumes "list_all (good_event env limit) events" and "concat chunks = wire_body crlf events" and "0 < limit"
  shows "event_stream env limit chunks Finished = (map render_event events, Inr ())"
proof -
  note facts = wire_lines_facts [OF assms(1) _ assms(3)]
  have body: "split_lines (concat chunks) = (wire_lines crlf events, [])"
    unfolding assms(2) wire_body_def using facts by (intro split_lines_body) (auto simp: list_all_iff)
  have "sse_chunks env limit chunks Finished [] sse_init = reference_from env limit ([] @ concat chunks) Finished sse_init"
    by (rule sse_chunks_reference) (use body facts assms(3) in fastforce)+
  moreover have "sse_end env limit Finished [] sse_init = ([], Inr ())" by (simp add: sse_end_def sse_init_def)
  ultimately show ?thesis
    using assms(3) unfolding event_stream_def reference_from_def append_Nil body fst_conv snd_conv
    by (simp add: run_lines_events [OF assms(1)])
qed

theorem event_stream_roundtrip_witness:
  "event_stream \<lparr>env_loads = (\<lambda>b. None), env_loads_text = (\<lambda>b. None), env_decode_ignore = id, env_decode_replace = id,
      env_repr = (\<lambda>v. [])\<rparr> 100 [''data: 1'' @ [CR], [LF, CR], [LF]] Finished = ([''data: 1'' @ [LF, LF]], Inr ())"
proof -
  have "event_stream \<lparr>env_loads = (\<lambda>b. None), env_loads_text = (\<lambda>b. None), env_decode_ignore = id, env_decode_replace = id,
      env_repr = (\<lambda>v. [])\<rparr> 100 [''data: 1'' @ [CR], [LF, CR], [LF]] Finished = (map render_event [[''data: 1'']], Inr ())"
    by (rule event_stream_roundtrip [where crlf = True])
      (simp_all add: good_event_def good_line_def LF_def CR_def py_startswith_def wire_body_def wire_lines_def wire_line_def)
  then show ?thesis by (simp add: render_event_def)
qed

end
