(* ===== verification/FL_Listing.thy ===== *)
theory FL_Listing
  imports FL_Adapters
begin

text \<open>
  What the adapters make of a provider's answers (\<open>discover_models\<close>, \<open>chat_completions\<close> and their
  helpers in \<open>src/providers/openai_compatible.py\<close> and \<open>src/providers/openrouter.py\<close>). The answer
  is the JSON value the provider sent, so nothing is known of its shape. The OpenAI-compatible
  adapter tolerates every shape; the OpenRouter adapter indexes it as documented and raises on
  anything else. A discovered model is the dictionary handed to \<open>run_discovery\<close>.
\<close>

type_synonym discovered = "(string, json) dict"

section \<open>Tolerant readers\<close>

definition nested_step :: "string \<Rightarrow> json \<Rightarrow> json" where
  "nested_step part current = (case current of JObj kvs \<Rightarrow> jget kvs part | _ \<Rightarrow> JNull)"

definition nested_get :: "(string \<times> json) list \<Rightarrow> string \<Rightarrow> json" where
  "nested_get row key = fold nested_step (split_on (CHR ''.'') key) (JObj row)"

definition coerce_int :: "json \<Rightarrow> py_error + int option" where
  "coerce_int v = (case v of
       JInt i \<Rightarrow> Inr (if 0 \<le> i then Some i else None)
     | JFloat r \<Rightarrow> Inr (if 0 \<le> r then Some (rat_trunc r) else None)
     | JStr s \<Rightarrow> (let t = py_strip s in
         if py_isdigit t then (case py_int t of None \<Rightarrow> Inl ValueError | Some i \<Rightarrow> Inr (Some i)) else Inr None)
     | _ \<Rightarrow> Inr None)"

fun extract_int :: "(string \<times> json) list \<Rightarrow> string list \<Rightarrow> py_error + int option" where
  "extract_int row [] = Inr None"
| "extract_int row (key # keys) = sbind (coerce_int (nested_get row key)) (\<lambda>i.
     case i of Some n \<Rightarrow> Inr (Some n) | None \<Rightarrow> extract_int row keys)"

fun extract_str :: "py_env \<Rightarrow> (string \<times> json) list \<Rightarrow> string list \<Rightarrow> string option" where
  "extract_str env row [] = None"
| "extract_str env row (key # keys) =
     (let v = nested_get row key; out = py_strip (py_str (env_repr env) v) in
      if v = JNull \<or> out = [] then extract_str env row keys else Some out)"

definition bool_of :: "json \<Rightarrow> bool option" where
  "bool_of v = (case v of
       JBool b \<Rightarrow> Some b
     | JInt i \<Rightarrow> Some (i \<noteq> 0)
     | JStr s \<Rightarrow> (let normalized = py_lower (py_strip s) in
         if normalized \<in> {''1'', ''true'', ''yes'', ''on''} then Some True
         else if normalized \<in> {''0'', ''false'', ''no'', ''off''} then Some False else None)
     | _ \<Rightarrow> None)"

fun extract_bool :: "(string \<times> json) list \<Rightarrow> string list \<Rightarrow> bool option" where
  "extract_bool row [] = None"
| "extract_bool row (key # keys) =
     (case bool_of (nested_get row key) of Some b \<Rightarrow> Some b | None \<Rightarrow> extract_bool row keys)"

text \<open>The sets of capability names are lists here; only membership is asked.\<close>

definition extract_capabilities :: "py_env \<Rightarrow> (string \<times> json) list \<Rightarrow> string list" where
  "extract_capabilities env row = concat (map (\<lambda>key. case nested_get row key of
       JObj kvs \<Rightarrow> map (\<lambda>(k, v). py_lower k) (filter (\<lambda>(k, v). py_truthy v) kvs)
     | JList xs \<Rightarrow> map (\<lambda>x. py_lower (py_str (env_repr env) x)) xs
     | _ \<Rightarrow> []) [''supported_parameters'', ''capabilities'', ''supported_features'', ''features''])"

definition extract_input_modalities :: "py_env \<Rightarrow> (string \<times> json) list \<Rightarrow> string list" where
  "extract_input_modalities env row = concat (map (\<lambda>key. case nested_get row key of
       JList xs \<Rightarrow> map (\<lambda>x. py_lower (py_str (env_repr env) x)) xs
     | _ \<Rightarrow> []) [''input_modalities'', ''modalities'', ''supported_modalities'', ''architecture.input_modalities''])"

definition known_or :: "bool option \<Rightarrow> bool \<Rightarrow> bool" where
  "known_or b d = (case b of None \<Rightarrow> d | Some x \<Rightarrow> x)"

definition intersects :: "string list \<Rightarrow> string list \<Rightarrow> bool" where
  "intersects names xs = list_ex (\<lambda>n. n \<in> set xs) names"

definition json_int :: "int option \<Rightarrow> json" where
  "json_int i = (case i of None \<Rightarrow> JNull | Some n \<Rightarrow> JInt n)"

definition json_text :: "string option \<Rightarrow> json" where
  "json_text s = (case s of None \<Rightarrow> JNull | Some t \<Rightarrow> JStr t)"

definition int_flag :: "bool \<Rightarrow> json" where
  "int_flag b = JInt (if b then 1 else 0)"

section \<open>The OpenAI-compatible model list\<close>

definition CONTEXT_KEYS :: "string list" where
  "CONTEXT_KEYS = [''context_window'', ''context_length'', ''max_context_length'', ''max_input_tokens'',
     ''input_token_limit'', ''token_limit'', ''max_tokens'', ''architecture.context_length'']"

definition OUTPUT_KEYS :: "string list" where
  "OUTPUT_KEYS = [''max_output_tokens'', ''max_completion_tokens'', ''max_output_token'', ''output_token_limit'',
     ''completion_token_limit'']"

definition STRUCTURED_OUTPUT_NAMES :: "string list" where
  "STRUCTURED_OUTPUT_NAMES = [''response_format'', ''json_schema'', ''structured_outputs'', ''structured_output'']"

definition discovered_row ::
  "py_env \<Rightarrow> adapter \<Rightarrow> nat \<Rightarrow> (string \<times> json) list \<Rightarrow> string \<Rightarrow> int option \<Rightarrow> int option \<Rightarrow> discovered" where
  "discovered_row env ad index row model_id context_window max_output_tokens =
    (let capabilities = extract_capabilities env row;
         input_modalities = extract_input_modalities env row;
         tools = known_or (extract_bool row [''supports_tools'', ''tool_calling'', ''supports_function_calling''])
           (intersects [''tools'', ''tool_use'', ''tool_choice'', ''function_calling'', ''functions''] capabilities);
         streaming = known_or (extract_bool row [''supports_streaming'', ''streaming'', ''supports_stream''])
           (if capabilities = [] then True else ''stream'' \<in> set capabilities);
         structured = known_or (extract_bool row [''supports_structured_output'', ''supports_json_schema''])
           (intersects STRUCTURED_OUTPUT_NAMES capabilities);
         vision = known_or (extract_bool row [''supports_vision'', ''vision''])
           (intersects [''image'', ''vision'', ''multimodal''] input_modalities)
     in [(''id'', JStr (ad_name ad @ ''/'' @ model_id)),
         (''name'', JStr (py_str (env_repr env) (py_or (jget row ''name'') (JStr model_id)))),
         (''provider_id'', JStr (ad_name ad)),
         (''provider_model_id'', JStr model_id),
         (''provider_base_url'', JStr (ad_api_base ad)),
         (''provider_api_key_env'', JStr (ad_api_key_env ad)),
         (''context_window'', JInt (case context_window of None \<Rightarrow> 4096 | Some n \<Rightarrow> if n = 0 then 4096 else n)),
         (''max_output_tokens'', json_int max_output_tokens),
         (''tokenizer_family'', json_text (extract_str env row [''tokenizer_family'', ''tokenizer'', ''architecture.tokenizer''])),
         (''supports_tools'', int_flag tools), (''supports_streaming'', int_flag streaming),
         (''supports_vision'', int_flag vision), (''supports_structured_output'', int_flag structured),
         (''supports_system_messages'', JInt 1), (''provider_rank'', JInt (int index)),
         (''chatbot_arena_elo'', JNull), (''open_llm_score'', JNull), (''is_healthy'', JInt 1)])"

fun listed_models :: "py_env \<Rightarrow> adapter \<Rightarrow> nat \<Rightarrow> json list \<Rightarrow> py_error + discovered list" where
  "listed_models env ad index [] = Inr []"
| "listed_models env ad index (v # vs) =
    (case v of
       JObj row \<Rightarrow>
         (let model_id = py_strip (py_str (env_repr env) (py_or (jget row ''id'') (JStr []))) in
          if model_id = [] then listed_models env ad (Suc index) vs
          else
            sbind (extract_int row CONTEXT_KEYS) (\<lambda>context_window.
            sbind (extract_int row OUTPUT_KEYS) (\<lambda>max_output_tokens.
            sbind (listed_models env ad (Suc index) vs) (\<lambda>ms.
              Inr (discovered_row env ad index row model_id context_window max_output_tokens # ms)))))
     | _ \<Rightarrow> listed_models env ad (Suc index) vs)"

text \<open>\<open>_parse_json\<close>: an object, or nothing at all of what was sent; \<^const>\<open>None\<close> is invalid JSON.\<close>

definition parse_json :: "py_env \<Rightarrow> bytes \<Rightarrow> (string \<times> json) list option" where
  "parse_json env raw_body = (case env_loads env raw_body of
       None \<Rightarrow> None
     | Some (JObj kvs) \<Rightarrow> Some kvs
     | Some v \<Rightarrow> Some [])"

datatype fetch_failure = FProvider provider_error | FPython py_error

definition assert_api_key :: "adapter \<Rightarrow> fetch_failure + unit" where
  "assert_api_key ad = (if ad_api_key ad \<noteq> [] then Inr ()
     else Inl (FProvider (ProviderFatalError (ad_name ad @ '' api key is required'') AUTH_ERROR (Some 401) None)))"

text \<open>The result of \<open>_request_with_retries\<close>: the body, or what it raised.\<close>

definition response_body :: "attempt \<Rightarrow> fetch_failure + bytes" where
  "response_body a = (case a of
       AResponse status body \<Rightarrow> Inr body
     | ARetryable e \<Rightarrow> Inl (FProvider e)
     | AFatal e \<Rightarrow> Inl (FProvider e)
     | ACrash e \<Rightarrow> Inl (FPython e))"

definition from_py :: "py_error + 'a \<Rightarrow> fetch_failure + 'a" where
  "from_py r = (case r of Inl e \<Rightarrow> Inl (FPython e) | Inr x \<Rightarrow> Inr x)"

definition invalid_json :: provider_error where
  "invalid_json = unavailable ''provider returned invalid json''"

definition openai_discover_models :: "py_env \<Rightarrow> adapter \<Rightarrow> attempt \<Rightarrow> fetch_failure + discovered list" where
  "openai_discover_models env ad answer =
    sbind (assert_api_key ad) (\<lambda>u.
    sbind (response_body answer) (\<lambda>body.
      if 16 * 1024 * 1024 < int (length body) then Inl (FProvider (unavailable ''provider response exceeded size limit''))
      else case parse_json env body of
        None \<Rightarrow> Inl (FProvider invalid_json)
      | Some payload \<Rightarrow>
          (case jget payload ''data'' of JList rows \<Rightarrow> from_py (listed_models env ad 1 rows) | _ \<Rightarrow> Inr [])))"

section \<open>The OpenRouter model list\<close>

definition py_get :: "json \<Rightarrow> string \<Rightarrow> json \<Rightarrow> py_error + json" where
  "py_get v key dflt = (case v of JObj kvs \<Rightarrow> Inr (dict_get kvs key dflt) | _ \<Rightarrow> Inl AttributeError)"

text \<open>Iteration over a value: the items, the keys or the characters.\<close>

definition py_iter :: "json \<Rightarrow> py_error + json list" where
  "py_iter v = (case v of
       JList xs \<Rightarrow> Inr xs
     | JObj kvs \<Rightarrow> Inr (map (\<lambda>(k, x). JStr k) kvs)
     | JStr s \<Rightarrow> Inr (map (\<lambda>c. JStr [c]) s)
     | _ \<Rightarrow> Inl TypeError)"

definition lower_names :: "py_env \<Rightarrow> json list \<Rightarrow> string list" where
  "lower_names env xs = map (\<lambda>x. py_lower (py_str (env_repr env) x)) (filter (\<lambda>x. x \<noteq> JNull) xs)"

definition is_free_model :: "py_env \<Rightarrow> json \<Rightarrow> py_error + bool" where
  "is_free_model env row =
    sbind (py_get row ''pricing'' (JObj [])) (\<lambda>pricing.
    sbind (py_get pricing ''prompt'' (JStr [])) (\<lambda>prompt.
    sbind (py_get pricing ''completion'' (JStr [])) (\<lambda>completion.
      Inr (py_strip (py_str (env_repr env) prompt) = ''0'' \<and> py_strip (py_str (env_repr env) completion) = ''0''))))"

definition openrouter_row :: "py_env \<Rightarrow> adapter \<Rightarrow> nat \<Rightarrow> json \<Rightarrow> json \<Rightarrow> py_error + discovered" where
  "openrouter_row env ad index row model_id =
    sbind (py_get row ''supported_parameters'' (JList [])) (\<lambda>params.
    sbind (py_iter params) (\<lambda>ps.
    sbind (py_get row ''architecture'' (JObj [])) (\<lambda>architecture.
    sbind (py_get architecture ''tokenizer'' JNull) (\<lambda>tokenizer_family.
    sbind (py_get architecture ''input_modalities'' (JList [])) (\<lambda>modalities.
    sbind (py_iter modalities) (\<lambda>ms.
    sbind (py_get row ''top_provider'' (JObj [])) (\<lambda>top.
    sbind (py_get top ''max_completion_tokens'' JNull) (\<lambda>top_max.
    sbind (py_get row ''max_completion_tokens'' JNull) (\<lambda>row_max.
    sbind (py_get row ''name'' JNull) (\<lambda>name.
    sbind (py_get row ''context_length'' JNull) (\<lambda>context_length.
      Inr [(''id'', JStr (''openrouter/'' @ py_str (env_repr env) model_id)),
           (''name'', py_or name model_id), (''provider_id'', JStr ''openrouter''),
           (''provider_model_id'', model_id), (''provider_base_url'', JStr (ad_api_base ad)),
           (''provider_api_key_env'', JStr ''OPENROUTER_API_KEY''),
           (''context_window'', py_or context_length (JInt 4096)),
           (''max_output_tokens'', py_or top_max row_max),
           (''tokenizer_family'', tokenizer_family),
           (''supports_tools'', int_flag (''tools'' \<in> set (lower_names env ps))),
           (''supports_streaming'', JInt 1),
           (''supports_vision'', int_flag (''image'' \<in> set (lower_names env ms))),
           (''supports_structured_output'', int_flag (intersects STRUCTURED_OUTPUT_NAMES (lower_names env ps))),
           (''supports_system_messages'', JInt 1), (''openrouter_rank'', JInt (int index)),
           (''chatbot_arena_elo'', JNull), (''open_llm_score'', JNull), (''is_healthy'', JInt 1)])))))))))))"

fun openrouter_rows :: "py_env \<Rightarrow> adapter \<Rightarrow> nat \<Rightarrow> json list \<Rightarrow> py_error + discovered list" where
  "openrouter_rows env ad index [] = Inr []"
| "openrouter_rows env ad index (row # rows) =
    sbind (py_get row ''id'' JNull) (\<lambda>model_id.
      if \<not> py_truthy model_id then openrouter_rows env ad (Suc index) rows
      else sbind (is_free_model env row) (\<lambda>free.
        if \<not> free then openrouter_rows env ad (Suc index) rows
        else sbind (openrouter_row env ad index row model_id) (\<lambda>d.
             sbind (openrouter_rows env ad (Suc index) rows) (\<lambda>ds. Inr (d # ds)))))"

definition fallback_model :: "adapter \<Rightarrow> discovered" where
  "fallback_model ad =
    [(''id'', JStr ''openrouter/openrouter/free''), (''name'', JStr ''openrouter/free''),
     (''provider_id'', JStr ''openrouter''), (''provider_model_id'', JStr ''openrouter/free''),
     (''provider_base_url'', JStr (ad_api_base ad)), (''provider_api_key_env'', JStr ''OPENROUTER_API_KEY''),
     (''context_window'', JInt 4096), (''max_output_tokens'', JNull), (''supports_tools'', JInt 1),
     (''supports_streaming'', JInt 1), (''supports_vision'', JInt 1), (''supports_structured_output'', JInt 0),
     (''supports_system_messages'', JInt 1), (''openrouter_rank'', JInt 1), (''chatbot_arena_elo'', JNull),
     (''open_llm_score'', JNull), (''is_healthy'', JInt 1)]"

text \<open>Without a key the adapter is available only as the development stub.\<close>

definition openrouter_discover_models :: "py_env \<Rightarrow> adapter \<Rightarrow> attempt \<Rightarrow> fetch_failure + discovered list" where
  "openrouter_discover_models env ad answer =
    (if ad_api_key ad = [] then
       (if \<not> ad_discovery_available ad
        then Inl (FProvider (ProviderFatalError ''openrouter api key is required'' AUTH_ERROR (Some 401) None))
        else Inr [fallback_model ad])
     else sbind (response_body answer) (\<lambda>body.
       case env_loads env body of
         None \<Rightarrow> Inl (FPython ValueError)
       | Some payload \<Rightarrow> from_py
           (sbind (py_get payload ''data'' (JList [])) (\<lambda>data.
            sbind (py_iter data) (openrouter_rows env ad 1)))))"

section \<open>Chat answers\<close>

record chat_answer =
  cr_payload :: json
  cr_prompt_tokens :: json
  cr_completion_tokens :: json
  cr_total_tokens :: json

definition openai_chat_result :: "py_env \<Rightarrow> bytes \<Rightarrow> fetch_failure + chat_answer" where
  "openai_chat_result env body = (case parse_json env body of
       None \<Rightarrow> Inl (FProvider invalid_json)
     | Some payload \<Rightarrow>
         (let usage = (case jget payload ''usage'' of JObj kvs \<Rightarrow> kvs | _ \<Rightarrow> []) in
          sbind (from_py (coerce_int (jget usage ''prompt_tokens''))) (\<lambda>prompt.
          sbind (from_py (coerce_int (jget usage ''completion_tokens''))) (\<lambda>completion.
          sbind (from_py (coerce_int (jget usage ''total_tokens''))) (\<lambda>total.
            Inr \<lparr>cr_payload = JObj payload, cr_prompt_tokens = json_int prompt,
                 cr_completion_tokens = json_int completion, cr_total_tokens = json_int total\<rparr>)))))"

definition openai_chat_completions :: "py_env \<Rightarrow> adapter \<Rightarrow> attempt \<Rightarrow> fetch_failure + chat_answer" where
  "openai_chat_completions env ad answer =
    sbind (assert_api_key ad) (\<lambda>u. sbind (response_body answer) (openai_chat_result env))"

text \<open>The OpenRouter adapter passes the token counts on as they are.\<close>

definition openrouter_chat_result :: "py_env \<Rightarrow> bytes \<Rightarrow> fetch_failure + chat_answer" where
  "openrouter_chat_result env body = (case env_loads env body of
       None \<Rightarrow> Inl (FPython ValueError)
     | Some payload \<Rightarrow>
         sbind (from_py (py_get payload ''usage'' (JObj []))) (\<lambda>usage.
         sbind (from_py (py_get usage ''prompt_tokens'' JNull)) (\<lambda>prompt.
         sbind (from_py (py_get usage ''completion_tokens'' JNull)) (\<lambda>completion.
         sbind (from_py (py_get usage ''total_tokens'' JNull)) (\<lambda>total.
           Inr \<lparr>cr_payload = payload, cr_prompt_tokens = prompt, cr_completion_tokens = completion,
                cr_total_tokens = total\<rparr>)))))"

end
