(* ===== verification/FL_Throttle.thy ===== *)
theory FL_Throttle
  imports FL_Json
begin

text \<open>
  The failure throttle (\<open>src/security_throttle.py\<close>): per key a count of failures and the start
  of its window, in an ordered dictionary of bounded size whose least recently used entry is
  evicted. The monotonic clock is an argument. The keyed hash of the client key is a parameter
  \<open>digest\<close>; where the theorems need it, different clients have different digests.
\<close>

record throttle =
  th_limit :: int
  th_window_seconds :: int
  th_max_entries :: int
  th_entries :: "(string, int \<times> rat) dict"

definition throttle_init :: "int \<Rightarrow> int \<Rightarrow> int \<Rightarrow> throttle" where
  "throttle_init limit window_seconds max_entries =
     \<lparr>th_limit = max limit 1, th_window_seconds = max window_seconds 1,
      th_max_entries = max max_entries 1, th_entries = []\<rparr>"

definition move_to_end :: "'k \<Rightarrow> ('k, 'v) dict \<Rightarrow> ('k, 'v) dict" where
  "move_to_end k d = (case map_of d k of None \<Rightarrow> d | Some v \<Rightarrow> AList.delete k d @ [(k, v)])"

definition retry_after :: "(string \<Rightarrow> string) \<Rightarrow> rat \<Rightarrow> string \<Rightarrow> throttle \<Rightarrow> int \<times> throttle" where
  "retry_after digest now key th =
    (let d = digest key in
     case map_of (th_entries th) d of
       None \<Rightarrow> (0, th)
     | Some (cnt, started) \<Rightarrow>
         let remaining = started + of_int (th_window_seconds th) - now in
         if remaining \<le> 0 then (0, th\<lparr>th_entries := AList.delete d (th_entries th)\<rparr>)
         else (if th_limit th \<le> cnt then max 1 (rat_trunc (remaining + 999 / 1000)) else 0,
               th\<lparr>th_entries := move_to_end d (th_entries th)\<rparr>))"

text \<open>The loop that pops the oldest entries.\<close>

definition evict :: "int \<Rightarrow> ('k, 'v) dict \<Rightarrow> ('k, 'v) dict" where
  "evict max_entries d = drop (length d - nat max_entries) d"

definition throttle_fail :: "(string \<Rightarrow> string) \<Rightarrow> rat \<Rightarrow> string \<Rightarrow> throttle \<Rightarrow> throttle" where
  "throttle_fail digest now key th =
    (let d = digest key;
         entry = (case map_of (th_entries th) d of
             None \<Rightarrow> (1, now)
           | Some (cnt, started) \<Rightarrow>
               if of_int (th_window_seconds th) \<le> now - started then (1, now) else (cnt + 1, started))
     in th\<lparr>th_entries := evict (th_max_entries th) (move_to_end d (AList.update d entry (th_entries th)))\<rparr>)"

definition throttle_reset :: "(string \<Rightarrow> string) \<Rightarrow> string \<Rightarrow> throttle \<Rightarrow> throttle" where
  "throttle_reset digest key th = th\<lparr>th_entries := AList.delete (digest key) (th_entries th)\<rparr>"

datatype throttle_op = Retry rat string | Fail rat string | Reset string

fun throttle_step :: "(string \<Rightarrow> string) \<Rightarrow> throttle_op \<Rightarrow> throttle \<Rightarrow> throttle" where
  "throttle_step digest (Retry now key) th = snd (retry_after digest now key th)"
| "throttle_step digest (Fail now key) th = throttle_fail digest now key th"
| "throttle_step digest (Reset key) th = throttle_reset digest key th"

section \<open>The bounded dictionary\<close>

lemma map_of_delete_other: "map_of (AList.delete k d) k' = (if k' = k then None else map_of d k')"
  by (simp add: AList.delete_conv')

lemma map_of_move_to_end [simp]: "map_of (move_to_end k d) = map_of d"
proof (cases "map_of d k")
  case None
  then show ?thesis by (simp add: move_to_end_def)
next
  case (Some v)
  then show ?thesis
    by (intro ext) (auto simp: move_to_end_def map_add_def map_of_delete_other split: option.split)
qed

lemma delete_keys: "map fst (AList.delete k d) = filter (\<lambda>x. x \<noteq> k) (map fst d)"
  by (induction d) auto

lemma move_to_end_keys:
  "map_of d k = Some v \<Longrightarrow> map fst (move_to_end k d) = filter (\<lambda>x. x \<noteq> k) (map fst d) @ [k]"
  by (simp add: move_to_end_def delete_keys)

lemma distinct_move_to_end: "distinct (map fst d) \<Longrightarrow> distinct (map fst (move_to_end k d))"
  by (cases "map_of d k") (simp_all add: move_to_end_def delete_keys)

lemma set_move_to_end: "fst ` set (move_to_end k d) = fst ` set d"
  by (metis dom_map_of_conv_image_fst map_of_move_to_end)

lemma length_move_to_end:
  assumes "distinct (map fst d)"
  shows "length (move_to_end k d) = length d"
proof -
  have "length (move_to_end k d) = card (fst ` set (move_to_end k d))"
    using distinct_card [OF distinct_move_to_end [OF assms, of k]] by simp
  also have "\<dots> = length d" unfolding set_move_to_end using distinct_card [OF assms] by simp
  finally show ?thesis .
qed

lemma evict_facts:
  "length (evict n d) \<le> nat n" "set (evict n d) \<subseteq> set d"
  "distinct (map fst d) \<Longrightarrow> distinct (map fst (evict n d))"
  "length d \<le> nat n \<Longrightarrow> evict n d = d"
proof -
  show "set (evict n d) \<subseteq> set d" unfolding evict_def by (rule set_drop_subset)
qed (simp_all add: evict_def flip: drop_map)

lemma list_all_update: "list_all P d \<Longrightarrow> P (k, v) \<Longrightarrow> list_all P (AList.update k v d)"
  by (induction d) auto

lemma keys_update: "fst ` set (AList.update k v d) = insert k (fst ` set d)"
  by (induction d) auto

definition throttle_inv :: "throttle \<Rightarrow> bool" where
  "throttle_inv th = (1 \<le> th_limit th \<and> 1 \<le> th_window_seconds th \<and> 1 \<le> th_max_entries th
     \<and> distinct (map fst (th_entries th)) \<and> int (length (th_entries th)) \<le> th_max_entries th
     \<and> list_all (\<lambda>(d, cnt, started). 1 \<le> cnt) (th_entries th))"

lemma throttle_inv_init: "throttle_inv (throttle_init l w m)"
  by (simp add: throttle_inv_def throttle_init_def)

lemma entries_delete_subset: "set (AList.delete k d) \<subseteq> set d"
  by (induction d) auto

lemma set_move_to_end_subset: "set (move_to_end k d) \<subseteq> set d"
  using entries_delete_subset [of k d] by (auto simp: move_to_end_def dest: map_of_SomeD split: option.splits)

lemma throttle_inv_shrink:
  assumes "throttle_inv th" and "distinct (map fst d)" and "length d \<le> length (th_entries th)"
    and "set d \<subseteq> set (th_entries th)"
  shows "throttle_inv (th\<lparr>th_entries := d\<rparr>)"
  using assms by (auto simp: throttle_inv_def list_all_iff)

lemma throttle_inv_delete: "throttle_inv th \<Longrightarrow> throttle_inv (th\<lparr>th_entries := AList.delete k (th_entries th)\<rparr>)"
  by (rule throttle_inv_shrink)
    (auto simp: throttle_inv_def delete_keys length_delete_le dest: subsetD [OF entries_delete_subset])

lemma throttle_inv_retry: "throttle_inv th \<Longrightarrow> throttle_inv (snd (retry_after digest now key th))"
proof -
  assume inv: "throttle_inv th"
  have "throttle_inv (th\<lparr>th_entries := move_to_end (digest key) (th_entries th)\<rparr>)"
    by (rule throttle_inv_shrink [OF inv _ _ set_move_to_end_subset])
      (use inv in \<open>simp_all add: throttle_inv_def distinct_move_to_end length_move_to_end\<close>)
  with inv throttle_inv_delete [OF inv] show ?thesis
    by (auto simp: retry_after_def Let_def split: option.split)
qed

lemma throttle_inv_fail:
  assumes inv: "throttle_inv th"
  shows "throttle_inv (throttle_fail digest now key th)"
proof -
  let ?d = "digest key" and ?es = "th_entries th"
  define entry where "entry = (case map_of ?es ?d of None \<Rightarrow> (1, now)
       | Some (cnt, started) \<Rightarrow>
           if of_int (th_window_seconds th) \<le> now - started then (1, now) else (cnt + 1, started))"
  define es where "es = move_to_end ?d (AList.update ?d entry ?es)"
  have ok: "list_all (\<lambda>(d, cnt, started). 1 \<le> cnt) ?es" using inv by (simp add: throttle_inv_def)
  have "1 \<le> fst entry"
  proof (cases "map_of ?es ?d")
    case (Some e)
    then have "(?d, e) \<in> set ?es" by (rule map_of_SomeD)
    with ok have "1 \<le> fst e" by (auto simp: list_all_iff)
    with Some show ?thesis by (simp add: entry_def case_prod_beta)
  qed (simp add: entry_def)
  then have "list_all (\<lambda>(d, cnt, started). 1 \<le> cnt) (AList.update ?d entry ?es)"
    using ok by (intro list_all_update) (simp_all add: case_prod_beta)
  then have "list_all (\<lambda>(d, cnt, started). 1 \<le> cnt) (evict (th_max_entries th) es)"
    unfolding es_def list_all_iff
    by (meson evict_facts(2) set_move_to_end_subset subsetD)
  moreover have "distinct (map fst (evict (th_max_entries th) es))"
    unfolding es_def using inv by (simp add: throttle_inv_def distinct_update distinct_move_to_end evict_facts(3))
  moreover have "int (length (evict (th_max_entries th) es)) \<le> th_max_entries th"
  proof -
    have "1 \<le> th_max_entries th" using inv by (simp add: throttle_inv_def)
    with evict_facts(1) [of "th_max_entries th" es] show ?thesis by linarith
  qed
  moreover have "throttle_fail digest now key th = th\<lparr>th_entries := evict (th_max_entries th) es\<rparr>"
    by (simp add: throttle_fail_def Let_def es_def entry_def)
  ultimately show ?thesis using inv by (simp add: throttle_inv_def)
qed

lemma throttle_inv_step: "throttle_inv th \<Longrightarrow> throttle_inv (throttle_step digest op th)"
  by (cases op) (simp_all add: throttle_inv_retry throttle_inv_fail throttle_reset_def throttle_inv_delete)

lemma throttle_inv_run: "throttle_inv th \<Longrightarrow> throttle_inv (fold (throttle_step digest) ops th)"
  by (induction ops arbitrary: th) (simp_all add: throttle_inv_step)

text \<open>
  However many clients fail, the throttle never holds more than \<open>max_entries\<close>
  entries (at least one), one per digest, each with a positive count, for any configuration
  values and any sequence of operations.
\<close>

theorem throttle_bounded:
  "throttle_inv (fold (throttle_step digest) ops (throttle_init limit window_seconds max_entries))
   \<and> int (length (th_entries (fold (throttle_step digest) ops (throttle_init limit window_seconds max_entries))))
       \<le> max max_entries 1"
proof -
  have "th_max_entries (throttle_step digest op th) = th_max_entries th" for op th
    by (cases op) (simp_all add: retry_after_def throttle_fail_def throttle_reset_def Let_def split: option.split)
  then have "th_max_entries (fold (throttle_step digest) ops th) = th_max_entries th" for th
    by (induction ops arbitrary: th) simp_all
  then have "th_max_entries (fold (throttle_step digest) ops (throttle_init limit window_seconds max_entries))
      = max max_entries 1"
    by (simp add: throttle_init_def)
  moreover have inv: "throttle_inv (fold (throttle_step digest) ops (throttle_init limit window_seconds max_entries))"
    by (rule throttle_inv_run [OF throttle_inv_init])
  ultimately show ?thesis by (simp add: throttle_inv_def)
qed

section \<open>Refinement: one failure window per client\<close>

text \<open>What the throttle promises one client: a window that a failure opens or extends and that a
  check after its end, or a reset, closes.\<close>

type_synonym window = "(int \<times> rat) option"

fun spec_step :: "int \<Rightarrow> string \<Rightarrow> throttle_op \<Rightarrow> window \<Rightarrow> window" where
  "spec_step w key (Retry now k) e = (if k \<noteq> key then e else case e of
       None \<Rightarrow> None | Some (c, started) \<Rightarrow> if started + of_int w \<le> now then None else e)"
| "spec_step w key (Fail now k) e = (if k \<noteq> key then e else case e of
       None \<Rightarrow> Some (1, now)
     | Some (c, started) \<Rightarrow> if started + of_int w \<le> now then Some (1, now) else Some (c + 1, started))"
| "spec_step w key (Reset k) e = (if k \<noteq> key then e else None)"

definition window_of :: "(string \<Rightarrow> string) \<Rightarrow> string \<Rightarrow> throttle \<Rightarrow> window" where
  "window_of digest key th = map_of (th_entries th) (digest key)"

fun op_key :: "throttle_op \<Rightarrow> string" where
  "op_key (Retry now k) = k"
| "op_key (Fail now k) = k"
| "op_key (Reset k) = k"

text \<open>Entries of the given clients only, with room for all of them: nothing is evicted.\<close>

definition roomy :: "(string \<Rightarrow> string) \<Rightarrow> string set \<Rightarrow> throttle \<Rightarrow> bool" where
  "roomy digest ks th = (throttle_inv th \<and> fst ` set (th_entries th) \<subseteq> digest ` ks \<and> finite ks
     \<and> int (card ks) \<le> th_max_entries th)"

lemma roomy_no_eviction:
  assumes "roomy digest ks th" and "key \<in> ks"
  shows "evict (th_max_entries th) (move_to_end (digest key) (AList.update (digest key) e (th_entries th)))
    = move_to_end (digest key) (AList.update (digest key) e (th_entries th))"
proof (rule evict_facts(4))
  let ?d = "AList.update (digest key) e (th_entries th)"
  have dist: "distinct (map fst ?d)" using assms(1) by (simp add: roomy_def throttle_inv_def distinct_update)
  have "fst ` set ?d \<subseteq> digest ` ks"
    using assms by (simp add: roomy_def keys_update)
  then have "card (fst ` set ?d) \<le> card (digest ` ks)"
    using assms(1) by (intro card_mono) (simp_all add: roomy_def)
  also have "\<dots> \<le> card ks" using assms(1) by (simp add: roomy_def card_image_le)
  finally have "length ?d \<le> card ks" using distinct_card [OF dist] by simp
  moreover have "int (card ks) \<le> th_max_entries th" using assms(1) by (simp add: roomy_def)
  ultimately show "length (move_to_end (digest key) ?d) \<le> nat (th_max_entries th)"
    using length_move_to_end [OF dist] by simp
qed

lemma roomy_entries:
  assumes "roomy digest ks th" and "throttle_inv (th\<lparr>th_entries := d\<rparr>)" and "fst ` set d \<subseteq> digest ` ks"
  shows "roomy digest ks (th\<lparr>th_entries := d\<rparr>)"
  using assms by (simp add: roomy_def)

lemma throttle_step_refines:
  assumes r: "roomy digest ks th" and k: "op_key op \<in> ks" and key: "key \<in> ks" and inj: "inj_on digest ks"
  shows "window_of digest key (throttle_step digest op th)
      = spec_step (th_window_seconds th) key op (window_of digest key th)"
    and "roomy digest ks (throttle_step digest op th)"
    and "th_window_seconds (throttle_step digest op th) = th_window_seconds th"
proof -
  have same: "digest key = digest k' \<longleftrightarrow> key = k'" if "k' \<in> ks" for k'
    using inj key that by (auto dest: inj_onD)
  have inv: "throttle_inv (throttle_step digest op th)"
    using r throttle_inv_step by (simp add: roomy_def)
  have del: "fst ` set (AList.delete d (th_entries th)) \<subseteq> digest ` ks" for d
    using r entries_delete_subset [of d "th_entries th"] by (auto simp: roomy_def)
  have upd: "fst ` set (move_to_end (digest k') (AList.update (digest k') e (th_entries th))) \<subseteq> digest ` ks"
    if "k' \<in> ks" for k' e
    unfolding set_move_to_end using r that by (simp add: roomy_def keys_update)
  have keys: "fst ` set (th_entries th) \<subseteq> digest ` ks" using r by (simp add: roomy_def)
  show "window_of digest key (throttle_step digest op th)
      = spec_step (th_window_seconds th) key op (window_of digest key th)"
    using k same roomy_no_eviction [OF r]
    by (cases op) (auto simp: window_of_def retry_after_def throttle_fail_def throttle_reset_def Let_def
        map_of_delete_other update_conv' algebra_simps split: option.split)
  show "roomy digest ks (throttle_step digest op th)"
    using inv r k del keys upd roomy_no_eviction [OF r]
    by (cases op) (auto simp: roomy_def retry_after_def throttle_fail_def throttle_reset_def Let_def
        set_move_to_end split: option.splits)
  show "th_window_seconds (throttle_step digest op th) = th_window_seconds th"
    by (cases op) (simp_all add: retry_after_def throttle_fail_def throttle_reset_def Let_def split: option.split)
qed

lemma throttle_run_refines:
  assumes "roomy digest ks th" and "op_key ` set ops \<subseteq> ks" and "key \<in> ks" and "inj_on digest ks"
  shows "window_of digest key (fold (throttle_step digest) ops th)
    = fold (spec_step (th_window_seconds th) key) ops (window_of digest key th)"
  using assms
proof (induction ops arbitrary: th)
  case (Cons op ops)
  then have k: "op_key op \<in> ks" "op_key ` set ops \<subseteq> ks" by simp_all
  note st = throttle_step_refines [OF Cons.prems(1) k(1) Cons.prems(3,4)]
  from Cons.IH [OF st(2) k(2) Cons.prems(3,4)] st show ?case by simp
qed simp

lemma spec_own_ops:
  "fold (spec_step n key) os e = fold (spec_step n key) (filter (\<lambda>op. op_key op = key) os) e"
proof (induction os arbitrary: e)
  case (Cons op os)
  have "spec_step n key op e = e" if "op_key op \<noteq> key" using that by (cases op) simp_all
  with Cons show ?case by simp
qed simp

text \<open>
  C16 (refinement). While the clients that ever appear fit in the table, the shared bounded table
  gives each of them a failure window of its own: after any interleaving of checks, failures and
  resets of all clients, the entry of a client is what its own operations alone produce.
\<close>

theorem throttle_refines_windows:
  assumes "inj_on digest ks" and "finite ks" and "int (card ks) \<le> max max_entries 1"
    and "op_key ` set ops \<subseteq> ks" and "key \<in> ks"
  shows "window_of digest key (fold (throttle_step digest) ops (throttle_init limit w max_entries))
    = fold (spec_step (max w 1) key) (filter (\<lambda>op. op_key op = key) ops) None"
proof -
  have r: "roomy digest ks (throttle_init limit w max_entries)"
    using assms(2,3) throttle_inv_init by (simp add: roomy_def throttle_init_def)
  show ?thesis
    using throttle_run_refines [OF r assms(4,5,1)] spec_own_ops
    by (simp add: throttle_init_def window_of_def)
qed

theorem throttle_refines_windows_witness:
  "window_of id ''a'' (fold (throttle_step id) [Fail 0 ''a'', Fail 1 ''b'', Fail 2 ''a''] (throttle_init 2 300 2))
   = fold (spec_step (max 300 1) ''a'')
       (filter (\<lambda>op. op_key op = ''a'') [Fail 0 ''a'', Fail 1 ''b'', Fail 2 ''a'']) None"
  by (rule throttle_refines_windows [where ks = "{''a'', ''b''}"]) simp_all

section \<open>Locking out\<close>

definition locked :: "(string \<Rightarrow> string) \<Rightarrow> throttle \<Rightarrow> rat \<Rightarrow> string \<Rightarrow> bool" where
  "locked digest th now key = (case window_of digest key th of
       None \<Rightarrow> False
     | Some (c, started) \<Rightarrow> th_limit th \<le> c \<and> now < started + of_int (th_window_seconds th))"

text \<open>
  What a client of the throttle relies on: a check answers with a positive delay exactly for a
  locked key, and checks never change who is locked from then on.
\<close>

locale lockout =
  fixes check :: "'t::linorder \<Rightarrow> 'k \<Rightarrow> 'st \<Rightarrow> int \<times> 'st"
    and lock :: "'st \<Rightarrow> 't \<Rightarrow> 'k \<Rightarrow> bool"
  assumes check_lock: "0 < fst (check now k st) \<longleftrightarrow> lock st now k"
    and check_nonneg: "0 \<le> fst (check now k st)"
    and check_keeps: "now \<le> now' \<Longrightarrow> lock (snd (check now k st)) now' k' \<longleftrightarrow> lock st now' k'"
begin

lemma refused_iff: "fst (check now k st) \<noteq> 0 \<longleftrightarrow> lock st now k"
  using check_lock [of now k st] check_nonneg [of now k st] by linarith

text \<open>Repeated checks, the latest at \<open>now'\<close>, leave the lock of every key as it was.\<close>

lemma checks_keep_lock:
  "list_all (\<lambda>(t, k). t \<le> now') cs \<Longrightarrow>
   lock (fold (\<lambda>(t, k) st. snd (check t k st)) cs st) now' k' \<longleftrightarrow> lock st now' k'"
proof (induction cs arbitrary: st)
  case (Cons c cs)
  obtain t k where c: "c = (t, k)" by (cases c)
  with Cons.prems have "t \<le> now'" by simp
  from check_keeps [OF this, of k st k'] Cons c show ?case by simp
qed simp

lemma locked_checks_refused:
  assumes "lock st now k" and "list_all (\<lambda>(t, k). t \<le> now) cs"
  shows "fst (check now k (fold (\<lambda>(t, k) st. snd (check t k st)) cs st)) \<noteq> 0"
  unfolding refused_iff checks_keep_lock [OF assms(2)] by (rule assms(1))

end

lemma retry_after_fst:
  "fst (retry_after digest now key th) = (case window_of digest key th of
       None \<Rightarrow> 0
     | Some (c, started) \<Rightarrow>
         if started + of_int (th_window_seconds th) \<le> now \<or> c < th_limit th then 0
         else max 1 (rat_trunc (started + of_int (th_window_seconds th) - now + 999 / 1000)))"
  by (auto simp: retry_after_def window_of_def Let_def split: option.split)

lemma retry_after_locked:
  assumes "now \<le> now'"
  shows "locked digest (snd (retry_after digest now key th)) now' k' = locked digest th now' k'"
proof -
  have lim: "th_limit (snd (retry_after digest now key th)) = th_limit th"
    "th_window_seconds (snd (retry_after digest now key th)) = th_window_seconds th"
    by (simp_all add: retry_after_def Let_def split: option.split)
  show ?thesis
  proof (cases "map_of (th_entries th) (digest key)")
    case None
    then show ?thesis by (simp add: retry_after_def)
  next
    case (Some e)
    obtain c started where e: "e = (c, started)" by (cases e)
    show ?thesis
    proof (cases "started + of_int (th_window_seconds th) - now \<le> 0")
      case True
      with Some e assms show ?thesis
        by (cases "digest k' = digest key")
          (auto simp: locked_def window_of_def retry_after_def Let_def map_of_delete_other split: option.splits)
    next
      case False
      with Some e show ?thesis
        by (simp add: locked_def window_of_def retry_after_def Let_def split: option.split)
    qed
  qed
qed

interpretation failure_throttle: lockout "retry_after digest" "locked digest"
proof
  fix now key th
  show "0 < fst (retry_after digest now key th) \<longleftrightarrow> locked digest th now key"
    by (auto simp: retry_after_fst locked_def split: option.split)
  show "0 \<le> fst (retry_after digest now key th)"
    by (auto simp: retry_after_fst split: option.split)
  show "locked digest (snd (retry_after digest now key th)) now' k' = locked digest th now' k'"
    if "now \<le> now'" for now' k'
    using that by (rule retry_after_locked)
qed

lemma spec_fails:
  assumes "\<forall>t \<in> set ts. t < t0 + of_int w"
  shows "fold (spec_step w key) (map (\<lambda>t. Fail t key) ts) (Some (c, t0)) = Some (c + int (length ts), t0)"
  using assms by (induction ts arbitrary: c) auto

text \<open>
  A client whose only operations so far are \<open>n\<close> failures, all within the window
  opened by the first, is told to wait exactly when \<open>n\<close> has reached the limit and the window is
  still open, whatever the other clients did meanwhile (as long as all fit in the table).
\<close>

theorem lockout_after_limit:
  assumes "inj_on digest ks" and "finite ks" and "int (card ks) \<le> max max_entries 1"
    and "op_key ` set ops \<subseteq> ks" and "key \<in> ks"
    and "filter (\<lambda>op. op_key op = key) ops = map (\<lambda>t. Fail t key) (t0 # ts)"
    and "\<forall>t \<in> set ts. t < t0 + of_int (max w 1)"
  shows "0 < fst (retry_after digest now key (fold (throttle_step digest) ops (throttle_init limit w max_entries)))
    \<longleftrightarrow> max limit 1 \<le> int (length ts) + 1 \<and> now < t0 + of_int (max w 1)"
proof -
  let ?init = "throttle_init limit w max_entries"
  let ?th = "fold (throttle_step digest) ops ?init"
  have r: "roomy digest ks ?init"
    using assms(2,3) throttle_inv_init by (simp add: roomy_def throttle_init_def)
  have "window_of digest key ?th = Some (1 + int (length ts), t0)"
    using throttle_run_refines [OF r assms(4,5,1)] spec_own_ops [where n = "max w 1" and os = ops and e = None] assms(6)
      spec_fails [OF assms(7), of key 1]
    by (simp add: throttle_init_def window_of_def)
  moreover have "th_limit (throttle_step digest op th) = th_limit th"
      "th_window_seconds (throttle_step digest op th) = th_window_seconds th" for op th
    by (cases op; simp add: retry_after_def throttle_fail_def throttle_reset_def Let_def split: option.split)+
  then have "th_limit (fold (throttle_step digest) ops th) = th_limit th"
      "th_window_seconds (fold (throttle_step digest) ops th) = th_window_seconds th" for th
    by (induction ops arbitrary: th) simp_all
  ultimately show ?thesis
    unfolding failure_throttle.check_lock by (auto simp: locked_def throttle_init_def)
qed

theorem lockout_after_limit_witness:
  "0 < fst (retry_after id 100 ''a''
     (fold (throttle_step id) [Fail 0 ''a'', Fail 1 ''b'', Fail 2 ''a''] (throttle_init 2 300 2)))"
  using lockout_after_limit [of id "{''a'', ''b''}" 2 "[Fail 0 ''a'', Fail 1 ''b'', Fail 2 ''a'']" "''a''" 0 "[2]" 300
      100 2]
  by simp

end
