(* ===== verification/FL_Secrets.thy ===== *)
theory FL_Secrets
  imports FL_Providers
begin

text \<open>
  The secret store (\<open>src/secret_store.py\<close>): the vault configuration and its password check,
  the gateway token check, and the decryption of the managed secrets.

  The key derivation function and the authenticated cipher are parameters (\<open>crypto\<close>);
  what the code relies on is stated where it is used: decrypting what was encrypted under the
  same key gives the plaintext back. URL-safe base 64 is modelled as the standard library
  implements it, its decoder with the leniency of \<open>binascii.a2b_base64\<close>.
\<close>

record crypto =
  cr_pbkdf2 :: "bytes \<Rightarrow> bytes \<Rightarrow> bytes"
  cr_fernet_encrypt :: "string \<Rightarrow> bytes \<Rightarrow> bytes \<Rightarrow> string"
  cr_fernet_decrypt :: "string \<Rightarrow> string \<Rightarrow> bytes option"

section \<open>UTF-8 and base 64\<close>

definition utf8_char :: "char \<Rightarrow> bytes" where
  "utf8_char c = (let n = code c in
     if n < 128 then [c] else [char_of (192 + n div 64), char_of (128 + n mod 64)])"

definition utf8_encode :: "string \<Rightarrow> bytes" where
  "utf8_encode s = concat (map utf8_char s)"

definition b64_char :: "nat \<Rightarrow> char" where
  "b64_char n = (if n < 26 then char_of (65 + n) else if n < 52 then char_of (71 + n)
     else if n < 62 then char_of (n - 4) else if n = 62 then CHR ''-'' else CHR ''_'')"

definition b64_value :: "char \<Rightarrow> nat option" where
  "b64_value c = (let n = code c in
     if 65 \<le> n \<and> n \<le> 90 then Some (n - 65)
     else if 97 \<le> n \<and> n \<le> 122 then Some (n - 71)
     else if 48 \<le> n \<and> n \<le> 57 then Some (n + 4)
     else if c = CHR ''-'' \<or> c = CHR ''+'' then Some 62
     else if c = CHR ''_'' \<or> c = CHR ''/'' then Some 63
     else None)"

fun urlsafe_b64encode :: "bytes \<Rightarrow> string" where
  "urlsafe_b64encode [] = []"
| "urlsafe_b64encode [a] = [b64_char (code a div 4), b64_char (code a mod 4 * 16), CHR ''='', CHR ''='']"
| "urlsafe_b64encode [a, b] =
     [b64_char (code a div 4), b64_char (code a mod 4 * 16 + code b div 16),
      b64_char (code b mod 16 * 4), CHR ''='']"
| "urlsafe_b64encode (a # b # c # rest) =
     b64_char (code a div 4) # b64_char (code a mod 4 * 16 + code b div 16)
     # b64_char (code b mod 16 * 4 + code c div 64) # b64_char (code c mod 64) # urlsafe_b64encode rest"

text \<open>The decoder's state: the position in the group of four, the bits left over, the padding seen.\<close>

fun a2b_base64 :: "nat \<Rightarrow> nat \<Rightarrow> nat \<Rightarrow> string \<Rightarrow> bytes option" where
  "a2b_base64 quad_pos leftchar pads [] = (if quad_pos = 0 then Some [] else None)"
| "a2b_base64 quad_pos leftchar pads (ch # chs) =
     (if ch = CHR ''='' then
        (if 2 \<le> quad_pos
         then if 4 \<le> quad_pos + (pads + 1) then Some [] else a2b_base64 quad_pos leftchar (pads + 1) chs
         else a2b_base64 quad_pos leftchar pads chs)
      else case b64_value ch of
        None \<Rightarrow> a2b_base64 quad_pos leftchar pads chs
      | Some v \<Rightarrow>
          if quad_pos = 0 then a2b_base64 1 v 0 chs
          else if quad_pos = 1 then
            map_option (Cons (char_of (leftchar * 4 + v div 16))) (a2b_base64 2 (v mod 16) 0 chs)
          else if quad_pos = 2 then
            map_option (Cons (char_of (leftchar * 16 + v div 4))) (a2b_base64 3 (v mod 4) 0 chs)
          else map_option (Cons (char_of (leftchar * 64 + v))) (a2b_base64 0 0 0 chs))"

definition urlsafe_b64decode :: "string \<Rightarrow> bytes option" where
  "urlsafe_b64decode s = a2b_base64 0 0 0 s"

lemma code_less [simp]: "code c < 256"
  unfolding code_def by (cases c) simp

lemma char_of_code [simp]: "char_of (code c) = c"
  by (simp add: code_def)

lemma code_char_of: "n < 256 \<Longrightarrow> code (char_of n) = n"
  by (simp add: code_def)

lemma b64_value_char: "n < 64 \<Longrightarrow> b64_value (b64_char n) = Some n"
proof -
  assume n: "n < 64"
  consider "n < 26" | "26 \<le> n" "n < 52" | "52 \<le> n" "n < 62" | "n = 62" | "n = 63" using n by linarith
  then show ?thesis
    by cases (auto simp: b64_value_def b64_char_def Let_def code_char_of code_def)
qed

lemma b64_char_not_pad: "n < 64 \<Longrightarrow> b64_char n \<noteq> CHR ''=''"
  using b64_value_char [of n] by (auto simp: b64_value_def Let_def code_def)

lemma shift_div: "r < k \<Longrightarrow> (q * k + r) div k = q" and shift_mod: "r < k \<Longrightarrow> (q * k + r) mod k = r"
  for q r k :: nat
  by simp_all

lemma code_parts: "code a div 4 < 64" "code a div 16 < 16" "code a div 64 < 4"
  using code_less [of a] by (simp_all add: less_mult_imp_div_less)

lemma b64_first: "(code a div 4) * 4 + (code a mod 4 * 16 + code b div 16) div 16 = code a"
  by (simp only: shift_div code_parts div_mult_mod_eq)

lemma b64_second:
  "((code a mod 4 * 16 + code b div 16) mod 16) * 16 + (code b mod 16 * 4 + code c div 64) div 4 = code b"
  by (simp only: shift_div shift_mod code_parts div_mult_mod_eq)

lemma b64_third: "((code b mod 16 * 4 + code c div 64) mod 4) * 64 + code c mod 64 = code c"
  by (simp only: shift_mod code_parts div_mult_mod_eq)

lemma mix_less: "x < a \<Longrightarrow> y < k \<Longrightarrow> x * k + y < a * k" for x y a k :: nat
proof -
  assume "x < a" "y < k"
  then have "x * k + y < Suc x * k" by simp
  also have "\<dots> \<le> a * k" using \<open>x < a\<close> by (intro mult_right_mono) simp_all
  finally show ?thesis .
qed

lemma b64_small: "code a div 4 < 64" "code a mod 4 * 16 + code b div 16 < 64"
  "code b mod 16 * 4 + code c div 64 < 64" "code c mod 64 < 64" "code a mod 4 * 16 < 64" "code b mod 16 * 4 < 64"
  using mix_less [of "code a mod 4" 4 "code b div 16" 16] mix_less [of "code b mod 16" 16 "code c div 64" 4]
    mix_less [of "code a mod 4" 4 0 16] mix_less [of "code b mod 16" 16 0 4]
  by (simp_all add: code_parts)

lemma b64_step:
  assumes "v < 64"
  shows "a2b_base64 0 l p (b64_char v # s) = a2b_base64 1 v 0 s"
    "a2b_base64 1 l p (b64_char v # s) = map_option (Cons (char_of (l * 4 + v div 16))) (a2b_base64 2 (v mod 16) 0 s)"
    "a2b_base64 2 l p (b64_char v # s) = map_option (Cons (char_of (l * 16 + v div 4))) (a2b_base64 3 (v mod 4) 0 s)"
    "a2b_base64 3 l p (b64_char v # s) = map_option (Cons (char_of (l * 64 + v))) (a2b_base64 0 0 0 s)"
  using assms by (simp_all add: b64_value_char b64_char_not_pad)

lemma b64_pad:
  "a2b_base64 2 l 0 [CHR ''='', CHR ''=''] = Some []" "a2b_base64 3 l 0 [CHR ''=''] = Some []"
  by simp_all

lemma b64_roundtrip: "a2b_base64 0 0 0 (urlsafe_b64encode bs) = Some bs"
proof (induction bs rule: urlsafe_b64encode.induct)
  case (2 a)
  have "code a div 4 * 4 + code a mod 4 * 16 div 16 = code a" by simp
  then show ?case by (simp add: b64_step [unfolded One_nat_def] b64_small b64_pad del: a2b_base64.simps)
next
  case (3 a b)
  have "(code a mod 4 * 16 + code b div 16) mod 16 * 16 + code b mod 16 * 4 div 4 = code b"
    by (simp only: shift_mod code_parts nonzero_mult_div_cancel_right div_mult_mod_eq)
  then show ?case by (simp add: b64_step [unfolded One_nat_def] b64_small b64_pad b64_first del: a2b_base64.simps)
next
  case (4 a b c rest)
  then show ?case
    by (simp add: b64_step [unfolded One_nat_def] b64_small b64_first b64_second b64_third code_parts del: a2b_base64.simps)
qed simp

text \<open>
  Decoding URL-safe base 64 gives back every byte string that was encoded, so
  salts, hashes and verifiers survive their storage as text.
\<close>

theorem urlsafe_b64_roundtrip: "urlsafe_b64decode (urlsafe_b64encode bs) = Some bs"
  unfolding urlsafe_b64decode_def by (rule b64_roundtrip)

section \<open>The vault\<close>

datatype secret_error = SecretStoreDecryptError string | SecretStorePasswordError string | PyRaise py_error

definition VERIFIER_PLAINTEXT :: string where
  "VERIFIER_PLAINTEXT = ''freelunch-vault-verifier''"

record secret_vault_config =
  vc_salt_b64 :: string
  vc_verifier_encrypted :: string

record gateway_auth_config =
  ga_token_salt_b64 :: string
  ga_token_hash_b64 :: string

text \<open>A store is the key of its cipher.\<close>

type_synonym secret_store = string

text \<open>\<open>_derive_fernet\<close>; a salt that does not decode raises \<open>binascii.Error\<close>, a \<open>ValueError\<close>.\<close>

definition derive_fernet :: "crypto \<Rightarrow> string \<Rightarrow> string \<Rightarrow> secret_store option" where
  "derive_fernet cr password salt_b64 =
     map_option (\<lambda>salt. urlsafe_b64encode (cr_pbkdf2 cr (utf8_encode password) salt))
       (urlsafe_b64decode salt_b64)"

text \<open>\<open>utf-8\<close> decoding of a decrypted value: the inverse of encoding on the text the model has.\<close>

fun utf8_decode :: "bytes \<Rightarrow> string option" where
  "utf8_decode [] = Some []"
| "utf8_decode (c # cs) =
     (if code c < 128 then map_option (Cons c) (utf8_decode cs)
      else case cs of
        [] \<Rightarrow> None
      | d # ds \<Rightarrow>
          if 194 \<le> code c \<and> code c \<le> 195 \<and> 128 \<le> code d \<and> code d < 192
          then map_option (Cons (char_of ((code c - 192) * 64 + (code d - 128)))) (utf8_decode ds)
          else None)"

definition store_encrypt :: "crypto \<Rightarrow> secret_store \<Rightarrow> bytes \<Rightarrow> string \<Rightarrow> string" where
  "store_encrypt cr store nonce v = cr_fernet_encrypt cr store nonce (utf8_encode v)"

definition decrypt_failed :: "string option \<Rightarrow> secret_error" where
  "decrypt_failed secret_key = SecretStoreDecryptError
     (''unable to decrypt managed secret''
      @ (case secret_key of None \<Rightarrow> [] | Some k \<Rightarrow> if k = [] then [] else '' for '' @ k))"

definition store_decrypt :: "crypto \<Rightarrow> secret_store \<Rightarrow> string option \<Rightarrow> string \<Rightarrow> secret_error + string" where
  "store_decrypt cr store secret_key encrypted_value =
     (case cr_fernet_decrypt cr store encrypted_value of
        None \<Rightarrow> Inl (decrypt_failed secret_key)
      | Some plaintext \<Rightarrow>
          (case utf8_decode plaintext of None \<Rightarrow> Inl (PyRaise ValueError) | Some v \<Rightarrow> Inr v))"

fun decrypt_mapping ::
  "crypto \<Rightarrow> secret_store \<Rightarrow> (string, string) dict \<Rightarrow> secret_error + (string, string) dict \<times> string list" where
  "decrypt_mapping cr store [] = Inr ([], [])"
| "decrypt_mapping cr store ((key, v) # rest) =
     (case store_decrypt cr store (Some key) v of
        Inr plain \<Rightarrow> sbind (decrypt_mapping cr store rest) (\<lambda>(d, fs). Inr ((key, plain) # d, fs))
      | Inl (SecretStoreDecryptError msg) \<Rightarrow>
          sbind (decrypt_mapping cr store rest) (\<lambda>(d, fs). Inr (d, key # fs))
      | Inl e \<Rightarrow> Inl e)"

definition create_vault_config ::
  "crypto \<Rightarrow> bytes \<Rightarrow> bytes \<Rightarrow> string \<Rightarrow> secret_error + secret_vault_config \<times> secret_store" where
  "create_vault_config cr salt nonce password =
    (let cleaned = py_strip password; salt_b64 = urlsafe_b64encode salt in
     if cleaned = [] then Inl (PyRaise ValueError)
     else case derive_fernet cr cleaned salt_b64 of
       None \<Rightarrow> Inl (PyRaise ValueError)
     | Some store \<Rightarrow> Inr (\<lparr>vc_salt_b64 = salt_b64,
                           vc_verifier_encrypted = store_encrypt cr store nonce VERIFIER_PLAINTEXT\<rparr>, store))"

definition unlock_vault :: "crypto \<Rightarrow> string \<Rightarrow> secret_vault_config \<Rightarrow> secret_error + secret_store" where
  "unlock_vault cr password config =
    (let cleaned = py_strip password in
     if cleaned = [] then Inl (SecretStorePasswordError ''vault password cannot be empty'')
     else case derive_fernet cr cleaned (vc_salt_b64 config) of
       None \<Rightarrow> Inl (PyRaise ValueError)
     | Some store \<Rightarrow>
         (case store_decrypt cr store None (vc_verifier_encrypted config) of
            Inl (SecretStoreDecryptError msg) \<Rightarrow> Inl (SecretStorePasswordError ''invalid vault password'')
          | Inl e \<Rightarrow> Inl e
          | Inr verifier \<Rightarrow>
              if verifier \<noteq> VERIFIER_PLAINTEXT then Inl (SecretStorePasswordError ''invalid vault password'')
              else Inr store))"

definition create_gateway_auth_config :: "crypto \<Rightarrow> bytes \<Rightarrow> string \<Rightarrow> py_error + gateway_auth_config" where
  "create_gateway_auth_config cr salt token =
    (let cleaned = py_strip token in
     if cleaned = [] then Inl ValueError
     else Inr \<lparr>ga_token_salt_b64 = urlsafe_b64encode salt,
               ga_token_hash_b64 = urlsafe_b64encode (cr_pbkdf2 cr (utf8_encode cleaned) salt)\<rparr>)"

definition verify_gateway_auth_token :: "crypto \<Rightarrow> string \<Rightarrow> gateway_auth_config \<Rightarrow> py_error + bool" where
  "verify_gateway_auth_token cr token config =
    (let cleaned = py_strip token in
     if cleaned = [] then Inr False
     else case urlsafe_b64decode (ga_token_salt_b64 config) of
       None \<Rightarrow> Inl ValueError
     | Some salt \<Rightarrow>
         (case urlsafe_b64decode (ga_token_hash_b64 config) of
            None \<Rightarrow> Inl ValueError
          | Some expected \<Rightarrow> Inr (cr_pbkdf2 cr (utf8_encode cleaned) salt = expected)))"

lemma utf8_roundtrip: "utf8_decode (utf8_encode s) = Some s"
proof (induction s)
  case (Cons c s)
  show ?case
  proof (cases "code c < 128")
    case True
    with Cons show ?thesis by (simp add: utf8_encode_def utf8_char_def)
  next
    case False
    have lt: "code c div 64 < 4" "code c mod 64 < 64" by (simp_all add: code_parts)
    have ge: "2 \<le> code c div 64" using False by (simp add: less_eq_div_iff_mult_less_eq)
    have "code c div 64 * 64 + code c mod 64 = code c" by simp
    then have "char_of (code c div 64 * 64 + code c mod 64) = c" by simp
    with Cons False lt ge show ?thesis
      by (simp add: utf8_encode_def utf8_char_def Let_def code_char_of)
  qed
qed (simp add: utf8_encode_def)

text \<open>
  C39 (roundtrip). A vault opens with the password it was created with, up to surrounding space,
  and the opened store decrypts every secret encrypted by the store that creation returned.
\<close>

theorem vault_roundtrip:
  assumes fernet: "\<And>k n p. cr_fernet_decrypt cr k (cr_fernet_encrypt cr k n p) = Some p"
    and "create_vault_config cr salt nonce password = Inr (config, store)"
    and "py_strip password' = py_strip password"
  shows "unlock_vault cr password' config = Inr store
    \<and> store_decrypt cr store (Some key) (store_encrypt cr store nonce' v) = Inr v"
proof -
  have dec: "store_decrypt cr st k (store_encrypt cr st n x) = Inr x" for st k n x
    by (simp add: store_decrypt_def store_encrypt_def fernet utf8_roundtrip)
  from assms(2,3) show ?thesis
    by (auto simp: create_vault_config_def unlock_vault_def derive_fernet_def urlsafe_b64decode_def
        b64_roundtrip Let_def dec split: if_splits)
qed

definition toy_crypto :: crypto where
  "toy_crypto = \<lparr>cr_pbkdf2 = (\<lambda>p s. p @ s), cr_fernet_encrypt = (\<lambda>k n p. k @ ''.'' @ p),
     cr_fernet_decrypt = (\<lambda>k c. if take (length k + 1) c = k @ ''.'' then Some (drop (length k + 1) c) else None)\<rparr>"

theorem vault_roundtrip_witness:
  "\<exists>config store. create_vault_config toy_crypto ''salt'' ''n'' ''pw'' = Inr (config, store)
     \<and> unlock_vault toy_crypto '' pw '' config = Inr store
     \<and> store_decrypt toy_crypto store (Some ''k'') (store_encrypt toy_crypto store ''m'' ''secret'') = Inr ''secret''"
proof -
  have f: "cr_fernet_decrypt toy_crypto k (cr_fernet_encrypt toy_crypto k n p) = Some p" for k n p
    by (simp add: toy_crypto_def)
  have strip: "py_strip ''pw'' = ''pw''" "py_strip '' pw '' = ''pw''"
    by (simp_all add: py_strip_def py_lstrip_def chr_isspace_def code_def)
  obtain config store where c: "create_vault_config toy_crypto ''salt'' ''n'' ''pw'' = Inr (config, store)"
    by (simp add: create_vault_config_def strip derive_fernet_def urlsafe_b64decode_def b64_roundtrip Let_def
        del: urlsafe_b64encode.simps)
  from vault_roundtrip [OF f c, of "'' pw ''" "''k''" "''m''" "''secret''"] c strip show ?thesis by auto
qed

text \<open>
  A token is accepted exactly when, stripped, it is not empty and hashes with the
  stored salt to the stored hash; in particular the token the configuration was created from is
  accepted.
\<close>

theorem gateway_token_accepted_iff:
  assumes "create_gateway_auth_config cr salt token = Inr config"
  shows "verify_gateway_auth_token cr token' config = Inr (py_strip token' \<noteq> []
    \<and> cr_pbkdf2 cr (utf8_encode (py_strip token')) salt = cr_pbkdf2 cr (utf8_encode (py_strip token)) salt)"
  using assms
  by (auto simp: create_gateway_auth_config_def verify_gateway_auth_token_def urlsafe_b64decode_def
      b64_roundtrip Let_def split: if_splits)

theorem gateway_token_accepted_iff_witness:
  "\<exists>config. create_gateway_auth_config toy_crypto ''s'' ''tok'' = Inr config
     \<and> verify_gateway_auth_token toy_crypto ''tok'' config = Inr True
     \<and> verify_gateway_auth_token toy_crypto ''bad'' config = Inr False"
proof -
  have strip: "py_strip ''tok'' = ''tok''" "py_strip ''bad'' = ''bad''"
    by (simp_all add: py_strip_def py_lstrip_def chr_isspace_def code_def)
  obtain config where c: "create_gateway_auth_config toy_crypto ''s'' ''tok'' = Inr config"
    by (simp add: create_gateway_auth_config_def strip Let_def)
  from gateway_token_accepted_iff [OF c, of "''tok''"] gateway_token_accepted_iff [OF c, of "''bad''"] c
  show ?thesis by (simp add: strip toy_crypto_def utf8_encode_def utf8_char_def code_def Let_def)
qed

end
