(* ===== verification/FL_Auth.thy ===== *)
theory FL_Auth
  imports FL_Throttle FL_Secrets FL_Config FL_Tables
begin

text \<open>
  Authentication of gateway requests: how the effective state is resolved from the settings and
  the database (\<open>_get_gateway_auth_config\<close>, \<open>_resolve_gateway_auth_state\<close> of \<open>src/main.py\<close>) and how
  a request is checked under the failure throttle (\<open>_auth_throttle\<close>, \<open>_check_auth_throttle\<close>,
  \<open>_record_auth_failure\<close>, \<open>_check_gateway_auth\<close> of \<open>src/proxy.py\<close>).

  An exception is a value: an HTTP error with its status, detail and \<open>Retry-After\<close>, or another
  Python exception, which the framework answers with status 500. The throttles are created on
  first use, one per category.
\<close>

datatype raised = Http int string "int option" | Unhandled py_error | UnhandledProvider provider_error

section \<open>The effective authentication state\<close>

record auth_state =
  au_mode :: string
  au_enabled :: bool
  au_source :: string
  au_env_configured :: bool
  au_updated_at :: "timestamp option"
  au_config :: "gateway_auth_config option"
  au_env_key :: "string option"

definition get_gateway_auth_config :: "tables \<Rightarrow> auth_state" where
  "get_gateway_auth_config t = (case t_auth t of
       None \<Rightarrow> \<lparr>au_mode = ''inherit'', au_enabled = False, au_source = ''disabled'',
                 au_env_configured = False, au_updated_at = None, au_config = None, au_env_key = None\<rparr>
     | Some row \<Rightarrow>
         let mode = (if a_mode row = [] then ''inherit'' else a_mode row);
             config = (if mode = ''enabled'' then
                 (case (a_token_salt_b64 row, a_token_hash_b64 row) of
                    (Some salt, Some hash) \<Rightarrow>
                      if salt \<noteq> [] \<and> hash \<noteq> []
                      then Some \<lparr>ga_token_salt_b64 = salt, ga_token_hash_b64 = hash\<rparr> else None
                  | _ \<Rightarrow> None) else None);
             enabled = (mode = ''enabled'' \<and> config \<noteq> None)
         in \<lparr>au_mode = mode, au_enabled = enabled,
             au_source = (if enabled then ''managed'' else ''disabled''), au_env_configured = False,
             au_updated_at = Some (a_updated_at row), au_config = config, au_env_key = None\<rparr>)"

definition resolve_gateway_auth_state :: "settings \<Rightarrow> tables \<Rightarrow> auth_state" where
  "resolve_gateway_auth_state s t =
    (let env_key = py_strip (gateway_api_key s);
         managed = get_gateway_auth_config t;
         mode = au_mode managed
     in if mode = ''enabled'' \<and> au_config managed \<noteq> None
        then \<lparr>au_mode = mode, au_enabled = True, au_source = ''managed'', au_env_configured = (env_key \<noteq> []),
              au_updated_at = au_updated_at managed, au_config = au_config managed, au_env_key = None\<rparr>
        else if mode = ''disabled''
        then \<lparr>au_mode = mode, au_enabled = False, au_source = ''disabled'', au_env_configured = (env_key \<noteq> []),
              au_updated_at = au_updated_at managed, au_config = None, au_env_key = None\<rparr>
        else \<lparr>au_mode = ''inherit'', au_enabled = (env_key \<noteq> []),
              au_source = (if env_key \<noteq> [] then ''env'' else ''disabled''), au_env_configured = (env_key \<noteq> []),
              au_updated_at = au_updated_at managed, au_config = None,
              au_env_key = (if env_key = [] then None else Some env_key)\<rparr>)"

section \<open>Checking a request\<close>

type_synonym throttles = "(string, throttle) dict"

text \<open>What a check depends on besides the request: the hash functions, the settings, the state.\<close>

record auth_env =
  ae_crypto :: crypto
  ae_digest :: "string \<Rightarrow> string"
  ae_settings :: settings
  ae_state :: auth_state

definition auth_throttle :: "settings \<Rightarrow> string \<Rightarrow> throttles \<Rightarrow> throttle" where
  "auth_throttle s category ths = (case map_of ths category of
       Some th \<Rightarrow> th
     | None \<Rightarrow> throttle_init (security_auth_failure_limit s) (security_auth_failure_window_seconds s)
                 (security_auth_throttle_max_entries s))"

definition client_key :: "string option \<Rightarrow> string" where
  "client_key host = (case host of None \<Rightarrow> ''unknown'' | Some h \<Rightarrow> h)"

definition too_many :: "int \<Rightarrow> raised" where
  "too_many delay = Http 429 ''too many failed authentication attempts'' (Some delay)"

definition check_auth_throttle :: "auth_env \<Rightarrow> rat \<Rightarrow> string \<Rightarrow> string \<Rightarrow> throttles \<Rightarrow> (raised + unit) \<times> throttles" where
  "check_auth_throttle ae now category key ths =
    (let (delay, th) = retry_after (ae_digest ae) now key (auth_throttle (ae_settings ae) category ths);
         ths' = AList.update category th ths
     in if delay \<noteq> 0 then (Inl (too_many delay), ths') else (Inr (), ths'))"

definition record_auth_failure ::
  "auth_env \<Rightarrow> rat \<Rightarrow> string \<Rightarrow> string \<Rightarrow> raised \<Rightarrow> throttles \<Rightarrow> (raised + unit) \<times> throttles" where
  "record_auth_failure ae now category key otherwise ths =
    (let th = throttle_fail (ae_digest ae) now key (auth_throttle (ae_settings ae) category ths);
         (delay, th') = retry_after (ae_digest ae) now key th;
         ths' = AList.update category th' ths
     in if delay \<noteq> 0 then (Inl (too_many delay), ths') else (Inl otherwise, ths'))"

definition auth_reset :: "auth_env \<Rightarrow> string \<Rightarrow> string \<Rightarrow> throttles \<Rightarrow> throttles" where
  "auth_reset ae category key ths =
     AList.update category (throttle_reset (ae_digest ae) key (auth_throttle (ae_settings ae) category ths)) ths"

text \<open>\<open>hmac.compare_digest\<close> on text: \<open>TypeError\<close> unless both are ASCII.\<close>

definition compare_digest :: "string \<Rightarrow> string \<Rightarrow> py_error + bool" where
  "compare_digest a b = (if list_all (\<lambda>c. code c < 128) (a @ b) then Inr (a = b) else Inl TypeError)"

definition credentials_match :: "auth_env \<Rightarrow> string \<Rightarrow> py_error + bool" where
  "credentials_match ae token =
    (let st = ae_state ae in
     if au_source st = ''env'' then
       (case au_env_key st of None \<Rightarrow> Inr False | Some env_key \<Rightarrow> compare_digest token env_key)
     else if au_source st = ''managed'' then
       (case au_config st of None \<Rightarrow> Inr False
        | Some config \<Rightarrow> verify_gateway_auth_token (ae_crypto ae) token config)
     else Inr False)"

definition check_gateway_auth ::
  "auth_env \<Rightarrow> rat \<Rightarrow> string option \<Rightarrow> string option \<Rightarrow> throttles \<Rightarrow> (raised + unit) \<times> throttles" where
  "check_gateway_auth ae now host authorization ths =
    (if \<not> au_enabled (ae_state ae) then (Inr (), ths)
     else
       let key = client_key host in
       case check_auth_throttle ae now ''gateway'' key ths of
         (Inl e, ths1) \<Rightarrow> (Inl e, ths1)
       | (Inr u, ths1) \<Rightarrow>
           (case authorization of
              None \<Rightarrow> record_auth_failure ae now ''gateway'' key (Http 401 ''missing bearer token'' None) ths1
            | Some a \<Rightarrow>
                if \<not> py_startswith a ''Bearer '' then
                  record_auth_failure ae now ''gateway'' key (Http 401 ''missing bearer token'' None) ths1
                else
                  (case credentials_match ae (drop 7 a) of
                     Inl e \<Rightarrow> (Inl (Unhandled e), ths1)
                   | Inr True \<Rightarrow> (Inr (), auth_reset ae ''gateway'' key ths1)
                   | Inr False \<Rightarrow>
                       record_auth_failure ae now ''gateway'' key (Http 401 ''invalid bearer token'' None) ths1)))"

section \<open>What a check guarantees\<close>

lemma accepted_facts:
  assumes "au_enabled (ae_state ae)"
    and "check_gateway_auth ae now host authorization ths = (Inr (), ths')"
  shows "(\<exists>token. authorization = Some (''Bearer '' @ token) \<and> credentials_match ae token = Inr True)
    \<and> \<not> locked (ae_digest ae) (auth_throttle (ae_settings ae) ''gateway'' ths) now (client_key host)"
proof -
  from assms obtain ths1 a where
    ck: "check_auth_throttle ae now ''gateway'' (client_key host) ths = (Inr (), ths1)"
    and a: "authorization = Some a" "py_startswith a ''Bearer ''" "credentials_match ae (drop 7 a) = Inr True"
    by (auto simp: check_gateway_auth_def Let_def record_auth_failure_def
        split: prod.splits sum.splits option.splits if_splits bool.splits)
  have "take 7 a = ''Bearer ''" using a(2) by (simp add: py_startswith_def eval_nat_numeral)
  then have "a = ''Bearer '' @ drop 7 a" by (metis append_take_drop_id)
  moreover have "fst (retry_after (ae_digest ae) now (client_key host)
      (auth_throttle (ae_settings ae) ''gateway'' ths)) = 0"
    using ck by (auto simp: check_auth_throttle_def Let_def split: prod.splits if_splits)
  then have "\<not> locked (ae_digest ae) (auth_throttle (ae_settings ae) ''gateway'' ths) now (client_key host)"
    using failure_throttle.refused_iff by blast
  ultimately show ?thesis using a by metis
qed

text \<open>
  C12 (safety). No request gets past an enabled check without the credential: acceptance means a
  bearer token equal to the configured environment key, or one that hashes to the stored hash,
  according to the source in force; and the client was not locked out.
\<close>

theorem accepted_means_authenticated:
  assumes "au_enabled (ae_state ae)"
    and "check_gateway_auth ae now host authorization ths = (Inr (), ths')"
  shows "(\<exists>token. authorization = Some (''Bearer '' @ token) \<and> credentials_match ae token = Inr True)
    \<and> \<not> locked (ae_digest ae) (auth_throttle (ae_settings ae) ''gateway'' ths) now (client_key host)"
  using assms by (rule accepted_facts)

definition example_auth_env :: auth_env where
  "example_auth_env = \<lparr>ae_crypto = toy_crypto, ae_digest = id, ae_settings = default_settings,
     ae_state = resolve_gateway_auth_state (default_settings\<lparr>gateway_api_key := ''k3y''\<rparr>) empty_tables\<rparr>"

lemma example_auth_state:
  "ae_state example_auth_env = \<lparr>au_mode = ''inherit'', au_enabled = True, au_source = ''env'',
     au_env_configured = True, au_updated_at = None, au_config = None, au_env_key = Some ''k3y''\<rparr>"
  by (simp add: example_auth_env_def resolve_gateway_auth_state_def get_gateway_auth_config_def
      empty_tables_def Let_def py_strip_def py_lstrip_def chr_isspace_def code_def)

theorem accepted_means_authenticated_witness:
  "\<exists>ths'. check_gateway_auth example_auth_env 5 None (Some ''Bearer k3y'') [] = (Inr (), ths')
     \<and> credentials_match example_auth_env ''k3y'' = Inr True"
proof -
  have c: "credentials_match example_auth_env ''k3y'' = Inr True"
    by (simp add: credentials_match_def example_auth_state compare_digest_def code_def Let_def)
  have "check_auth_throttle example_auth_env 5 ''gateway'' (client_key None) [] =
      (Inr (), [(''gateway'', auth_throttle default_settings ''gateway'' [])])"
    by (simp add: check_auth_throttle_def auth_throttle_def retry_after_def throttle_init_def Let_def
        example_auth_env_def)
  then have run: "\<exists>ths'. check_gateway_auth example_auth_env 5 None (Some ''Bearer k3y'') [] = (Inr (), ths')"
    using c by (simp add: check_gateway_auth_def example_auth_state py_startswith_def Let_def)
  then obtain ths' where r: "check_gateway_auth example_auth_env 5 None (Some ''Bearer k3y'') [] = (Inr (), ths')" ..
  have "au_enabled (ae_state example_auth_env)" by (simp add: example_auth_state)
  from accepted_means_authenticated [OF this r] r show ?thesis by auto
qed

lemma locked_earlier: "locked digest th now key \<Longrightarrow> t \<le> now \<Longrightarrow> locked digest th t key"
  by (auto simp: locked_def split: option.splits)

lemma auth_throttle_update [simp]: "auth_throttle s cat (AList.update cat th ths) = th"
  by (simp add: auth_throttle_def update_conv')

lemma locked_check_refuses:
  assumes "au_enabled (ae_state ae)" and "t \<le> now"
    and "locked (ae_digest ae) (auth_throttle (ae_settings ae) ''gateway'' ths) now (client_key host)"
  shows "\<exists>delay ths'. check_gateway_auth ae t host authorization ths = (Inl (too_many delay), ths') \<and> 0 < delay
    \<and> locked (ae_digest ae) (auth_throttle (ae_settings ae) ''gateway'' ths') now (client_key host)"
proof -
  let ?th = "auth_throttle (ae_settings ae) ''gateway'' ths" and ?key = "client_key host"
  obtain delay th where r: "retry_after (ae_digest ae) t ?key ?th = (delay, th)" by fastforce
  have "locked (ae_digest ae) ?th t ?key" using assms(2,3) by (blast intro: locked_earlier)
  then have "0 < delay" using failure_throttle.check_lock [of "ae_digest ae" t ?key ?th] r by simp
  moreover have "locked (ae_digest ae) th now ?key"
    using failure_throttle.check_keeps [OF assms(2), of "ae_digest ae" ?key ?th ?key] r assms(3) by simp
  ultimately show ?thesis using assms(1) r
    by (auto simp: check_gateway_auth_def check_auth_throttle_def Let_def)
qed

text \<open>A client trying credentials one after the other.\<close>

fun auth_attempts ::
  "auth_env \<Rightarrow> string option \<Rightarrow> (rat \<times> string option) list \<Rightarrow> throttles \<Rightarrow> (raised + unit) list \<times> throttles" where
  "auth_attempts ae host [] ths = ([], ths)"
| "auth_attempts ae host ((now, authorization) # as) ths =
    (let (r, ths1) = check_gateway_auth ae now host authorization ths;
         (rs, ths2) = auth_attempts ae host as ths1 in (r # rs, ths2))"

text \<open>
  C13 (safety). A locked-out client stays out until its window ends: every attempt up to that
  time is refused with status 429 and a positive \<open>Retry-After\<close>, with or without the right
  credential, and guessing during the lock does not lift it.
\<close>

theorem locked_client_is_refused:
  assumes "au_enabled (ae_state ae)"
    and "locked (ae_digest ae) (auth_throttle (ae_settings ae) ''gateway'' ths) now (client_key host)"
    and "list_all (\<lambda>(t, a). t \<le> now) attempts"
  shows "list_all (\<lambda>r. \<exists>delay > 0. r = Inl (too_many delay)) (fst (auth_attempts ae host attempts ths))
    \<and> locked (ae_digest ae) (auth_throttle (ae_settings ae) ''gateway'' (snd (auth_attempts ae host attempts ths)))
        now (client_key host)"
  using assms
proof (induction attempts arbitrary: ths)
  case (Cons a as)
  obtain t c where a: "a = (t, c)" by (cases a)
  from Cons.prems(3) a have t: "t \<le> now" and rest: "list_all (\<lambda>(t, a). t \<le> now) as" by simp_all
  from locked_check_refuses [OF Cons.prems(1) t Cons.prems(2), of c] obtain delay ths1 where
    s: "check_gateway_auth ae t host c ths = (Inl (too_many delay), ths1)" "0 < delay"
    "locked (ae_digest ae) (auth_throttle (ae_settings ae) ''gateway'' ths1) now (client_key host)" by blast
  from Cons.IH [OF Cons.prems(1) s(3) rest] s(1,2) a show ?case by (auto simp: case_prod_beta)
qed simp

theorem locked_client_is_refused_witness:
  "list_all (\<lambda>r. \<exists>delay > 0. r = Inl (too_many delay)) (fst (auth_attempts example_auth_env (Some ''1.2.3.4'')
     [(7, Some ''Bearer k3y'')]
     [(''gateway'', \<lparr>th_limit = 2, th_window_seconds = 300, th_max_entries = 10,
        th_entries = [(''1.2.3.4'', (2, 0))]\<rparr>)]))"
proof -
  have en: "au_enabled (ae_state example_auth_env)" by (simp add: example_auth_state)
  have lk: "locked (ae_digest example_auth_env) (auth_throttle (ae_settings example_auth_env) ''gateway''
      [(''gateway'', \<lparr>th_limit = 2, th_window_seconds = 300, th_max_entries = 10,
        th_entries = [(''1.2.3.4'', (2, 0))]\<rparr>)]) 10 (client_key (Some ''1.2.3.4''))"
    by (simp add: locked_def window_of_def auth_throttle_def client_key_def example_auth_env_def)
  from locked_client_is_refused [OF en lk, of "[(7, Some ''Bearer k3y'')]"] show ?thesis by simp
qed

text \<open>
  With an environment key, a bearer token that has a character outside ASCII makes
  the comparison itself raise: the request fails with an unhandled \<open>TypeError\<close> instead of
  status 401, and the failure is not counted against the client.
\<close>

theorem non_ascii_token_unhandled:
  assumes "au_enabled (ae_state ae)" and "au_source (ae_state ae) = ''env''" and "au_env_key (ae_state ae) = Some k"
    and "\<not> locked (ae_digest ae) (auth_throttle (ae_settings ae) ''gateway'' ths) now (client_key host)"
    and "\<not> list_all (\<lambda>c. code c < 128) token"
  shows "\<exists>ths'. check_gateway_auth ae now host (Some (''Bearer '' @ token)) ths = (Inl (Unhandled TypeError), ths')
    \<and> ths' = AList.update ''gateway'' (snd (retry_after (ae_digest ae) now (client_key host)
        (auth_throttle (ae_settings ae) ''gateway'' ths))) ths"
proof -
  let ?th = "auth_throttle (ae_settings ae) ''gateway'' ths" and ?key = "client_key host"
  have "fst (retry_after (ae_digest ae) now ?key ?th) = 0"
    using assms(4) failure_throttle.refused_iff by blast
  then have "check_auth_throttle ae now ''gateway'' ?key ths =
      (Inr (), AList.update ''gateway'' (snd (retry_after (ae_digest ae) now ?key ?th)) ths)"
    by (simp add: check_auth_throttle_def Let_def case_prod_beta)
  moreover have "credentials_match ae token = Inl TypeError"
    using assms(2,3,5) by (simp add: credentials_match_def compare_digest_def Let_def)
  ultimately show ?thesis
    using assms(1) by (simp add: check_gateway_auth_def py_startswith_def Let_def)
qed

theorem non_ascii_token_unhandled_witness:
  "\<exists>ths'. check_gateway_auth example_auth_env 5 None (Some (''Bearer '' @ [CHR 0xE9])) []
     = (Inl (Unhandled TypeError), ths')"
proof -
  have "\<not> locked (ae_digest example_auth_env) (auth_throttle (ae_settings example_auth_env) ''gateway'' []) 5
      (client_key None)"
    by (simp add: locked_def window_of_def auth_throttle_def throttle_init_def)
  from non_ascii_token_unhandled [OF _ _ _ this, of "''k3y''" "[CHR 0xE9]"] show ?thesis
    by (simp add: example_auth_state code_def)
qed

text \<open>
  Which credential is in force: a stored token takes precedence over the
  environment key, the stored mode \<open>disabled\<close> switches authentication off even with an environment
  key, and otherwise the stripped environment key decides.
\<close>

theorem effective_auth_state:
  "case au_config (get_gateway_auth_config t) of
     Some config \<Rightarrow>
       au_enabled (resolve_gateway_auth_state s t) \<and> au_source (resolve_gateway_auth_state s t) = ''managed''
       \<and> au_config (resolve_gateway_auth_state s t) = Some config
   | None \<Rightarrow>
       if au_mode (get_gateway_auth_config t) = ''disabled'' \<or> py_strip (gateway_api_key s) = []
       then \<not> au_enabled (resolve_gateway_auth_state s t)
       else au_enabled (resolve_gateway_auth_state s t) \<and> au_source (resolve_gateway_auth_state s t) = ''env''
         \<and> au_env_key (resolve_gateway_auth_state s t) = Some (py_strip (gateway_api_key s))"
proof -
  have "au_mode (get_gateway_auth_config t) = ''enabled''" if "au_config (get_gateway_auth_config t) \<noteq> None"
    using that by (auto simp: get_gateway_auth_config_def Let_def split: option.splits if_splits)
  then show ?thesis by (auto simp: resolve_gateway_auth_state_def Let_def split: option.split)
qed

end
