(* ===== verification/FL_Proxy.thy ===== *)
theory FL_Proxy
  imports FL_Health FL_Auth FL_Writer
begin

text \<open>
  The chat endpoint of \<open>src/proxy.py\<close>: reading and parsing the request, the failover loop over
  the candidates of the router, and the relay of a provider's event stream.

  The world around a request is an input: for attempt \<open>k\<close> the committed tables it reads, the
  clock, and what the provider does (\<open>attempt_input\<close>); for a relayed stream the events and the
  moments at which the client is found gone. The output is the reply and the effects in order:
  statements for the writer and request logs. A response body, status and headers are the
  reply; log lines of \<open>runtime_log\<close> are not modelled.

  Exceptions raised by a provider call are \<open>exn\<close>: a \<open>ProviderError\<close>, the end of an asynchronous
  iterator, a time-out, or any other exception with its text.
\<close>

datatype exn = ProviderExc provider_error | StopIter | Timeout string | OtherExc string

datatype effect = EffWrite stmt | EffLog log_row

fun writes_of :: "effect list \<Rightarrow> stmt list" where
  "writes_of [] = []"
| "writes_of (EffWrite s # es) = s # writes_of es"
| "writes_of (EffLog l # es) = writes_of es"

fun logs_of :: "effect list \<Rightarrow> log_row list" where
  "logs_of [] = []"
| "logs_of (EffWrite s # es) = logs_of es"
| "logs_of (EffLog l # es) = l # logs_of es"

lemma effects_append [simp]:
  "writes_of (es @ fs) = writes_of es @ writes_of fs" "logs_of (es @ fs) = logs_of es @ logs_of fs"
  by (induction es rule: writes_of.induct) simp_all

lemma effects_map_write [simp]:
  "writes_of (map EffWrite ss) = ss" "logs_of (map EffWrite ss) = []"
  by (induction ss) simp_all

section \<open>Reading the request\<close>

record http_request =
  hr_host :: "string option"
  hr_authorization :: "string option"
  hr_content_length :: "string option"
  hr_preference :: "string option"
  hr_max_latency_ms :: "string option"
  hr_min_context :: "string option"
  hr_chunks :: "bytes list"

definition read_chat_payload :: "py_env \<Rightarrow> int \<Rightarrow> http_request \<Rightarrow> raised + (string \<times> json) list" where
  "read_chat_payload env limit r =
     (case declared_too_large limit (hr_content_length r) of
        Inl e \<Rightarrow> Inl (Unhandled e)
      | Inr too_large \<Rightarrow>
          if too_large then Inl (Http 413 ''request body too large'' None)
          else (case read_bounded limit 0 (hr_chunks r) of
              None \<Rightarrow> Inl (Http 413 ''request body too large'' None)
            | Some body \<Rightarrow>
                (case env_loads env body of
                   None \<Rightarrow> Inl (Http 400 ''invalid JSON request body'' None)
                 | Some (JObj payload) \<Rightarrow> Inr payload
                 | Some v \<Rightarrow> Inl (Http 400 ''request body must be a JSON object'' None))))"

definition parse_requirements :: "tok_env \<Rightarrow> (string \<times> json) list \<Rightarrow> py_error + routing_requirements" where
  "parse_requirements te payload =
    (let messages = dict_get payload ''messages'' (JList []);
         max_completion_tokens =
           (if jget payload ''max_completion_tokens'' = JNull then dict_get payload ''max_tokens'' (JInt 0)
            else jget payload ''max_completion_tokens'')
     in sbind (request_contains_vision te messages) (\<lambda>vision.
        sbind (py_int_of (py_or (dict_get payload ''min_context_window'' (JInt 0)) (JInt 0))) (\<lambda>min_context.
        sbind (py_int_of (py_or max_completion_tokens (JInt 0))) (\<lambda>min_output.
        Inr \<lparr>rr_requested_model = dict_get payload ''model'' (JStr ''auto''),
             rr_requires_tools = py_truthy (jget payload ''tools''),
             rr_requires_vision = vision,
             rr_requires_streaming = py_truthy (jget payload ''stream''),
             rr_requires_structured_output = py_truthy (jget payload ''response_format''),
             rr_requires_system_messages = True,
             rr_min_context_window = min_context,
             rr_min_output_tokens = min_output,
             rr_token_messages = messages,
             rr_token_tools = jget payload ''tools'',
             rr_token_response_format = jget payload ''response_format'',
             rr_safety_buffer = 15 / 100\<rparr>))))"

text \<open>A header that is a digit string; \<open>int\<close> still raises for superscript digits.\<close>

definition header_int :: "string option \<Rightarrow> py_error + int option" where
  "header_int h = (case h of
       None \<Rightarrow> Inr None
     | Some s \<Rightarrow> if py_isdigit s then (case py_int s of None \<Rightarrow> Inl ValueError | Some i \<Rightarrow> Inr (Some i))
                 else Inr None)"

definition parse_routing_preferences ::
  "settings \<Rightarrow> http_request \<Rightarrow> py_error + routing_preferences option" where
  "parse_routing_preferences s r =
    (if \<not> routing_enable_request_preference_headers s then Inr None
     else
       let given = py_lower (py_strip (case hr_preference r of None \<Rightarrow> ''balanced'' | Some p \<Rightarrow> p));
           preference = (if given \<in> set [''balanced'', ''quality'', ''latency'', ''context'', ''reliability'']
                         then given else ''balanced'')
       in sbind (header_int (hr_max_latency_ms r)) (\<lambda>max_latency.
          sbind (header_int (hr_min_context r)) (\<lambda>min_context.
          Inr (Some \<lparr>rp_preference = preference, rp_max_latency_ms = max_latency,
                     rp_min_context_tokens = min_context\<rparr>))))"

section \<open>Logging an attempt\<close>

record token_observation =
  to_provider_model_id :: string
  to_tokenizer_family :: "string option"
  to_estimated_prompt_tokens :: int
  to_context_window :: "int option"

definition candidate_token_observation ::
  "tok_env \<Rightarrow> tables \<Rightarrow> routing_requirements \<Rightarrow> pick \<Rightarrow> py_error + token_observation" where
  "candidate_token_observation te t req p =
    (let row = get_model_tokenization_metadata t (p_id p);
         family = (case row of None \<Rightarrow> None | Some (_, tokenizer_family, _) \<Rightarrow>
             (case tokenizer_family of Some f \<Rightarrow> if f = [] then None else Some f | None \<Rightarrow> None));
         window = (case row of None \<Rightarrow> None | Some (_, _, context_window) \<Rightarrow>
             (case context_window of Some w \<Rightarrow> if w = 0 then None else Some w | None \<Rightarrow> None))
     in sbind (estimate_required_tokens te (rr_token_messages req) (rr_token_tools req)
                (rr_token_response_format req) (rr_safety_buffer req) family (Some (p_provider_model_id p)))
          (\<lambda>n. Inr \<lparr>to_provider_model_id = p_provider_model_id p, to_tokenizer_family = family,
                    to_estimated_prompt_tokens = n, to_context_window = window\<rparr>))"

definition category_name :: "category \<Rightarrow> string" where
  "category_name c = (case c of
       RATE_LIMITED \<Rightarrow> ''RATE_LIMITED'' | PROVIDER_UNAVAILABLE \<Rightarrow> ''PROVIDER_UNAVAILABLE''
     | INVALID_REQUEST \<Rightarrow> ''INVALID_REQUEST'' | AUTH_ERROR \<Rightarrow> ''AUTH_ERROR''
     | CONTEXT_EXCEEDED \<Rightarrow> ''CONTEXT_EXCEEDED'')"

text \<open>What is the same for all rows of one attempt.\<close>

record attempt_ctx =
  cx_request_id :: string
  cx_req :: routing_requirements
  cx_pick :: pick
  cx_index :: nat
  cx_observation :: token_observation

definition base_log :: "attempt_ctx \<Rightarrow> timestamp \<Rightarrow> log_row" where
  "base_log cx now =
     \<lparr>l_request_id = Some (cx_request_id cx), l_timestamp = now, l_request_source = ''client'',
      l_selected_model_id = p_id (cx_pick cx), l_provider_id = p_provider_id (cx_pick cx),
      l_selected_provider_model_id = Some (to_provider_model_id (cx_observation cx)),
      l_selected_tokenizer_family = to_tokenizer_family (cx_observation cx),
      l_client_requested_model = rr_requested_model (cx_req cx),
      l_attempt_index = int (cx_index cx), l_was_fallback = (0 < cx_index cx),
      l_estimated_prompt_tokens = Some (to_estimated_prompt_tokens (cx_observation cx)),
      l_selected_context_window = to_context_window (cx_observation cx),
      l_prompt_tokens = JNull, l_completion_tokens = JNull, l_total_tokens = JNull,
      l_latency_ms = None, l_ttfb_ms = None, l_success = False, l_gateway_error_category = None,
      l_error_code = None, l_error_message = None,
      l_was_streaming = rr_requires_streaming (cx_req cx), l_had_tools = rr_requires_tools (cx_req cx),
      l_had_vision = rr_requires_vision (cx_req cx)\<rparr>"

definition failure_log :: "attempt_ctx \<Rightarrow> timestamp \<Rightarrow> int \<Rightarrow> provider_error \<Rightarrow> log_row" where
  "failure_log cx now latency_ms err =
     (base_log cx now)\<lparr>l_latency_ms := Some (of_int latency_ms), l_success := False,
       l_gateway_error_category := Some (category_name (pe_category err)),
       l_error_code := pe_error_code err, l_error_message := Some (take 500 (pe_message err))\<rparr>"

definition log_failure :: "attempt_ctx \<Rightarrow> timestamp \<Rightarrow> int \<Rightarrow> provider_error \<Rightarrow> effect" where
  "log_failure cx now latency_ms err = EffLog (failure_log cx now latency_ms err)"

definition provider_error_status :: "provider_error \<Rightarrow> int" where
  "provider_error_status e = (case pe_category e of
       AUTH_ERROR \<Rightarrow> (case pe_status_code e of Some s \<Rightarrow> if s = 0 then 401 else s | None \<Rightarrow> 401)
     | INVALID_REQUEST \<Rightarrow> 400
     | CONTEXT_EXCEEDED \<Rightarrow> 400
     | RATE_LIMITED \<Rightarrow> 429
     | PROVIDER_UNAVAILABLE \<Rightarrow> 502)"

section \<open>Server-sent events\<close>

definition is_line_break :: "char \<Rightarrow> bool" where
  "is_line_break c = (code c \<in> {10, 11, 12, 13, 28, 29, 30, 133})"

fun splitlines_acc :: "string \<Rightarrow> string \<Rightarrow> string list" where
  "splitlines_acc acc [] = (if acc = [] then [] else [rev acc])"
| "splitlines_acc acc (c # cs) =
     (if code c = 13 \<and> cs \<noteq> [] \<and> code (hd cs) = 10 then rev acc # splitlines_acc [] (tl cs)
      else if is_line_break c then rev acc # splitlines_acc [] cs
      else splitlines_acc (c # acc) cs)"

definition py_splitlines :: "string \<Rightarrow> string list" where
  "py_splitlines s = splitlines_acc [] s"

text \<open>The first line that starts with \<open>data: \<close> decides.\<close>

definition parse_stream_event :: "py_env \<Rightarrow> bytes \<Rightarrow> json option \<times> bool" where
  "parse_stream_event env raw_event =
    (case find (\<lambda>line. py_startswith line ''data: '') (py_splitlines (env_decode_ignore env raw_event)) of
       None \<Rightarrow> (None, False)
     | Some line \<Rightarrow>
         let data = py_strip (drop 6 line) in
         if data = ''[DONE]'' then (None, True) else (env_loads_text env data, False))"

definition is_comment_event :: "py_env \<Rightarrow> bytes \<Rightarrow> bool" where
  "is_comment_event env raw_event =
    (let lines = filter (\<lambda>l. l \<noteq> []) (map py_strip (py_splitlines (env_decode_ignore env raw_event)))
     in lines \<noteq> [] \<and> list_all (\<lambda>l. py_startswith l '':'') lines)"

definition event_too_large :: provider_error where
  "event_too_large = unavailable ''provider SSE event exceeded size limit''"

datatype stream_item = Event bytes | Broken exn

text \<open>The events up to the first one that is not a comment, and what follows it.\<close>

fun first_event :: "py_env \<Rightarrow> int \<Rightarrow> stream_item list \<Rightarrow> exn + bytes \<times> stream_item list" where
  "first_event env max_bytes [] = Inl StopIter"
| "first_event env max_bytes (Broken e # items) = Inl e"
| "first_event env max_bytes (Event ev # items) =
     (if max_bytes < int (length ev) then Inl (ProviderExc event_too_large)
      else if is_comment_event env ev then first_event env max_bytes items
      else Inr (ev, items))"

section \<open>One attempt\<close>

record chat_result =
  ch_payload :: json
  ch_latency_ms :: "rat option"
  ch_ttfb_ms :: "rat option"
  ch_prompt_tokens :: json
  ch_completion_tokens :: json
  ch_total_tokens :: json

text \<open>
  What the provider does when it is called: return a completion, return a stream, or raise. A
  call that outlives its time-out raises \<open>Timeout\<close>.
\<close>

datatype provider_outcome = Completion chat_result | Stream "stream_item list" | Raises exn

record attempt_input =
  ai_tables :: tables
  ai_now :: timestamp
  ai_elapsed_ms :: int
  ai_deadline_passed :: bool
  ai_outcome :: provider_outcome

record proxy_env =
  px_py :: py_env
  px_tok :: tok_env
  px_settings :: settings
  px_registry :: registry

datatype reply =
    Reply json
  | StreamReply attempt_ctx bytes "stream_item list"
  | Fails raised

datatype verdict = Served reply | Failed provider_error | Fatal provider_error

definition mark_failure_effects :: "settings \<Rightarrow> attempt_input \<Rightarrow> model_id \<Rightarrow> string \<Rightarrow> effect list" where
  "mark_failure_effects s ai i error = map EffWrite (mark_failure s (ai_tables ai) (ai_now ai) i error)"

text \<open>The three \<open>except\<close> branches of the loop body.\<close>

definition handle_exn ::
  "settings \<Rightarrow> attempt_ctx \<Rightarrow> attempt_input \<Rightarrow> exn \<Rightarrow> verdict \<times> effect list" where
  "handle_exn s cx ai e =
    (let log = (\<lambda>err. log_failure cx (ai_now ai) (ai_elapsed_ms ai) err);
         penalise = mark_failure_effects s ai (p_id (cx_pick cx)) in
     case e of
       StopIter \<Rightarrow>
         let err = unavailable ''provider stream ended before first event''
         in (Failed err, penalise (pe_message err) @ [log err])
     | ProviderExc err \<Rightarrow>
         if pe_retryable err
         then (Failed err, (if pe_category err \<noteq> CONTEXT_EXCEEDED then penalise (pe_message err) else []) @ [log err])
         else (Fatal err, [log err])
     | Timeout m \<Rightarrow> (Failed (unavailable (take 500 m)), penalise m @ [log (unavailable (take 500 m))])
     | OtherExc m \<Rightarrow> (Failed (unavailable (take 500 m)), penalise m @ [log (unavailable (take 500 m))]))"

definition success_log :: "attempt_ctx \<Rightarrow> attempt_input \<Rightarrow> chat_result \<Rightarrow> log_row" where
  "success_log cx ai r = (base_log cx (ai_now ai))\<lparr>
     l_prompt_tokens := ch_prompt_tokens r, l_completion_tokens := ch_completion_tokens r,
     l_total_tokens := ch_total_tokens r, l_latency_ms := Some (of_int (ai_elapsed_ms ai)),
     l_ttfb_ms := ch_ttfb_ms r, l_success := True\<rparr>"

text \<open>
  The loop body for one candidate, once its adapter and its token observation are at hand: the
  provider's answer, which for a stream includes its first event, or the exception. A streaming
  request calls \<open>stream_chat_completions\<close>, any other \<open>chat_completions\<close>.
\<close>

datatype answer = AnsChat chat_result | AnsStream bytes "stream_item list"

definition provider_answer :: "proxy_env \<Rightarrow> routing_requirements \<Rightarrow> attempt_input \<Rightarrow> exn + answer" where
  "provider_answer px req ai =
    (if rr_requires_streaming req \<and> ai_deadline_passed ai
     then Inl (Timeout ''provider stream total deadline exceeded'')
     else case ai_outcome ai of
       Raises e \<Rightarrow> Inl e
     | Stream items \<Rightarrow>
         sbind (first_event (px_py px) (gateway_max_sse_event_bytes (px_settings px)) items)
           (\<lambda>(ev, rest). Inr (AnsStream ev rest))
     | Completion r \<Rightarrow> Inr (AnsChat r))"

definition run_attempt ::
  "proxy_env \<Rightarrow> attempt_ctx \<Rightarrow> attempt_input \<Rightarrow> verdict \<times> effect list" where
  "run_attempt px cx ai = (case provider_answer px (cx_req cx) ai of
       Inl e \<Rightarrow> handle_exn (px_settings px) cx ai e
     | Inr (AnsStream ev rest) \<Rightarrow> (Served (StreamReply cx ev rest), [])
     | Inr (AnsChat r) \<Rightarrow>
         (Served (Reply (ch_payload r)),
          map EffWrite (mark_success (ai_now ai) (p_id (cx_pick cx)) (ch_latency_ms r) (ch_ttfb_ms r) None)
          @ [EffLog (success_log cx ai r)]))"

section \<open>The failover loop\<close>

definition exhausted :: "provider_error option \<Rightarrow> bool \<Rightarrow> raised" where
  "exhausted last_error all_context = (case last_error of
       None \<Rightarrow> Http 502 ''all candidates failed'' None
     | Some e \<Rightarrow>
         if pe_category e = CONTEXT_EXCEEDED \<and> all_context then Http 400 (pe_message e) None
         else Http 502 (pe_message e) None)"

fun chat_loop ::
  "proxy_env \<Rightarrow> routing_requirements \<Rightarrow> string \<Rightarrow> (nat \<Rightarrow> attempt_input) \<Rightarrow> nat \<Rightarrow> provider_error option \<Rightarrow> bool
   \<Rightarrow> pick list \<Rightarrow> reply \<times> effect list" where
  "chat_loop px req request_id world idx last_error all_context [] =
     (Fails (exhausted last_error all_context), [])"
| "chat_loop px req request_id world idx last_error all_context (p # ps) =
     (if \<not> routable (px_registry px) (p_provider_id p) then (Fails (Unhandled KeyError), [])
      else case candidate_token_observation (px_tok px) (ai_tables (world idx)) req p of
        Inl e \<Rightarrow> (Fails (Unhandled e), [])
      | Inr obs \<Rightarrow>
          let cx = \<lparr>cx_request_id = request_id, cx_req = req, cx_pick = p, cx_index = idx, cx_observation = obs\<rparr>
          in case run_attempt px cx (world idx) of
               (Served r, es) \<Rightarrow> (r, es)
             | (Fatal err, es) \<Rightarrow> (Fails (Http (provider_error_status err) (pe_message err) None), es)
             | (Failed err, es) \<Rightarrow>
                 let (r, fs) = chat_loop px req request_id world (Suc idx) (Some err)
                        (all_context \<and> pe_category err = CONTEXT_EXCEEDED) ps
                 in (r, es @ fs))"

section \<open>Relaying a stream\<close>

text \<open>
  An event of the relayed stream comes with whether the client is found disconnected when it
  arrives; the deadline checks show as \<open>Timeout\<close>. \<open>rw_text\<close> is the text of a Python exception.
  The server closing the generator at a \<open>yield\<close> is not modelled.
\<close>

datatype relay_item = Item bytes bool | Cut exn

record relay_world =
  rw_tables :: tables
  rw_now :: timestamp
  rw_ttfb_ms :: int
  rw_latency_ms :: int
  rw_gone_first :: bool
  rw_gone_end :: bool
  rw_text :: "py_error \<Rightarrow> string"

record relay_state =
  rs_done :: bool
  rs_prompt :: json
  rs_completion :: json
  rs_total :: json
  rs_error :: "provider_error option"

definition relay_start :: relay_state where
  "relay_start = \<lparr>rs_done = False, rs_prompt = JNull, rs_completion = JNull, rs_total = JNull, rs_error = None\<rparr>"

definition DONE_EVENT :: bytes where
  "DONE_EVENT = ''data: [DONE]'' @ [CHR 0x0A, CHR 0x0A]"

text \<open>The usage a payload reports; a payload that is not an object has no \<open>get\<close>.\<close>

definition observe_payload :: "py_env \<Rightarrow> categorizer \<Rightarrow> json option \<Rightarrow> relay_state \<Rightarrow> py_error + relay_state" where
  "observe_payload env cat payload st =
    (case payload of
       None \<Rightarrow> Inr st
     | Some v \<Rightarrow>
         if \<not> py_truthy v then Inr st
         else case v of
           JObj d \<Rightarrow>
             let st1 = (case jget d ''usage'' of
                          JObj u \<Rightarrow> st\<lparr>rs_prompt := jget u ''prompt_tokens'', rs_completion := jget u ''completion_tokens'',
                                       rs_total := jget u ''total_tokens''\<rparr>
                        | _ \<Rightarrow> st)
             in sbind (provider_error_from_error_payload env cat ''provider stream error'' v) (\<lambda>err.
                  Inr (case err of None \<Rightarrow> st1 | Some e \<Rightarrow> st1\<lparr>rs_error := Some e\<rparr>))
         | _ \<Rightarrow> Inl AttributeError)"

fun relay_loop ::
  "py_env \<Rightarrow> categorizer \<Rightarrow> (py_error \<Rightarrow> string) \<Rightarrow> int \<Rightarrow> relay_item list \<Rightarrow> relay_state \<Rightarrow> bytes list \<times> relay_state" where
  "relay_loop env cat exc_text max_bytes [] st = ([], st)"
| "relay_loop env cat exc_text max_bytes (Cut e # items) st = (case e of
       StopIter \<Rightarrow> ([], st)
     | ProviderExc err \<Rightarrow> ([], st\<lparr>rs_error := Some err\<rparr>)
     | Timeout m \<Rightarrow> ([], st\<lparr>rs_error := Some (unavailable ''provider stream deadline exceeded'')\<rparr>)
     | OtherExc m \<Rightarrow> ([], st\<lparr>rs_error := Some (unavailable (take 500 m))\<rparr>))"
| "relay_loop env cat exc_text max_bytes (Item ev gone # items) st =
     (if max_bytes < int (length ev) then ([], st\<lparr>rs_error := Some event_too_large\<rparr>)
      else if gone then ([], st)
      else
        let (payload, is_done) = parse_stream_event env ev;
            st1 = st\<lparr>rs_done := rs_done st \<or> is_done\<rparr>
        in case observe_payload env cat payload st1 of
             Inl e \<Rightarrow> ([], st1\<lparr>rs_error := Some (unavailable (take 500 (exc_text e)))\<rparr>)
           | Inr st2 \<Rightarrow>
               let (evs, st3) = relay_loop env cat exc_text max_bytes items st2 in (ev # evs, st3))"

definition relay_success_log :: "attempt_ctx \<Rightarrow> relay_world \<Rightarrow> relay_state \<Rightarrow> log_row" where
  "relay_success_log cx rw st = (base_log cx (rw_now rw))\<lparr>
     l_prompt_tokens := rs_prompt st, l_completion_tokens := rs_completion st, l_total_tokens := rs_total st,
     l_latency_ms := Some (of_int (rw_latency_ms rw)), l_ttfb_ms := Some (of_int (rw_ttfb_ms rw)),
     l_success := True, l_was_streaming := True\<rparr>"

text \<open>The \<open>finally\<close> block.\<close>

definition relay_finish :: "settings \<Rightarrow> attempt_ctx \<Rightarrow> relay_world \<Rightarrow> relay_state \<Rightarrow> bytes list \<times> effect list" where
  "relay_finish s cx rw st = (case rs_error st of
       None \<Rightarrow>
         if rw_gone_end rw then ([], [])
         else (if rs_done st then [] else [DONE_EVENT],
               map EffWrite (mark_success (rw_now rw) (p_id (cx_pick cx)) (Some (of_int (rw_latency_ms rw)))
                 (Some (of_int (rw_ttfb_ms rw))) None)
               @ [EffLog (relay_success_log cx rw st)])
     | Some err \<Rightarrow>
         ([], (if pe_retryable err
               then map EffWrite (mark_failure s (rw_tables rw) (rw_now rw) (p_id (cx_pick cx)) (pe_message err))
               else [])
              @ [EffLog ((failure_log cx (rw_now rw) (rw_latency_ms rw) err)\<lparr>l_was_streaming := True\<rparr>)]))"

text \<open>
  The generator: the events sent to the client and the effects, or the exception raised while
  the first event is examined, before anything is sent.
\<close>

definition relay_stream ::
  "py_env \<Rightarrow> categorizer \<Rightarrow> settings \<Rightarrow> attempt_ctx \<Rightarrow> relay_world \<Rightarrow> bytes \<Rightarrow> relay_item list
   \<Rightarrow> py_error + bytes list \<times> effect list" where
  "relay_stream env cat s cx rw first items =
    (let (payload, is_done) = parse_stream_event env first in
     sbind (observe_payload env cat payload (relay_start\<lparr>rs_done := is_done\<rparr>)) (\<lambda>st.
       let (evs, st') = relay_loop env cat (rw_text rw) (gateway_max_sse_event_bytes s) items st;
           (tail, es) = relay_finish s cx rw st'
       in Inr ((if rw_gone_first rw then [] else [first]) @ evs @ tail, es)))"

section \<open>The endpoint\<close>

record chat_world =
  cw_clock :: rat
  cw_tables :: tables
  cw_now :: timestamp
  cw_request_id :: string
  cw_attempts :: "nat \<Rightarrow> attempt_input"

definition readiness_guard :: "bool \<Rightarrow> raised + unit" where
  "readiness_guard ready = (if ready then Inr () else Inl (Http 503 ''gateway not ready'' (Some 10)))"

definition route_and_call ::
  "proxy_env \<Rightarrow> chat_world \<Rightarrow> routing_requirements \<Rightarrow> routing_preferences option \<Rightarrow> reply \<times> effect list" where
  "route_and_call px cw req prefs =
    (case pick_candidates (cw_tables cw) (cw_now cw) (px_tok px) req prefs
            (ranking_fallback_model (px_settings px)) (routing_max_attempts (px_settings px)) of
       Inl NoHealthyModels \<Rightarrow> (Fails (Http 503 ''No routable healthy model found'' (Some 10)), [])
     | Inl (RoutingCrash e) \<Rightarrow> (Fails (Unhandled e), [])
     | Inr candidates \<Rightarrow> chat_loop px req (cw_request_id cw) (cw_attempts cw) 0 None True candidates)"

definition chat_request ::
  "proxy_env \<Rightarrow> bool \<Rightarrow> http_request \<Rightarrow> raised + routing_requirements \<times> routing_preferences option" where
  "chat_request px ready r =
    sbind (readiness_guard ready) (\<lambda>u.
    sbind (read_chat_payload (px_py px) (gateway_max_request_body_bytes (px_settings px)) r) (\<lambda>payload.
    case parse_requirements (px_tok px) payload of
      Inl e \<Rightarrow> Inl (Unhandled e)
    | Inr req \<Rightarrow>
        (case parse_routing_preferences (px_settings px) r of
           Inl e \<Rightarrow> Inl (Unhandled e) | Inr prefs \<Rightarrow> Inr (req, prefs))))"

definition chat_completions ::
  "proxy_env \<Rightarrow> auth_env \<Rightarrow> bool \<Rightarrow> chat_world \<Rightarrow> http_request \<Rightarrow> throttles
   \<Rightarrow> (reply \<times> effect list) \<times> throttles" where
  "chat_completions px ae ready cw r ths =
    (case check_gateway_auth ae (cw_clock cw) (hr_host r) (hr_authorization r) ths of
       (Inl e, ths') \<Rightarrow> ((Fails e, []), ths')
     | (Inr u, ths') \<Rightarrow>
         (case chat_request px ready r of
            Inl e \<Rightarrow> ((Fails e, []), ths')
          | Inr (req, prefs) \<Rightarrow> (route_and_call px cw req prefs, ths')))"

section \<open>What the loop does\<close>

lemma handle_exn_logs:
  "handle_exn s cx ai e = (v, es) \<Longrightarrow> \<exists>err. logs_of es = [failure_log cx (ai_now ai) (ai_elapsed_ms ai) err]"
  by (cases e) (auto simp: handle_exn_def Let_def log_failure_def mark_failure_effects_def split: if_splits)

text \<open>The log row of an attempt names its request, its position and its model.\<close>

definition attempt_row :: "string \<Rightarrow> nat \<Rightarrow> pick \<Rightarrow> log_row \<Rightarrow> bool" where
  "attempt_row request_id idx p l =
     (l_request_id l = Some request_id \<and> l_attempt_index l = int idx \<and> l_was_fallback l = (0 < idx)
      \<and> l_selected_model_id l = p_id p \<and> l_provider_id l = p_provider_id p \<and> l_request_source l = ''client'')"

lemma run_attempt_logs:
  assumes "run_attempt px cx ai = (v, es)"
  shows "logs_of es = [] \<and> (\<exists>r. v = Served r)
    \<or> (\<exists>l. logs_of es = [l] \<and> attempt_row (cx_request_id cx) (cx_index cx) (cx_pick cx) l)"
proof (cases "provider_answer px (cx_req cx) ai")
  case (Inl e)
  with assms have "handle_exn (px_settings px) cx ai e = (v, es)" by (simp add: run_attempt_def)
  from handle_exn_logs [OF this] show ?thesis by (auto simp: attempt_row_def failure_log_def base_log_def)
next
  case (Inr a)
  with assms show ?thesis
    by (cases a) (auto simp: run_attempt_def attempt_row_def success_log_def base_log_def)
qed

lemma chat_loop_logs:
  "chat_loop px req rid world idx le ac ps = (r, es) \<Longrightarrow>
   length (logs_of es) \<le> length ps
   \<and> (\<forall>k < length (logs_of es). attempt_row rid (idx + k) (ps ! k) (logs_of es ! k))"
proof (induction ps arbitrary: idx le ac r es)
  case Nil
  then show ?case by simp
next
  case (Cons p ps)
  show ?case
  proof (cases "routable (px_registry px) (p_provider_id p)
      \<and> (\<exists>obs. candidate_token_observation (px_tok px) (ai_tables (world idx)) req p = Inr obs)")
    case False
    with Cons.prems have "es = []" by (auto split: if_splits sum.splits)
    then show ?thesis by simp
  next
    case True
    then obtain obs where known: "routable (px_registry px) (p_provider_id p)"
      and obs: "candidate_token_observation (px_tok px) (ai_tables (world idx)) req p = Inr obs" by blast
    define cx where "cx = \<lparr>cx_request_id = rid, cx_req = req, cx_pick = p, cx_index = idx, cx_observation = obs\<rparr>"
    obtain v es1 where run: "run_attempt px cx (world idx) = (v, es1)" by fastforce
    have row: "logs_of es1 = [] \<and> (\<exists>r. v = Served r) \<or> (\<exists>l. logs_of es1 = [l] \<and> attempt_row rid idx p l)"
      using run_attempt_logs [OF run] by (simp add: cx_def)
    show ?thesis
    proof (cases "\<exists>err. v = Failed err")
      case False
      with Cons.prems known obs run have "es = es1"
        by (cases v) (auto simp: cx_def)
      with row show ?thesis by auto
    next
      case True
      then obtain err where v: "v = Failed err" by blast
      define ac' where "ac' = (ac \<and> pe_category err = CONTEXT_EXCEEDED)"
      obtain r2 es2 where rec: "chat_loop px req rid world (Suc idx) (Some err) ac' ps = (r2, es2)" by fastforce
      from Cons.prems known obs run v rec have es: "es = es1 @ es2" by (simp add: cx_def ac'_def)
      from row v obtain l where l: "logs_of es1 = [l]" "attempt_row rid idx p l" by auto
      from Cons.IH [OF rec] show ?thesis
        using l by (auto simp: es nth_Cons split: nat.splits)
    qed
  qed
qed

definition example_px :: proxy_env where
  "example_px = \<lparr>px_py = \<lparr>env_loads = (\<lambda>b. None), env_loads_text = (\<lambda>b. None), env_decode_ignore = id,
       env_decode_replace = id, env_repr = (\<lambda>v. ''?'')\<rparr>, px_tok = no_tokenizers,
     px_settings = default_settings, px_registry = example_registry\<rparr>"

definition example_pick :: "string \<Rightarrow> pick" where
  "example_pick i = \<lparr>p_id = i, p_provider_id = ''openrouter'', p_provider_model_id = i\<rparr>"

definition example_result :: chat_result where
  "example_result = \<lparr>ch_payload = JStr ''hi'', ch_latency_ms = Some 5, ch_ttfb_ms = None, ch_prompt_tokens = JInt 3,
     ch_completion_tokens = JInt 1, ch_total_tokens = JInt 4\<rparr>"

definition example_input :: "provider_outcome \<Rightarrow> attempt_input" where
  "example_input out = \<lparr>ai_tables = healthy_tables, ai_now = 100, ai_elapsed_ms = 7, ai_deadline_passed = False,
     ai_outcome = out\<rparr>"

definition example_world :: "exn \<Rightarrow> provider_outcome \<Rightarrow> nat \<Rightarrow> attempt_input" where
  "example_world e out k = example_input (if k = 0 then Raises e else out)"

lemma example_observation:
  "\<exists>obs. candidate_token_observation no_tokenizers t (example_request m) p = Inr obs"
  by (simp add: candidate_token_observation_def estimate_required_tokens_def example_request_def
      chat_messages_def Let_def)

lemma example_not_streaming [simp]: "\<not> rr_requires_streaming (example_request m)"
  by (simp add: example_request_def)

lemma chat_loop_attempt:
  assumes "routable (px_registry px) (p_provider_id p)"
    and "candidate_token_observation (px_tok px) (ai_tables (world idx)) req p = Inr obs"
    and "run_attempt px \<lparr>cx_request_id = rid, cx_req = req, cx_pick = p, cx_index = idx, cx_observation = obs\<rparr>
      (world idx) = (v, es)"
  shows "chat_loop px req rid world idx le ac (p # ps) = (case v of
       Served r \<Rightarrow> (r, es)
     | Fatal err \<Rightarrow> (Fails (Http (provider_error_status err) (pe_message err) None), es)
     | Failed err \<Rightarrow> (let (r, fs) = chat_loop px req rid world (Suc idx) (Some err)
             (ac \<and> pe_category err = CONTEXT_EXCEEDED) ps in (r, es @ fs)))"
  using assms by (simp split: verdict.split)

lemma example_failover:
  "fst (chat_loop example_px (example_request ''auto'') ''r'' (example_world StopIter (Completion example_result))
     0 None True [example_pick ''m1'', example_pick ''m2'']) = Reply (JStr ''hi'')"
proof -
  let ?w = "example_world StopIter (Completion example_result)" and ?req = "example_request ''auto''"
  have px: "px_tok example_px = no_tokenizers" "routable (px_registry example_px) (p_provider_id (example_pick i))" for i
    by (simp_all add: example_px_def example_pick_def)
  have obs: "\<exists>obs. candidate_token_observation (px_tok example_px) t ?req p = Inr obs" for t p
    unfolding px by (rule example_observation)
  have stream: "\<not> rr_requires_streaming ?req" by (simp add: example_request_def)
  have first: "\<exists>err es. run_attempt example_px cx (?w 0) = (Failed err, es)" if "cx_req cx = ?req" for cx
    using that stream
    by (simp add: run_attempt_def provider_answer_def example_world_def example_input_def handle_exn_def Let_def)
  have second: "\<exists>es. run_attempt example_px cx (?w 1) = (Served (Reply (JStr ''hi'')), es)" if "cx_req cx = ?req" for cx
    using that stream
    by (simp add: run_attempt_def provider_answer_def example_world_def example_input_def example_result_def)
  from obs obtain o1 o2 where o: "candidate_token_observation (px_tok example_px) (ai_tables (?w 0)) ?req (example_pick ''m1'') = Inr o1"
    "candidate_token_observation (px_tok example_px) (ai_tables (?w (Suc 0))) ?req (example_pick ''m2'') = Inr o2" by blast
  from first [of "\<lparr>cx_request_id = ''r'', cx_req = ?req, cx_pick = example_pick ''m1'', cx_index = 0, cx_observation = o1\<rparr>"]
    second [of "\<lparr>cx_request_id = ''r'', cx_req = ?req, cx_pick = example_pick ''m2'', cx_index = Suc 0, cx_observation = o2\<rparr>"]
  show ?thesis
    by (auto simp: chat_loop_attempt [where world = ?w and idx = 0, OF px(2) o(1)]
        chat_loop_attempt [where world = ?w and idx = "Suc 0", OF px(2) o(2)] case_prod_beta
        simp del: chat_loop.simps(2))
qed

text \<open>The exception of each attempt, when the provider of candidate \<open>k\<close> is called at all.\<close>

definition attempt_fails_with :: "proxy_env \<Rightarrow> routing_requirements \<Rightarrow> attempt_input \<Rightarrow> provider_error \<Rightarrow> bool" where
  "attempt_fails_with px req ai err = (case provider_answer px req ai of
       Inl StopIter \<Rightarrow> err = unavailable ''provider stream ended before first event''
     | Inl (ProviderExc e) \<Rightarrow> pe_retryable e \<and> err = e
     | Inl (Timeout m) \<Rightarrow> err = unavailable (take 500 m)
     | Inl (OtherExc m) \<Rightarrow> err = unavailable (take 500 m)
     | Inr a \<Rightarrow> False)"

lemma run_attempt_fails:
  "attempt_fails_with px (cx_req cx) ai err \<Longrightarrow> \<exists>es. run_attempt px cx ai = (Failed err, es)"
  by (auto simp: attempt_fails_with_def run_attempt_def handle_exn_def Let_def split: sum.splits exn.splits)

text \<open>A candidate whose provider is called: its adapter is found and its token observation computed.\<close>

definition callable :: "proxy_env \<Rightarrow> routing_requirements \<Rightarrow> attempt_input \<Rightarrow> pick \<Rightarrow> bool" where
  "callable px req ai p = (routable (px_registry px) (p_provider_id p)
     \<and> (\<exists>obs. candidate_token_observation (px_tok px) (ai_tables ai) req p = Inr obs))"

text \<open>
  How the loop ends after \<open>n\<close> logged attempts, the first of them being attempt \<open>idx\<close>: with the
  completion of the last of them; with a stream of the candidate after them; or with an error,
  because the candidates are used up, the last of them failed for good, or the next cannot be called.
\<close>

definition trail_ends ::
  "proxy_env \<Rightarrow> routing_requirements \<Rightarrow> (nat \<Rightarrow> attempt_input) \<Rightarrow> nat \<Rightarrow> pick list \<Rightarrow> nat \<Rightarrow> reply \<Rightarrow> bool" where
  "trail_ends px req world idx ps n r = (case r of
     Reply v \<Rightarrow> 0 < n \<and> n \<le> length ps
       \<and> (\<exists>c. provider_answer px req (world (idx + n - 1)) = Inr (AnsChat c) \<and> v = ch_payload c)
   | StreamReply cx ev rest \<Rightarrow> n < length ps \<and> callable px req (world (idx + n)) (ps ! n)
       \<and> cx_pick cx = ps ! n \<and> cx_index cx = idx + n
       \<and> provider_answer px req (world (idx + n)) = Inr (AnsStream ev rest)
   | Fails e \<Rightarrow> n = length ps
       \<or> 0 < n \<and> n \<le> length ps \<and> (\<exists>err. provider_answer px req (world (idx + n - 1)) = Inl (ProviderExc err)
           \<and> \<not> pe_retryable err \<and> e = Http (provider_error_status err) (pe_message err) None)
       \<or> n < length ps \<and> \<not> callable px req (world (idx + n)) (ps ! n))"

lemma run_attempt_outcome:
  assumes "run_attempt px cx ai = (v, es)"
  shows "case v of
      Served r \<Rightarrow> (case r of
          Reply j \<Rightarrow> (\<exists>l c. logs_of es = [l] \<and> l_success l \<and> provider_answer px (cx_req cx) ai = Inr (AnsChat c) \<and> j = ch_payload c)
        | StreamReply cx' ev rest \<Rightarrow> logs_of es = [] \<and> cx' = cx \<and> provider_answer px (cx_req cx) ai = Inr (AnsStream ev rest)
        | Fails e \<Rightarrow> False)
    | Failed err \<Rightarrow> (\<exists>l. logs_of es = [l] \<and> \<not> l_success l) \<and> attempt_fails_with px (cx_req cx) ai err
    | Fatal err \<Rightarrow> (\<exists>l. logs_of es = [l] \<and> \<not> l_success l) \<and> provider_answer px (cx_req cx) ai = Inl (ProviderExc err)
        \<and> \<not> pe_retryable err"
proof (cases "provider_answer px (cx_req cx) ai")
  case (Inl e)
  have "\<not> l_success (failure_log cx now n err)" for now n err by (simp add: failure_log_def)
  with Inl assms show ?thesis
    by (cases e) (auto simp: run_attempt_def handle_exn_def Let_def log_failure_def mark_failure_effects_def
        attempt_fails_with_def split: if_splits)
next
  case (Inr a)
  with assms show ?thesis by (cases a) (auto simp: run_attempt_def success_log_def)
qed

text \<open>The row of an attempt that is logged: its success flag, and that the loop goes on after a failure.\<close>

definition trail_row ::
  "proxy_env \<Rightarrow> routing_requirements \<Rightarrow> attempt_input \<Rightarrow> pick \<Rightarrow> reply \<Rightarrow> bool \<Rightarrow> log_row \<Rightarrow> bool" where
  "trail_row px req ai p r is_last l = (callable px req ai p
     \<and> (l_success l \<longleftrightarrow> is_last \<and> (\<exists>v. r = Reply v)) \<and> (is_last \<or> (\<exists>err. attempt_fails_with px req ai err)))"

lemma chat_loop_trail:
  "chat_loop px req rid world idx le ac ps = (r, es) \<Longrightarrow>
   trail_ends px req world idx ps (length (logs_of es)) r
   \<and> (\<forall>k < length (logs_of es).
        trail_row px req (world (idx + k)) (ps ! k) r (Suc k = length (logs_of es)) (logs_of es ! k))"
proof (induction ps arbitrary: idx le ac r es)
  case Nil
  then show ?case by (auto simp: trail_ends_def)
next
  case (Cons p ps)
  show ?case
  proof (cases "callable px req (world idx) p")
    case False
    with Cons.prems have "es = [] \<and> (\<exists>e. r = Fails e)" by (auto simp: callable_def split: if_splits sum.splits)
    with False show ?thesis by (auto simp: trail_ends_def)
  next
    case True
    then obtain obs where known: "routable (px_registry px) (p_provider_id p)"
      and obs: "candidate_token_observation (px_tok px) (ai_tables (world idx)) req p = Inr obs"
      by (auto simp: callable_def)
    define cx where "cx = \<lparr>cx_request_id = rid, cx_req = req, cx_pick = p, cx_index = idx, cx_observation = obs\<rparr>"
    obtain v es1 where run: "run_attempt px cx (world idx) = (v, es1)" by fastforce
    note out = run_attempt_outcome [OF run]
    have req: "cx_req cx = req" "cx_pick cx = p" "cx_index cx = idx" by (simp_all add: cx_def)
    show ?thesis
    proof (cases v)
      case (Served r1)
      with Cons.prems known obs run have "es = es1" "r = r1" by (simp_all add: cx_def)
      with out Served True req show ?thesis
        by (cases r1) (auto simp: trail_ends_def trail_row_def)
    next
      case (Fatal err)
      with Cons.prems known obs run
      have "es = es1" "r = Fails (Http (provider_error_status err) (pe_message err) None)" by (simp_all add: cx_def)
      with out Fatal True req show ?thesis by (auto simp: trail_ends_def trail_row_def)
    next
      case (Failed err)
      obtain r2 es2 where rec: "chat_loop px req rid world (Suc idx) (Some err)
          (ac \<and> pe_category err = CONTEXT_EXCEEDED) ps = (r2, es2)" by fastforce
      with Cons.prems known obs run Failed have es: "es = es1 @ es2" and r: "r = r2" by (simp_all add: cx_def)
      from out Failed req obtain l where l: "logs_of es1 = [l]" "\<not> l_success l"
        and fails: "attempt_fails_with px req (world idx) err" by auto
      note IH = Cons.IH [OF rec]
      have "trail_ends px req world idx (p # ps) (Suc (length (logs_of es2))) r2"
        using IH fails by (auto simp: trail_ends_def attempt_fails_with_def nth_Cons split: reply.splits nat.splits)
      moreover have "trail_row px req (world (idx + k)) ((p # ps) ! k) r2 (Suc k = Suc (length (logs_of es2))) ((l # logs_of es2) ! k)"
        if "k < Suc (length (logs_of es2))" for k
        using that IH fails True l(2) by (cases k) (auto simp: trail_row_def trail_ends_def split: reply.splits)
      ultimately show ?thesis by (simp add: es r l(1))
    qed
  qed
qed

text \<open>
  C4 (invariant). The log of a request is its failover trail: one row for every candidate whose provider
  was called and answered or failed, in the order of the attempts, numbered from zero, each naming
  the candidate of that position, all under one request id, and only the first not marked as a
  fallback. Every row but the last is of an attempt after which the loop goes on; a row says success
  exactly when it is the last and the reply is a completion. After the last row the loop has ended: with
  that completion, with that attempt's final error, with the list used up, at a candidate that cannot
  be called, or with a stream of the next candidate, whose row the relay writes.
\<close>

theorem failover_trail:
  assumes "chat_loop px req rid world 0 None True ps = (r, es)"
  shows "(\<forall>k < length (logs_of es). attempt_row rid k (ps ! k) (logs_of es ! k)
        \<and> trail_row px req (world k) (ps ! k) r (Suc k = length (logs_of es)) (logs_of es ! k))
    \<and> trail_ends px req world 0 ps (length (logs_of es)) r"
  using chat_loop_logs [OF assms] chat_loop_trail [OF assms] by simp

text \<open>A failed first attempt and a completed second one: two rows, the second a success.\<close>

theorem failover_trail_witness:
  "\<exists>es. chat_loop example_px (example_request ''auto'') ''r'' (example_world StopIter (Completion example_result))
     0 None True [example_pick ''m1'', example_pick ''m2''] = (Reply (JStr ''hi''), es)
     \<and> map l_success (logs_of es) = [False, True] \<and> map l_selected_model_id (logs_of es) = [''m1'', ''m2'']"
proof -
  let ?w = "example_world StopIter (Completion example_result)" and ?ps = "[example_pick ''m1'', example_pick ''m2'']"
  obtain es where run: "chat_loop example_px (example_request ''auto'') ''r'' ?w 0 None True ?ps = (Reply (JStr ''hi''), es)"
    using example_failover by (metis prod.collapse)
  let ?ls = "logs_of es"
  note trail = failover_trail [OF run]
  have ends: "trail_ends example_px (example_request ''auto'') ?w 0 ?ps (length ?ls) (Reply (JStr ''hi''))"
    using trail by blast
  have rows: "attempt_row ''r'' k (?ps ! k) (?ls ! k)" "l_success (?ls ! k) \<longleftrightarrow> Suc k = length ?ls" if "k < length ?ls" for k
    using trail that by (auto simp: trail_row_def)
  have "provider_answer example_px (example_request ''auto'') (?w 0) = Inl StopIter"
    by (simp add: provider_answer_def example_world_def example_input_def)
  with ends have two: "length ?ls = 2" by (auto simp: trail_ends_def le_Suc_eq)
  then obtain l0 l1 where ls: "?ls = [l0, l1]" by (auto simp: length_Suc_conv numeral_2_eq_2)
  have "attempt_row ''r'' 0 (example_pick ''m1'') l0" "attempt_row ''r'' 1 (example_pick ''m2'') l1"
    using rows(1) [of 0] rows(1) [of 1] unfolding ls by simp_all
  then have "l_selected_model_id l0 = ''m1''" "l_selected_model_id l1 = ''m2''"
    unfolding attempt_row_def example_pick_def by (elim conjE, simp only: pick.select_convs)+
  moreover have "l_success l0 = False" "l_success l1 = True"
    using rows(2) [of 0] rows(2) [of 1] unfolding ls by simp_all
  ultimately show ?thesis using run ls by (intro exI [of _ es]) (simp only: list.map simp_thms)
qed

lemma chat_loop_exhausts:
  assumes "length errs = length ps"
    and "\<And>k. k < length ps \<Longrightarrow> routable (px_registry px) (p_provider_id (ps ! k))
      \<and> (\<exists>obs. candidate_token_observation (px_tok px) (ai_tables (world (idx + k))) req (ps ! k) = Inr obs)
      \<and> attempt_fails_with px req (world (idx + k)) (errs ! k)"
  shows "fst (chat_loop px req rid world idx le ac ps) =
    Fails (exhausted (if errs = [] then le else Some (last errs))
      (ac \<and> list_all (\<lambda>e. pe_category e = CONTEXT_EXCEEDED) errs))"
  using assms
proof (induction ps arbitrary: errs idx le ac)
  case Nil
  then show ?case by simp
next
  case (Cons p ps)
  from Cons.prems(1) obtain err errs' where errs: "errs = err # errs'" "length errs' = length ps"
    by (cases errs) auto
  from Cons.prems(2) [of 0] errs obtain obs where known: "routable (px_registry px) (p_provider_id p)"
    and obs: "candidate_token_observation (px_tok px) (ai_tables (world idx)) req p = Inr obs"
    and fails: "attempt_fails_with px req (world idx) err" by auto
  define cx where "cx = \<lparr>cx_request_id = rid, cx_req = req, cx_pick = p, cx_index = idx, cx_observation = obs\<rparr>"
  from run_attempt_fails [of px cx "world idx" err] fails obtain es where
    run: "run_attempt px cx (world idx) = (Failed err, es)" by (auto simp: cx_def)
  have "fst (chat_loop px req rid world idx le ac (p # ps))
      = fst (chat_loop px req rid world (Suc idx) (Some err) (ac \<and> pe_category err = CONTEXT_EXCEEDED) ps)"
    using known obs run by (simp add: cx_def case_prod_beta)
  also have "\<dots> = Fails (exhausted (if errs' = [] then Some err else Some (last errs'))
      ((ac \<and> pe_category err = CONTEXT_EXCEEDED) \<and> list_all (\<lambda>e. pe_category e = CONTEXT_EXCEEDED) errs'))"
    by (rule Cons.IH [OF errs(2)]) (use Cons.prems(2) [of "Suc k" for k] errs in auto)
  finally show ?case using errs by (simp add: conj_ac del: chat_loop.simps)
qed

text \<open>
  C8 (error). When every candidate fails, the client sees the message of the last failure: with
  status 400 exactly when all of them were context overflows, otherwise with status 502.
\<close>

theorem exhausted_status:
  assumes "length errs = length ps" and "ps \<noteq> []"
    and "\<And>k. k < length ps \<Longrightarrow> routable (px_registry px) (p_provider_id (ps ! k))
      \<and> (\<exists>obs. candidate_token_observation (px_tok px) (ai_tables (world k)) req (ps ! k) = Inr obs)
      \<and> attempt_fails_with px req (world k) (errs ! k)"
  shows "fst (chat_loop px req rid world 0 None True ps) =
    Fails (Http (if list_all (\<lambda>e. pe_category e = CONTEXT_EXCEEDED) errs then 400 else 502)
      (pe_message (last errs)) None)"
proof -
  from assms(1,2) have ne: "errs \<noteq> []" by auto
  then have "pe_category (last errs) = CONTEXT_EXCEEDED" if "list_all (\<lambda>e. pe_category e = CONTEXT_EXCEEDED) errs"
    using that by (simp add: list_all_iff)
  with chat_loop_exhausts [of errs ps px world 0 req rid None True] assms ne show ?thesis
    by (auto simp: exhausted_def)
qed

theorem exhausted_status_witness:
  "fst (chat_loop example_px (example_request ''auto'') ''r'' (example_world StopIter (Raises (OtherExc ''boom'')))
     0 None True [example_pick ''m1'', example_pick ''m2'']) = Fails (Http 502 ''boom'' None)"
proof -
  have "fst (chat_loop example_px (example_request ''auto'') ''r'' (example_world StopIter (Raises (OtherExc ''boom'')))
     0 None True [example_pick ''m1'', example_pick ''m2'']) =
     Fails (Http (if list_all (\<lambda>e. pe_category e = CONTEXT_EXCEEDED)
         [unavailable ''provider stream ended before first event'', unavailable ''boom''] then 400 else 502)
       (pe_message (last [unavailable ''provider stream ended before first event'', unavailable ''boom''])) None)"
    by (rule exhausted_status)
      (auto simp: nth_Cons example_px_def example_pick_def example_observation attempt_fails_with_def provider_answer_def
        example_world_def example_input_def split: nat.splits)
  then show ?thesis by simp
qed

section \<open>Who is penalised\<close>

text \<open>Failures that count against a model's health.\<close>

definition penalised :: "proxy_env \<Rightarrow> routing_requirements \<Rightarrow> attempt_input \<Rightarrow> bool" where
  "penalised px req ai = (case provider_answer px req ai of
       Inl (ProviderExc e) \<Rightarrow> pe_retryable e \<and> pe_category e \<noteq> CONTEXT_EXCEEDED
     | Inl e \<Rightarrow> True
     | Inr a \<Rightarrow> False)"

definition marks_failure :: "model_id \<Rightarrow> stmt \<Rightarrow> bool" where
  "marks_failure i s = (case s of MarkFailure j now error next_backoff until' threshold \<Rightarrow> j = i | _ \<Rightarrow> False)"

lemma mark_failure_marks: "s \<in> set (mark_failure st t now j error) \<Longrightarrow> marks_failure i s \<Longrightarrow> i = j"
  by (auto simp: mark_failure_def marks_failure_def Let_def split: option.splits)

lemma run_attempt_marks:
  assumes "run_attempt px cx ai = (v, es)" and "s \<in> set (writes_of es)" and "marks_failure i s"
  shows "i = p_id (cx_pick cx) \<and> penalised px (cx_req cx) ai"
proof (cases "provider_answer px (cx_req cx) ai")
  case (Inl e)
  with assms show ?thesis
    by (cases e) (auto simp: run_attempt_def handle_exn_def Let_def log_failure_def mark_failure_effects_def
        penalised_def dest: mark_failure_marks split: if_splits)
next
  case (Inr a)
  with assms show ?thesis
    by (cases a) (auto simp: run_attempt_def mark_success_def marks_failure_def)
qed

lemma chat_loop_marks:
  assumes "chat_loop px req rid world idx le ac ps = (r, es)" and "s \<in> set (writes_of es)" and "marks_failure i s"
  shows "\<exists>k < length ps. p_id (ps ! k) = i \<and> penalised px req (world (idx + k))"
  using assms
proof (induction ps arbitrary: idx le ac r es)
  case (Cons p ps)
  show ?case
  proof (cases "routable (px_registry px) (p_provider_id p)
      \<and> (\<exists>obs. candidate_token_observation (px_tok px) (ai_tables (world idx)) req p = Inr obs)")
    case False
    with Cons.prems have "es = []" by (auto split: if_splits sum.splits)
    with Cons.prems show ?thesis by simp
  next
    case True
    then obtain obs where known: "routable (px_registry px) (p_provider_id p)"
      and obs: "candidate_token_observation (px_tok px) (ai_tables (world idx)) req p = Inr obs" by blast
    define cx where "cx = \<lparr>cx_request_id = rid, cx_req = req, cx_pick = p, cx_index = idx, cx_observation = obs\<rparr>"
    obtain v es1 where run: "run_attempt px cx (world idx) = (v, es1)" by fastforce
    note step = chat_loop_attempt [where world = world and idx = idx, OF known obs run [unfolded cx_def], of le ac ps]
    obtain r2 es2 where es: "es = es1 @ es2" and rec: "es2 = [] \<or> (\<exists>err.
        chat_loop px req rid world (Suc idx) (Some err) (ac \<and> pe_category err = CONTEXT_EXCEEDED) ps = (r2, es2))"
      using Cons.prems(1) step
      by (cases v) (auto simp: Let_def simp del: chat_loop.simps split: prod.splits intro: that)
    show ?thesis
    proof (cases "s \<in> set (writes_of es1)")
      case True
      from run_attempt_marks [OF run this Cons.prems(3)] show ?thesis by (intro exI [of _ 0]) (simp add: cx_def)
    next
      case False
      with es Cons.prems(2) have s: "s \<in> set (writes_of es2)" by simp
      with rec obtain err where
        "chat_loop px req rid world (Suc idx) (Some err) (ac \<and> pe_category err = CONTEXT_EXCEEDED) ps = (r2, es2)" by auto
      from Cons.IH [OF this s Cons.prems(3)] obtain k where
        "k < length ps" "p_id (ps ! k) = i" "penalised px req (world (Suc idx + k))" by blast
      then show ?thesis by (intro exI [of _ "Suc k"]) simp
    qed
  qed
qed simp

text \<open>
  C7 (safety). The failover loop penalises a model's health only for a failure of that model
  that is worth a penalty: a retryable provider error other than a context overflow, a time-out,
  an empty stream or an unexpected exception. Fatal errors (the client's fault) and context
  overflows leave the health record alone.
\<close>

theorem failover_penalties:
  assumes "chat_loop px req rid world 0 None True ps = (r, es)" and "s \<in> set (writes_of es)"
    and "marks_failure i s"
  shows "\<exists>k < length ps. p_id (ps ! k) = i \<and> penalised px req (world k)"
  using chat_loop_marks [OF assms] by simp

lemma example_failing_run:
  "\<exists>r es. chat_loop example_px (example_request ''auto'') ''r'' (example_world StopIter (Raises StopIter)) 0 None True
     [example_pick ''m1''] = (r, es)
   \<and> MarkFailure ''m1'' 100 ''provider stream ended before first event'' 1 (100 + 60 * (30 * 2)) 3 \<in> set (writes_of es)"
proof -
  let ?w = "example_world StopIter (Raises StopIter)" and ?req = "example_request ''auto''"
  have px: "px_tok example_px = no_tokenizers" "routable (px_registry example_px) (p_provider_id (example_pick i))" "px_settings example_px = default_settings" for i
    by (simp_all add: example_px_def example_pick_def)
  have set: "health_consecutive_failures_threshold default_settings = 3"
    "health_max_backoff_exponent default_settings = 4" "health_cooldown_minutes default_settings = 30"
    by (simp_all add: default_settings_def post_init_def field_defaults_def Let_def)
  obtain obs where o: "candidate_token_observation (px_tok example_px) (ai_tables (?w 0)) ?req (example_pick ''m1'') = Inr obs"
    using example_observation unfolding px(1) by blast
  let ?cx = "\<lparr>cx_request_id = ''r'', cx_req = ?req, cx_pick = example_pick ''m1'', cx_index = 0, cx_observation = obs\<rparr>"
  have run: "run_attempt example_px ?cx (?w 0) =
      (Failed (unavailable ''provider stream ended before first event''),
       [EffWrite (MarkFailure ''m1'' 100 ''provider stream ended before first event'' 1 (100 + 60 * (30 * 2)) 3),
        log_failure ?cx 100 7 (unavailable ''provider stream ended before first event'')])"
    by (simp add: run_attempt_def provider_answer_def example_world_def example_input_def handle_exn_def Let_def px(3)
        set mark_failure_effects_def mark_failure_def example_pick_def iso_after_minutes_def example_model_def
        find_model_def healthy_tables_def empty_tables_def)
  show ?thesis
    by (simp add: chat_loop_attempt [where world = ?w and idx = 0, OF px(2) o run] case_prod_beta log_failure_def
        del: chat_loop.simps(2))
qed

theorem failover_penalties_witness:
  "\<exists>k < length [example_pick ''m1'']. p_id ([example_pick ''m1''] ! k) = ''m1''
     \<and> penalised example_px (example_request ''auto'') (example_world StopIter (Raises StopIter) k)"
proof -
  obtain r es where "chat_loop example_px (example_request ''auto'') ''r'' (example_world StopIter (Raises StopIter)) 0
      None True [example_pick ''m1''] = (r, es)"
    "MarkFailure ''m1'' 100 ''provider stream ended before first event'' 1 (100 + 60 * (30 * 2)) 3 \<in> set (writes_of es)"
    using example_failing_run by blast
  from failover_penalties [OF this] show ?thesis by (simp add: marks_failure_def)
qed

end
