(* ===== verification/FL_Endpoint.thy ===== *)
theory FL_Endpoint
  imports FL_Proxy
begin

text \<open>
  Properties of the chat endpoint as a whole: what a relayed stream delivers and records, that
  only authenticated requests reach providers and only eligible models are tried, and what the
  writer does with the rows a request logs.
\<close>

section \<open>The relay\<close>

definition is_done_event :: "py_env \<Rightarrow> bytes \<Rightarrow> bool" where
  "is_done_event env ev = snd (parse_stream_event env ev)"

fun item_event :: "relay_item \<Rightarrow> bytes" where
  "item_event (Item ev gone) = ev"
| "item_event (Cut e) = []"

lemma observe_payload_done: "observe_payload env cat payload st = Inr st' \<Longrightarrow> rs_done st' = rs_done st"
  by (auto simp: observe_payload_def Let_def sbind_Inr split: option.splits if_splits json.splits)

lemma relay_loop_events:
  "relay_loop env cat tx n items st = (evs, st') \<Longrightarrow>
   evs = map item_event (take (length evs) items) \<and> length evs \<le> length items
   \<and> list_all (\<lambda>ev. int (length ev) \<le> n) evs
   \<and> (rs_error st' = None \<longrightarrow> rs_done st' = (rs_done st \<or> list_ex (is_done_event env) evs))"
proof (induction items arbitrary: st evs)
  case (Cons it items)
  show ?case
  proof (cases it)
    case (Cut e)
    with Cons.prems show ?thesis by (cases e) auto
  next
    case (Item ev gone)
    show ?thesis
    proof (cases "n < int (length ev) \<or> gone")
      case True
      with Cons.prems Item show ?thesis by (auto split: if_splits)
    next
      case False
      define st1 where "st1 = st\<lparr>rs_done := rs_done st \<or> is_done_event env ev\<rparr>"
      show ?thesis
      proof (cases "observe_payload env cat (fst (parse_stream_event env ev)) st1")
        case (Inl e)
        with Cons.prems Item False show ?thesis
          by (auto simp: st1_def is_done_event_def case_prod_beta)
      next
        case (Inr st2)
        obtain evs' where loop: "relay_loop env cat tx n items st2 = (evs', st')" and evs: "evs = ev # evs'"
          using Cons.prems Item False Inr
          by (auto simp: st1_def is_done_event_def case_prod_beta Let_def prod_eq_iff)
        have "rs_done st2 = (rs_done st \<or> is_done_event env ev)"
          using observe_payload_done [OF Inr] by (simp add: st1_def)
        with Cons.IH [OF loop] evs Item False show ?thesis by auto
      qed
    qed
  qed
qed auto

text \<open>The three ways the \<open>finally\<close> block can go.\<close>

lemma relay_finish_cases:
  assumes "relay_finish s cx rw st = (tail, es)"
  shows "rs_error st = None \<and> \<not> rw_gone_end rw \<and> tail = (if rs_done st then [] else [DONE_EVENT])
      \<and> (\<exists>l. logs_of es = [l] \<and> l_success l \<and> l_selected_model_id l = p_id (cx_pick cx))
      \<and> writes_of es = mark_success (rw_now rw) (p_id (cx_pick cx)) (Some (of_int (rw_latency_ms rw)))
          (Some (of_int (rw_ttfb_ms rw))) None
    \<or> rs_error st \<noteq> None \<and> tail = []
      \<and> (\<exists>l. logs_of es = [l] \<and> \<not> l_success l \<and> l_was_streaming l \<and> l_selected_model_id l = p_id (cx_pick cx))
      \<and> list_all (marks_failure (p_id (cx_pick cx))) (writes_of es)
    \<or> rs_error st = None \<and> rw_gone_end rw \<and> tail = [] \<and> es = []"
proof (cases "rs_error st")
  case None
  with assms show ?thesis by (auto simp: relay_finish_def relay_success_log_def base_log_def split: if_splits)
next
  case (Some err)
  have "list_all (marks_failure i) (mark_failure s t now i m)" for t now i m
    by (simp add: mark_failure_def marks_failure_def Let_def split: option.split)
  with Some assms show ?thesis by (auto simp: relay_finish_def failure_log_def base_log_def split: if_splits)
qed

text \<open>
  C9 (functional). Every relayed stream, whatever the provider sends and whenever the client leaves. The
  client receives the first event, unless it had left before, and then a prefix of the provider's
  further events, unchanged and in order, none above the size limit. The stream ends in one of three
  ways. It succeeded with the client still there: the terminator is appended exactly when none of
  the events was one, one success is recorded and one successful row logged. It failed: nothing is
  appended, no success is recorded, one failed row is logged as a stream. Or it was abandoned by the client:
  nothing is appended, recorded or logged. When the first event's payload cannot be examined the
  exception escapes before anything is sent or logged.
\<close>

theorem relay_outcome:
  "case relay_stream env cat s cx rw first items of
     Inl e \<Rightarrow> observe_payload env cat (fst (parse_stream_event env first))
         (relay_start\<lparr>rs_done := is_done_event env first\<rparr>) = Inl e
   | Inr (out, es) \<Rightarrow> (\<exists>evs tail. out = (if rw_gone_first rw then [] else [first]) @ evs @ tail
       \<and> evs = map item_event (take (length evs) items)
       \<and> list_all (\<lambda>ev. int (length ev) \<le> gateway_max_sse_event_bytes s) evs
       \<and> (\<not> rw_gone_end rw \<and> tail = (if list_ex (is_done_event env) (first # evs) then [] else [DONE_EVENT])
            \<and> (\<exists>l. logs_of es = [l] \<and> l_success l \<and> l_selected_model_id l = p_id (cx_pick cx))
            \<and> writes_of es = mark_success (rw_now rw) (p_id (cx_pick cx)) (Some (of_int (rw_latency_ms rw)))
                (Some (of_int (rw_ttfb_ms rw))) None
          \<or> tail = [] \<and> (\<exists>l. logs_of es = [l] \<and> \<not> l_success l \<and> l_was_streaming l
                \<and> l_selected_model_id l = p_id (cx_pick cx))
            \<and> list_all (marks_failure (p_id (cx_pick cx))) (writes_of es)
          \<or> rw_gone_end rw \<and> tail = [] \<and> es = []))"
proof (cases "observe_payload env cat (fst (parse_stream_event env first)) (relay_start\<lparr>rs_done := is_done_event env first\<rparr>)")
  case (Inl e)
  then show ?thesis by (simp add: relay_stream_def is_done_event_def case_prod_beta)
next
  case st: (Inr st)
  obtain evs st' where loop: "relay_loop env cat (rw_text rw) (gateway_max_sse_event_bytes s) items st = (evs, st')" by fastforce
  obtain tail es where fin: "relay_finish s cx rw st' = (tail, es)" by fastforce
  have run: "relay_stream env cat s cx rw first items = Inr ((if rw_gone_first rw then [] else [first]) @ evs @ tail, es)"
    using st loop fin by (simp add: relay_stream_def is_done_event_def case_prod_beta Let_def)
  note ev = relay_loop_events [OF loop]
  have dn: "rs_done st' = list_ex (is_done_event env) (first # evs)" if "rs_error st' = None"
    using ev that observe_payload_done [OF st] by simp
  note done_tail = relay_finish_cases [OF fin]
  show ?thesis
    unfolding run sum.case prod.case
  proof (rule exI [of _ evs], rule exI [of _ tail], intro conjI HOL.refl)
    show "evs = map item_event (take (length evs) items)"
      "list_all (\<lambda>ev. int (length ev) \<le> gateway_max_sse_event_bytes s) evs" using ev by blast+
    show "\<not> rw_gone_end rw \<and> tail = (if list_ex (is_done_event env) (first # evs) then [] else [DONE_EVENT])
          \<and> (\<exists>l. logs_of es = [l] \<and> l_success l \<and> l_selected_model_id l = p_id (cx_pick cx))
          \<and> writes_of es = mark_success (rw_now rw) (p_id (cx_pick cx)) (Some (of_int (rw_latency_ms rw)))
              (Some (of_int (rw_ttfb_ms rw))) None
        \<or> tail = [] \<and> (\<exists>l. logs_of es = [l] \<and> \<not> l_success l \<and> l_was_streaming l
              \<and> l_selected_model_id l = p_id (cx_pick cx))
          \<and> list_all (marks_failure (p_id (cx_pick cx))) (writes_of es)
        \<or> rw_gone_end rw \<and> tail = [] \<and> es = []"
    proof (cases "rs_error st' = None")
      case True
      with done_tail show ?thesis unfolding dn [OF True] by blast
    next
      case False
      with done_tail show ?thesis by blast
    qed
  qed
qed

definition example_cx :: attempt_ctx where
  "example_cx = \<lparr>cx_request_id = ''r'', cx_req = example_request ''auto'', cx_pick = example_pick ''m1'', cx_index = 0,
     cx_observation = \<lparr>to_provider_model_id = ''m1'', to_tokenizer_family = None, to_estimated_prompt_tokens = 1,
       to_context_window = None\<rparr>\<rparr>"

definition example_rw :: relay_world where
  "example_rw = \<lparr>rw_tables = healthy_tables, rw_now = 100, rw_ttfb_ms = 3, rw_latency_ms = 9, rw_gone_first = False,
     rw_gone_end = False, rw_text = (\<lambda>e. ''?'')\<rparr>"

lemma example_relay:
  "\<exists>es. relay_stream (px_py example_px) categorize_openai_compatible_error default_settings example_cx example_rw
     ''data: x'' [] = Inr ([''data: x'', DONE_EVENT], es)"
proof -
  have "parse_stream_event (px_py example_px) ''data: x'' = (None, False)"
    by (simp add: parse_stream_event_def example_px_def py_splitlines_def is_line_break_def code_def py_startswith_def
        py_strip_def py_lstrip_def chr_isspace_def)
  then show ?thesis
    by (simp add: relay_stream_def observe_payload_def relay_finish_def relay_start_def example_rw_def)
qed

theorem relay_outcome_witness:
  "\<exists>es. relay_stream (px_py example_px) categorize_openai_compatible_error default_settings example_cx example_rw
     ''data: x'' [] = Inr ([''data: x'', DONE_EVENT], es) \<and> (\<exists>l. logs_of es = [l] \<and> l_success l)"
proof -
  obtain es where run: "relay_stream (px_py example_px) categorize_openai_compatible_error default_settings example_cx
      example_rw ''data: x'' [] = Inr ([''data: x'', DONE_EVENT], es)"
    using example_relay by blast
  have present: "\<not> rw_gone_first example_rw" "\<not> rw_gone_end example_rw" by (simp_all add: example_rw_def)
  from relay_outcome [where env = "px_py example_px" and cat = categorize_openai_compatible_error and s = default_settings
      and cx = example_cx and rw = example_rw and first = "''data: x''" and items = "[]"]
  have "\<exists>l. logs_of es = [l] \<and> l_success l" unfolding run using present by auto
  with run show ?thesis by blast
qed

text \<open>
  Once a stream has started, a context overflow does count against the model:
  the relay records a failure for every retryable error, also for the category that the failover
  loop spares.
\<close>

theorem stream_context_overflow_penalised:
  assumes "relay_stream env cat s cx rw first (Cut (ProviderExc err) # items) = Inr (out, es)"
    and "pe_retryable err" and "pe_category err = CONTEXT_EXCEEDED"
    and "find_model (rw_tables rw) (p_id (cx_pick cx)) = Some m"
  shows "\<exists>st \<in> set (writes_of es). marks_failure (p_id (cx_pick cx)) st"
  using assms
  by (auto simp: relay_stream_def case_prod_beta sbind_Inr Let_def relay_finish_def mark_failure_def marks_failure_def)

theorem stream_context_overflow_penalised_witness:
  "\<exists>out es. relay_stream (px_py example_px) categorize_openai_compatible_error default_settings example_cx example_rw
     ''data: x'' [Cut (ProviderExc (ProviderRetryableError ''too long'' CONTEXT_EXCEEDED None None))] = Inr (out, es)
     \<and> (\<exists>st \<in> set (writes_of es). marks_failure ''m1'' st)"
proof -
  let ?err = "ProviderRetryableError ''too long'' CONTEXT_EXCEEDED None None"
  have "parse_stream_event (px_py example_px) ''data: x'' = (None, False)"
    by (simp add: parse_stream_event_def example_px_def py_splitlines_def is_line_break_def code_def py_startswith_def
        py_strip_def py_lstrip_def chr_isspace_def)
  then obtain out es where run: "relay_stream (px_py example_px) categorize_openai_compatible_error default_settings
      example_cx example_rw ''data: x'' [Cut (ProviderExc ?err)] = Inr (out, es)"
    by (simp add: relay_stream_def observe_payload_def case_prod_beta Let_def)
  have "find_model (rw_tables example_rw) (p_id (cx_pick example_cx)) = Some (example_model ''m1'' 40)"
    by (simp add: example_rw_def example_cx_def example_pick_def)
  from stream_context_overflow_penalised [OF run _ _ this] run show ?thesis
    by (auto simp: example_cx_def example_pick_def)
qed

section \<open>From the request to the providers\<close>

text \<open>
  C1 (safety). End to end: a request leaves a trace of a provider attempt only if the gateway was
  ready, the caller was authenticated (when authentication is on), the request was accepted, and
  the model tried was at selection time an active, healthy, cooled-down row with the requested
  capabilities.
\<close>

theorem attempts_are_authorised_and_eligible:
  assumes "chat_completions px ae ready cw r ths = ((rep, es), ths')" and "l \<in> set (logs_of es)"
  shows "ready
    \<and> (\<not> au_enabled (ae_state ae)
       \<or> (\<exists>token. hr_authorization r = Some (''Bearer '' @ token) \<and> credentials_match ae token = Inr True))
    \<and> (\<exists>req prefs m. chat_request px ready r = Inr (req, prefs) \<and> m \<in> set (t_models (cw_tables cw))
         \<and> m_id m = l_selected_model_id l \<and> m_provider_id m = l_provider_id l
         \<and> eligible (cw_now cw) (effective_requirements req prefs) m)"
proof -
  obtain a ths1 where auth: "check_gateway_auth ae (cw_clock cw) (hr_host r) (hr_authorization r) ths = (a, ths1)"
    by fastforce
  from assms auth obtain u req prefs where a: "a = Inr u" and rq: "chat_request px ready r = Inr (req, prefs)"
    and run: "route_and_call px cw req prefs = (rep, es)"
    by (auto simp: chat_completions_def split: sum.splits)
  have "ready" using rq by (auto simp: chat_request_def readiness_guard_def sbind_Inr split: if_splits)
  moreover have "\<exists>token. hr_authorization r = Some (''Bearer '' @ token) \<and> credentials_match ae token = Inr True"
    if "au_enabled (ae_state ae)"
    using accepted_facts [OF that] auth a by (cases u) blast
  moreover obtain ps where
    pick: "pick_candidates (cw_tables cw) (cw_now cw) (px_tok px) req prefs
       (ranking_fallback_model (px_settings px)) (routing_max_attempts (px_settings px)) = Inr ps"
    and loop: "chat_loop px req (cw_request_id cw) (cw_attempts cw) 0 None True ps = (rep, es)"
    using run assms(2) by (auto simp: route_and_call_def split: sum.splits routing_error.splits)
  from assms(2) obtain k where k: "k < length (logs_of es)" "logs_of es ! k = l" by (auto simp: in_set_conv_nth)
  with chat_loop_logs [OF loop] have row: "attempt_row (cw_request_id cw) k (ps ! k) l" "ps ! k \<in> set ps" by auto
  from pick_row [OF pick row(2)] obtain m where m: "m \<in> set (t_models (cw_tables cw))"
    "ps ! k = pick_of (serialize_candidate m)" "eligible (cw_now cw) (effective_requirements req prefs) m" by blast
  with row(1) have "m_id m = l_selected_model_id l" "m_provider_id m = l_provider_id l"
    by (simp_all add: attempt_row_def pick_of_def serialize_candidate_def)
  ultimately show ?thesis using rq m by blast
qed

definition chat_px :: proxy_env where
  "chat_px = example_px\<lparr>px_py := (px_py example_px)\<lparr>env_loads := (\<lambda>b. Some (JObj [(''messages'', JNull)]))\<rparr>,
     px_settings := default_settings\<lparr>routing_enable_request_preference_headers := False\<rparr>\<rparr>"

definition chat_http :: http_request where
  "chat_http = \<lparr>hr_host = None, hr_authorization = Some ''Bearer k3y'', hr_content_length = None, hr_preference = None,
     hr_max_latency_ms = None, hr_min_context = None, hr_chunks = [''{}'']\<rparr>"

definition chat_env :: chat_world where
  "chat_env = \<lparr>cw_clock = 5, cw_tables = healthy_tables, cw_now = 100, cw_request_id = ''r'',
     cw_attempts = example_world StopIter (Raises StopIter)\<rparr>"

definition open_auth :: auth_env where
  "open_auth = example_auth_env\<lparr>ae_state := (ae_state example_auth_env)\<lparr>au_enabled := False\<rparr>\<rparr>"

lemma chat_px_fields:
  "px_tok chat_px = no_tokenizers" "routable (px_registry chat_px) (p_provider_id (pick_of (serialize_candidate (example_model i r))))"
  "routable (px_registry chat_px) (p_provider_id (example_pick j))"
  "gateway_max_request_body_bytes (px_settings chat_px) = 10485760" "routing_max_attempts (px_settings chat_px) = 3"
  "\<not> routing_enable_request_preference_headers (px_settings chat_px)"
  "ranking_fallback_model (px_settings chat_px) = ''openrouter/openrouter/free''"
  by (simp_all add: chat_px_def example_px_def default_settings_def post_init_def field_defaults_def Let_def
      pick_of_def serialize_candidate_def example_model_def example_pick_def)

lemma chat_request_ok: "chat_request chat_px True chat_http = Inr (example_request ''auto'', None)"
proof -
  have "read_chat_payload (px_py chat_px) 10485760 chat_http = Inr [(''messages'', JNull)]"
    by (simp add: read_chat_payload_def chat_http_def declared_too_large_def)
      (simp add: chat_px_def)
  moreover have "parse_requirements no_tokenizers [(''messages'', JNull)] = Inr (example_request ''auto'')"
    by (simp add: parse_requirements_def dict_get_def jget_def request_contains_vision_def py_or_def example_request_def)
  ultimately show ?thesis
    by (simp add: chat_request_def readiness_guard_def chat_px_fields parse_routing_preferences_def)
qed

lemma chat_pick:
  "pick_candidates healthy_tables 100 no_tokenizers (example_request ''auto'') None ''openrouter/openrouter/free'' 3 =
   Inr [pick_of (serialize_candidate (example_model ''m2'' 70)), pick_of (serialize_candidate (example_model ''m1'' 40))]"
  by (simp add: routing_eval healthy_tables_def)

lemma chat_loop_logs_first_failure:
  assumes "routable (px_registry px) (p_provider_id p)"
    and "candidate_token_observation (px_tok px) (ai_tables (world 0)) req p = Inr obs"
    and "attempt_fails_with px req (world 0) err"
  shows "\<exists>rep es. chat_loop px req rid world 0 None True (p # ps) = (rep, es) \<and> logs_of es \<noteq> []"
proof -
  let ?cx = "\<lparr>cx_request_id = rid, cx_req = req, cx_pick = p, cx_index = 0, cx_observation = obs\<rparr>"
  from run_attempt_fails [of px ?cx "world 0" err] assms(3) obtain es where
    run: "run_attempt px ?cx (world 0) = (Failed err, es)" by auto
  from run_attempt_logs [OF run] have "logs_of es \<noteq> []" by auto
  then show ?thesis
    by (simp add: chat_loop_attempt [where world = world and idx = 0, OF assms(1,2) run] case_prod_beta
        del: chat_loop.simps(2))
qed

lemma chat_logs:
  "\<exists>rep es. route_and_call chat_px chat_env (example_request ''auto'') None = (rep, es) \<and> logs_of es \<noteq> []"
proof -
  let ?w = "example_world StopIter (Raises StopIter)" and ?p = "pick_of (serialize_candidate (example_model ''m2'' 70))"
  obtain obs where o: "candidate_token_observation (px_tok chat_px) (ai_tables (?w 0)) (example_request ''auto'') ?p = Inr obs"
    using example_observation unfolding chat_px_fields by blast
  have "attempt_fails_with chat_px (example_request ''auto'') (?w 0) (unavailable ''provider stream ended before first event'')"
    by (simp add: attempt_fails_with_def provider_answer_def example_world_def example_input_def)
  from chat_loop_logs_first_failure [where world = ?w, OF chat_px_fields(2) o this] show ?thesis
    by (simp add: route_and_call_def chat_env_def chat_px_fields chat_pick del: chat_loop.simps(2))
qed

theorem attempts_are_authorised_and_eligible_witness:
  "\<exists>rep es ths' l. chat_completions chat_px open_auth True chat_env chat_http [] = ((rep, es), ths')
     \<and> l \<in> set (logs_of es) \<and> l_selected_model_id l \<in> m_id ` set (t_models healthy_tables)"
proof -
  obtain rep es where r: "route_and_call chat_px chat_env (example_request ''auto'') None = (rep, es)" "logs_of es \<noteq> []"
    using chat_logs by blast
  have run: "chat_completions chat_px open_auth True chat_env chat_http [] = ((rep, es), [])"
    by (simp add: chat_completions_def check_gateway_auth_def open_auth_def chat_request_ok r(1))
  from r(2) have l: "hd (logs_of es) \<in> set (logs_of es)" by simp
  from attempts_are_authorised_and_eligible [OF run l] have
    "l_selected_model_id (hd (logs_of es)) \<in> m_id ` set (t_models healthy_tables)"
    by (force simp: chat_env_def)
  with run l show ?thesis by blast
qed

section \<open>What the writer makes of a request's log\<close>

lemma chat_loop_requested_model:
  assumes "chat_loop px req rid world idx le ac ps = (r, es)" and "l \<in> set (logs_of es)"
  shows "l_client_requested_model l = rr_requested_model req"
  using assms
proof (induction ps arbitrary: idx le ac r es)
  case (Cons p ps)
  show ?case
  proof (cases "routable (px_registry px) (p_provider_id p)
      \<and> (\<exists>obs. candidate_token_observation (px_tok px) (ai_tables (world idx)) req p = Inr obs)")
    case False
    with Cons.prems have "es = []" by (auto split: if_splits sum.splits)
    with Cons.prems show ?thesis by simp
  next
    case True
    then obtain obs where known: "routable (px_registry px) (p_provider_id p)"
      and obs: "candidate_token_observation (px_tok px) (ai_tables (world idx)) req p = Inr obs" by blast
    define cx where "cx = \<lparr>cx_request_id = rid, cx_req = req, cx_pick = p, cx_index = idx, cx_observation = obs\<rparr>"
    obtain v es1 where run: "run_attempt px cx (world idx) = (v, es1)" by fastforce
    have own: "l_client_requested_model l = rr_requested_model req" if "l \<in> set (logs_of es1)"
    proof (cases "provider_answer px (cx_req cx) (world idx)")
      case (Inl e)
      with run have "handle_exn (px_settings px) cx (world idx) e = (v, es1)" by (simp add: run_attempt_def)
      from handle_exn_logs [OF this] that show ?thesis by (auto simp: failure_log_def base_log_def cx_def)
    next
      case (Inr a)
      with run that show ?thesis
        by (cases a) (auto simp: run_attempt_def success_log_def base_log_def cx_def)
    qed
    note step = chat_loop_attempt [where world = world and idx = idx, OF known obs run [unfolded cx_def], of le ac ps]
    from Cons.prems(2) consider "l \<in> set (logs_of es1)" | "l \<in> set (logs_of es)" "l \<notin> set (logs_of es1)" by blast
    then show ?thesis
    proof cases
      case 1
      then show ?thesis by (rule own)
    next
      case 2
      then obtain err where v: "v = Failed err"
        using Cons.prems(1) step by (cases v) (auto simp del: chat_loop.simps)
      obtain r2 es2 where rec: "chat_loop px req rid world (Suc idx) (Some err)
          (ac \<and> pe_category err = CONTEXT_EXCEEDED) ps = (r2, es2)" by fastforce
      with Cons.prems(1) step v have "es = es1 @ es2" by (simp del: chat_loop.simps)
      with 2 have "l \<in> set (logs_of es2)" by simp
      from Cons.IH [OF rec this] show ?thesis .
    qed
  qed
qed simp

text \<open>
  C40 (error). A request can stop all writes for good. A JSON array or object as \<open>model\<close> is
  accepted by the router when it is empty; every row logged for such a request cannot be bound,
  so the writer thread ends when it reaches the row, and from then on, whatever is submitted,
  the tables never change again.
\<close>

theorem unbindable_model_stops_writer:
  assumes "rr_requested_model req = JList [] \<or> rr_requested_model req = JObj []"
    and "chat_loop px req rid world 0 None True ps = (r, es)" and "l \<in> set (logs_of es)"
    and "running db" and "w_queue db = []" and "w_started db"
    and "enqueue_low (InsertLog l) db = (True, db1)" and "writer_step db1 = Some db2" and "db_reach ok db2 db3"
  shows "\<not> w_alive db3 \<and> db_tables db3 = db_tables db"
proof -
  have "exec_stmt (InsertLog l) t = None" for t
    using assms(1) chat_loop_requested_model [OF assms(2,3)] by (auto simp: log_bindable_def)
  moreover have db1: "w_queue db1 = [Some \<lparr>wt_stmt = InsertLog l, wt_low = True\<rparr>]" "w_alive db1" "w_started db1"
      "db_tables db1 = db_tables db"
    using assms(4-7) by (auto simp: enqueue_low_def push_def running_def Let_def split: if_splits)
  ultimately obtain db2' where "writer_step db1 = Some db2'" "\<not> w_alive db2'" "db_tables db2' = db_tables db1"
    using writer_step_raises [OF db1(2,1)] by auto
  moreover have "w_started db2"
    using assms(8) db1(3) by (auto simp: writer_step_def acknowledge_def split: if_splits list.splits option.splits)
  ultimately show ?thesis using dead_forever [OF assms(9)] assms(8) db1(4) by simp
qed

definition bad_request :: routing_requirements where
  "bad_request = (example_request ''auto'')\<lparr>rr_requested_model := JList []\<rparr>"

lemma bad_request_logs:
  "\<exists>rep es l. chat_loop chat_px bad_request ''r'' (example_world StopIter (Raises StopIter)) 0 None True
     [example_pick ''m1''] = (rep, es) \<and> l \<in> set (logs_of es)"
proof -
  let ?w = "example_world StopIter (Raises StopIter)"
  have "\<exists>obs. candidate_token_observation no_tokenizers t bad_request p = Inr obs" for t p
    by (simp add: candidate_token_observation_def estimate_required_tokens_def bad_request_def example_request_def
        chat_messages_def Let_def)
  then obtain obs where o: "candidate_token_observation (px_tok chat_px) (ai_tables (?w 0)) bad_request (example_pick ''m1'') = Inr obs"
    unfolding chat_px_fields by blast
  have "\<not> rr_requires_streaming bad_request" by (simp add: bad_request_def)
  then have "attempt_fails_with chat_px bad_request (?w 0) (unavailable ''provider stream ended before first event'')"
    by (simp add: attempt_fails_with_def provider_answer_def example_world_def example_input_def)
  from chat_loop_logs_first_failure [where world = ?w, OF chat_px_fields(3) o this] show ?thesis
    by (metis list.set_sel(1))
qed

definition started_db :: database where
  "started_db = writer_start (writer_init True 10 healthy_tables)"

theorem unbindable_model_stops_writer_witness:
  "\<exists>l db1 db2. enqueue_low (InsertLog l) started_db = (True, db1) \<and> writer_step db1 = Some db2
     \<and> \<not> w_alive db2 \<and> db_tables db2 = healthy_tables"
proof -
  obtain rep es l where run: "chat_loop chat_px bad_request ''r'' (example_world StopIter (Raises StopIter)) 0 None True
     [example_pick ''m1''] = (rep, es)" and l: "l \<in> set (logs_of es)"
    using bad_request_logs by blast
  have model: "rr_requested_model bad_request = JList [] \<or> rr_requested_model bad_request = JObj []"
    by (simp add: bad_request_def)
  have db: "running started_db" "w_queue started_db = []" "w_started started_db" "db_tables started_db = healthy_tables"
    by (simp_all add: started_db_def running_def writer_start_def writer_init_def writer_defs
        HIGH_PRIORITY_QUEUE_RESERVE_def)
  obtain db1 where db1: "enqueue_low (InsertLog l) started_db = (True, db1)"
    by (simp add: enqueue_low_def started_db_def writer_start_def writer_init_def writer_defs
        HIGH_PRIORITY_QUEUE_RESERVE_def Let_def)
  have "w_queue db1 = [Some \<lparr>wt_stmt = InsertLog l, wt_low = True\<rparr>]" "w_alive db1"
    using db1 db by (auto simp: enqueue_low_def push_def running_def Let_def split: if_splits)
  then obtain db2 where db2: "writer_step db1 = Some db2"
    by (cases "exec_stmt (InsertLog l) (db_tables db1)") (simp_all add: writer_step_def)
  from unbindable_model_stops_writer [OF model run l db(1-3) db1 db2 db_reach.refl] db(4) db1 db2 show ?thesis by auto
qed

end
