(* ===== verification/FL_Streams.thy ===== *)
theory FL_Streams
  imports FL_Listing FL_Sse FL_Endpoint
begin

text \<open>
  The calls of the adapters over HTTP: \<open>chat_completions\<close>, \<open>stream_chat_completions\<close> and \<open>probe\<close> of
  \<open>src/providers/openai_compatible.py\<close> and \<open>src/providers/openrouter.py\<close>, with the requests they send.
  What the server does is a function of the request (\<open>upstream_http\<close>): for a plain call the outcome of
  every attempt, for a stream the failure of the send or a status with the body in chunks.

  The last section joins the two ends of a stream: the bytes a provider writes, the splitter of the
  adapter, the choice of the first event by the failover loop and the relay to the client.
\<close>

section \<open>Requests\<close>

record upstream_request =
  uq_method :: string
  uq_url :: string
  uq_headers :: "(string \<times> string) list"
  uq_body :: "(string, json) dict option"
  uq_timeout_seconds :: "int option"

definition openai_headers :: "adapter \<Rightarrow> (string \<times> string) list" where
  "openai_headers ad = [(''Content-Type'', ''application/json''), (''Authorization'', ''Bearer '' @ ad_api_key ad)]"

definition openrouter_headers :: "adapter \<Rightarrow> (string \<times> string) list" where
  "openrouter_headers ad = (''Content-Type'', ''application/json'') #
     (if ad_api_key ad = [] then [] else [(''Authorization'', ''Bearer '' @ ad_api_key ad)])"

definition chat_body :: "(string, json) dict \<Rightarrow> string \<Rightarrow> (string, json) dict" where
  "chat_body request_body model = AList.update ''model'' (JStr model) request_body"

definition stream_body :: "(string, json) dict \<Rightarrow> string \<Rightarrow> (string, json) dict" where
  "stream_body request_body model = AList.update ''stream'' (JBool True) (chat_body request_body model)"

definition post_chat ::
  "adapter \<Rightarrow> (string \<times> string) list \<Rightarrow> (string, json) dict \<Rightarrow> int option \<Rightarrow> upstream_request" where
  "post_chat ad headers body timeout_seconds =
    \<lparr>uq_method = ''POST'', uq_url = ad_api_base ad @ ''/chat/completions'', uq_headers = headers,
     uq_body = Some body, uq_timeout_seconds = timeout_seconds\<rparr>"

text \<open>
  The server: the outcome of each attempt of a plain call, and of the one attempt of a stream. The
  text of an exception of the HTTP client comes with it.
\<close>

datatype stream_upstream =
    SendFails string
  | Responds int "bytes list" stream_end string

record upstream_http =
  up_call :: "upstream_request \<Rightarrow> nat \<Rightarrow> upstream"
  up_stream :: "upstream_request \<Rightarrow> stream_upstream"

section \<open>Plain calls\<close>

definition get_models :: "adapter \<Rightarrow> (string \<times> string) list \<Rightarrow> int \<Rightarrow> upstream_request" where
  "get_models ad headers timeout_seconds =
    \<lparr>uq_method = ''GET'', uq_url = ad_api_base ad @ ''/models'', uq_headers = headers, uq_body = None,
     uq_timeout_seconds = Some timeout_seconds\<rparr>"

definition openai_discover :: "py_env \<Rightarrow> int \<Rightarrow> upstream_http \<Rightarrow> adapter \<Rightarrow> fetch_failure + discovered list" where
  "openai_discover env limit up ad =
    openai_discover_models env ad (fst (request_with_retries env (ad_name ad) 3 limit
      (up_call up (get_models ad (openai_headers ad) 15))))"

definition openrouter_discover :: "py_env \<Rightarrow> int \<Rightarrow> upstream_http \<Rightarrow> adapter \<Rightarrow> fetch_failure + discovered list" where
  "openrouter_discover env limit up ad =
    openrouter_discover_models env ad (fst (openrouter_request_with_retries env limit
      (up_call up (get_models ad (openrouter_headers ad) 15))))"

text \<open>A request goes to the base of its adapter, and carries at most its key.\<close>

definition own_request :: "adapter \<Rightarrow> upstream_request \<Rightarrow> bool" where
  "own_request ad rq = (take (length (ad_api_base ad)) (uq_url rq) = ad_api_base ad
     \<and> list_all (\<lambda>(name, v). name = ''Authorization'' \<longrightarrow> v = ''Bearer '' @ ad_api_key ad) (uq_headers rq))"

lemma own_requests [simp]:
  "own_request ad (get_models ad (openai_headers ad) n)" "own_request ad (get_models ad (openrouter_headers ad) n)"
  "own_request ad (post_chat ad (openai_headers ad) b t)" "own_request ad (post_chat ad (openrouter_headers ad) b t)"
  by (simp_all add: own_request_def get_models_def post_chat_def openai_headers_def openrouter_headers_def)

definition openai_chat ::
  "py_env \<Rightarrow> int \<Rightarrow> upstream_http \<Rightarrow> adapter \<Rightarrow> (string, json) dict \<Rightarrow> string \<Rightarrow> fetch_failure + chat_answer" where
  "openai_chat env limit up ad request_body model =
    openai_chat_completions env ad (fst (request_with_retries env (ad_name ad) 3 limit
      (up_call up (post_chat ad (openai_headers ad) (chat_body request_body model) (Some 60)))))"

definition probe_body :: "int \<Rightarrow> (string, json) dict" where
  "probe_body max_tokens =
    [(''messages'', JList [JObj [(''role'', JStr ''user''), (''content'', JStr ''ping'')]]),
     (''max_tokens'', JInt max_tokens), (''stream'', JBool False)]"

definition openai_probe ::
  "py_env \<Rightarrow> int \<Rightarrow> upstream_http \<Rightarrow> adapter \<Rightarrow> string \<Rightarrow> int \<Rightarrow> int \<Rightarrow> fetch_failure + chat_answer" where
  "openai_probe env limit up ad model max_tokens timeout_seconds =
    sbind (assert_api_key ad) (\<lambda>u.
    sbind (response_body (fst (request_with_retries env (ad_name ad) 3 limit
        (up_call up (post_chat ad (openai_headers ad) ((''model'', JStr model) # probe_body max_tokens)
          (Some (max timeout_seconds 1))))))) (openai_chat_result env))"

text \<open>
  The prompt the development stub of OpenRouter echoes:
  \<open>request_body.get("messages", [{}])[-1].get("content", "")\<close>.
\<close>

definition py_last :: "json \<Rightarrow> py_error + json" where
  "py_last v = (case v of
       JList xs \<Rightarrow> (if xs = [] then Inl IndexError else Inr (last xs))
     | JStr s \<Rightarrow> (if s = [] then Inl IndexError else Inr (JStr [last s]))
     | JObj kvs \<Rightarrow> Inl KeyError
     | _ \<Rightarrow> Inl TypeError)"

definition stub_prompt :: "(string, json) dict \<Rightarrow> py_error + json" where
  "stub_prompt request_body =
    sbind (py_last (dict_get request_body ''messages'' (JList [JObj []]))) (\<lambda>message.
      py_get message ''content'' (JStr []))"

definition stub_echo :: "py_env \<Rightarrow> json \<Rightarrow> json" where
  "stub_echo env prompt = JStr (''Echo: '' @ py_str (env_repr env) prompt)"

definition stub_completion :: "py_env \<Rightarrow> string \<Rightarrow> json \<Rightarrow> json" where
  "stub_completion env model prompt = JObj
    [(''id'', JStr ''chatcmpl-freelunch-stub''), (''object'', JStr ''chat.completion''), (''model'', JStr model),
     (''choices'', JList [JObj
       [(''index'', JInt 0),
        (''message'', JObj [(''role'', JStr ''assistant''), (''content'', stub_echo env prompt)]),
        (''finish_reason'', JStr ''stop'')]])]"

definition openrouter_key_missing :: provider_error where
  "openrouter_key_missing = ProviderFatalError ''openrouter api key is required'' AUTH_ERROR (Some 401) None"

definition openrouter_chat ::
  "py_env \<Rightarrow> int \<Rightarrow> upstream_http \<Rightarrow> adapter \<Rightarrow> (string, json) dict \<Rightarrow> string \<Rightarrow> fetch_failure + chat_answer" where
  "openrouter_chat env limit up ad request_body model =
    (if ad_api_key ad = [] then
       (if \<not> ad_inference_available ad then Inl (FProvider openrouter_key_missing)
        else sbind (from_py (stub_prompt request_body)) (\<lambda>prompt.
          Inr \<lparr>cr_payload = stub_completion env model prompt, cr_prompt_tokens = JNull, cr_completion_tokens = JNull,
            cr_total_tokens = JNull\<rparr>))
     else sbind (response_body (fst (openrouter_request_with_retries env limit
         (up_call up (post_chat ad (openrouter_headers ad) (chat_body request_body model) (Some 60))))))
       (\<lambda>body. if limit < int (length body) then Inl (FProvider (unavailable ''provider response exceeded size limit''))
          else openrouter_chat_result env body))"

definition openrouter_probe ::
  "py_env \<Rightarrow> int \<Rightarrow> upstream_http \<Rightarrow> adapter \<Rightarrow> string \<Rightarrow> int \<Rightarrow> fetch_failure + chat_answer" where
  "openrouter_probe env limit up ad model max_tokens = openrouter_chat env limit up ad (probe_body max_tokens) model"

section \<open>Opening a stream\<close>

text \<open>An exception of the HTTP client while the stream is opened is not translated.\<close>

datatype open_failure = OpenProvider provider_error | OpenPython py_error | OpenHttp string

definition open_of :: "fetch_failure + 'a \<Rightarrow> open_failure + 'a" where
  "open_of r = (case r of
       Inl (FProvider e) \<Rightarrow> Inl (OpenProvider e)
     | Inl (FPython e) \<Rightarrow> Inl (OpenPython e)
     | Inr x \<Rightarrow> Inr x)"

definition error_body :: "int \<Rightarrow> bytes list \<Rightarrow> stream_end \<Rightarrow> string \<Rightarrow> open_failure + bytes" where
  "error_body limit chunks ending exc_text = (case read_bounded limit 0 chunks of
       None \<Rightarrow> Inl (OpenProvider (unavailable ''provider response exceeded size limit''))
     | Some body \<Rightarrow> (case ending of Finished \<Rightarrow> Inr body | _ \<Rightarrow> Inl (OpenHttp exc_text)))"

text \<open>The part both adapters share: a body below status 400 is left to the event splitter.\<close>

definition open_stream ::
  "int \<Rightarrow> (int \<Rightarrow> bytes \<Rightarrow> py_error + provider_error) \<Rightarrow> stream_upstream
   \<Rightarrow> open_failure + bytes list \<times> stream_end" where
  "open_stream limit raise_for u = (case u of
       SendFails exc_text \<Rightarrow> Inl (OpenHttp exc_text)
     | Responds status_code chunks ending exc_text \<Rightarrow>
         if status_code \<ge> 400 then
           sbind (error_body limit chunks ending exc_text) (\<lambda>raw_body. case raise_for status_code raw_body of
               Inl e \<Rightarrow> Inl (OpenPython e)
             | Inr e \<Rightarrow> Inl (OpenProvider e))
         else Inr (chunks, ending))"

text \<open>The items an opened stream yields to the caller; \<open>exc_text\<close> is the text of a Python exception.\<close>

definition run_items :: "('e \<Rightarrow> exn) \<Rightarrow> bytes list \<times> ('e + unit) \<Rightarrow> stream_item list" where
  "run_items exn_of r = (case r of (evs, ending) \<Rightarrow>
     map Event evs @ (case ending of Inl e \<Rightarrow> [Broken (exn_of e)] | Inr u \<Rightarrow> []))"

definition openai_stream ::
  "py_env \<Rightarrow> int \<Rightarrow> int \<Rightarrow> upstream_http \<Rightarrow> adapter \<Rightarrow> (string, json) dict \<Rightarrow> string
   \<Rightarrow> open_failure + stream_item list" where
  "openai_stream env limit event_limit up ad request_body model =
    sbind (open_of (assert_api_key ad)) (\<lambda>u.
    sbind (open_stream limit (\<lambda>status_code raw_body. Inr (raise_for_response env (ad_name ad) (ad_categorize_error ad)
          status_code (extract_error_details env raw_body)))
        (up_stream up (post_chat ad (openai_headers ad) (stream_body request_body model) None)))
      (\<lambda>(chunks, ending). Inr (run_items ProviderExc (event_stream env event_limit chunks ending))))"

text \<open>The stub stream reads the prompt when its first event is asked for, so its error comes then.\<close>

definition stub_chunk :: "py_env \<Rightarrow> string \<Rightarrow> json \<Rightarrow> json" where
  "stub_chunk env model prompt = JObj
    [(''id'', JStr ''chatcmpl-freelunch-stub''), (''object'', JStr ''chat.completion.chunk''), (''model'', JStr model),
     (''choices'', JList [JObj
       [(''index'', JInt 0), (''delta'', JObj [(''content'', stub_echo env prompt)]), (''finish_reason'', JStr ''stop'')]])]"

definition stub_stream :: "py_env \<Rightarrow> string \<Rightarrow> (string, json) dict \<Rightarrow> bytes list \<times> (py_error + unit)" where
  "stub_stream env model request_body = (case stub_prompt request_body of
       Inl e \<Rightarrow> ([], Inl e)
     | Inr prompt \<Rightarrow>
         ([''data: '' @ json_dumps_spaced (env_repr env) (stub_chunk env model prompt) @ [LF, LF], DONE_EVENT], Inr ()))"

definition openrouter_stream ::
  "py_env \<Rightarrow> (py_error \<Rightarrow> string) \<Rightarrow> int \<Rightarrow> int \<Rightarrow> upstream_http \<Rightarrow> adapter \<Rightarrow> (string, json) dict \<Rightarrow> string
   \<Rightarrow> open_failure + stream_item list" where
  "openrouter_stream env exc_text limit event_limit up ad request_body model =
    (if ad_api_key ad = [] then
       (if \<not> ad_inference_available ad then Inl (OpenProvider openrouter_key_missing)
        else Inr (run_items (\<lambda>e. OtherExc (exc_text e)) (stub_stream env model request_body)))
     else sbind (open_stream limit (openrouter_raise_for_response env)
         (up_stream up (post_chat ad (openrouter_headers ad) (stream_body request_body model) None)))
       (\<lambda>(chunks, ending). Inr (run_items ProviderExc (event_stream env event_limit chunks ending))))"

text \<open>What the caller of a stream sees.\<close>

definition open_exn :: "(py_error \<Rightarrow> string) \<Rightarrow> open_failure \<Rightarrow> exn" where
  "open_exn exc_text f = (case f of
       OpenProvider e \<Rightarrow> ProviderExc e
     | OpenPython e \<Rightarrow> OtherExc (exc_text e)
     | OpenHttp m \<Rightarrow> OtherExc m)"

definition stream_outcome :: "(py_error \<Rightarrow> string) \<Rightarrow> open_failure + stream_item list \<Rightarrow> provider_outcome" where
  "stream_outcome exc_text r = (case r of Inl f \<Rightarrow> Raises (open_exn exc_text f) | Inr items \<Rightarrow> Stream items)"

text \<open>
  No operation of an adapter asks anything else: servers that agree on its own requests are the same
  to it.
\<close>

lemma adapter_confined:
  assumes "\<And>rq. own_request ad rq \<Longrightarrow> up_call up rq = up_call up' rq \<and> up_stream up rq = up_stream up' rq"
  shows "openai_discover env limit up ad = openai_discover env limit up' ad"
    and "openrouter_discover env limit up ad = openrouter_discover env limit up' ad"
    and "openai_chat env limit up ad body model = openai_chat env limit up' ad body model"
    and "openrouter_chat env limit up ad body model = openrouter_chat env limit up' ad body model"
    and "openai_probe env limit up ad model k n = openai_probe env limit up' ad model k n"
    and "openrouter_probe env limit up ad model k = openrouter_probe env limit up' ad model k"
    and "openai_stream env limit event_limit up ad body model = openai_stream env limit event_limit up' ad body model"
    and "openrouter_stream env tx limit event_limit up ad body model = openrouter_stream env tx limit event_limit up' ad body model"
  using assms
  by (simp_all add: openai_discover_def openrouter_discover_def openai_chat_def openrouter_chat_def openai_probe_def
      openrouter_probe_def openai_stream_def openrouter_stream_def)

text \<open>With a key, both adapters make the same stream of an accepted response.\<close>

lemma same_stream:
  assumes "ad_api_key ad \<noteq> []" and "up_stream up (post_chat ad (openai_headers ad) (stream_body body model) None)
      = Responds status_code chunks ending m" and "status_code < 400"
  shows "openrouter_stream env tx limit n up ad body model = openai_stream env limit n up ad body model"
  using assms
  by (simp add: openrouter_stream_def openai_stream_def assert_api_key_def open_of_def open_stream_def
      openai_headers_def openrouter_headers_def)

section \<open>From the wire to the client\<close>

text \<open>An event that reports nothing wrong: no payload, an empty one, or an object without an error.\<close>

definition quiet_event :: "py_env \<Rightarrow> categorizer \<Rightarrow> bytes \<Rightarrow> bool" where
  "quiet_event env cat ev = (case fst (parse_stream_event env ev) of
       None \<Rightarrow> True
     | Some v \<Rightarrow> \<not> py_truthy v
         \<or> is_jobj v \<and> provider_error_from_error_payload env cat ''provider stream error'' v = Inr None)"

text \<open>The stream as the relay meets it while the client stays.\<close>

fun relayed :: "stream_item \<Rightarrow> relay_item" where
  "relayed (Event ev) = Item ev False"
| "relayed (Broken e) = Cut e"

lemma observe_quiet:
  assumes "quiet_event env cat ev"
  shows "\<exists>st'. observe_payload env cat (fst (parse_stream_event env ev)) st = Inr st'
    \<and> rs_done st' = rs_done st \<and> rs_error st' = rs_error st"
proof (cases "fst (parse_stream_event env ev)")
  case (Some v)
  with assms have "\<not> py_truthy v \<or> is_jobj v \<and> provider_error_from_error_payload env cat ''provider stream error'' v = Inr None"
    by (simp add: quiet_event_def)
  with Some show ?thesis
    by (cases v) (auto simp: observe_payload_def Let_def split: json.split)
qed (simp add: observe_payload_def)

lemma relay_loop_quiet:
  assumes "list_all (\<lambda>ev. quiet_event env cat ev \<and> int (length ev) \<le> n) evs" and "rs_error st = None"
  shows "\<exists>st'. relay_loop env cat tx n (map (\<lambda>ev. Item ev False) evs) st = (evs, st')
    \<and> rs_error st' = None \<and> rs_done st' = (rs_done st \<or> list_ex (is_done_event env) evs)"
  using assms
proof (induction evs arbitrary: st)
  case (Cons ev evs)
  let ?st1 = "st\<lparr>rs_done := rs_done st \<or> is_done_event env ev\<rparr>"
  obtain st2 where ob: "observe_payload env cat (fst (parse_stream_event env ev)) ?st1 = Inr st2"
    and st2: "rs_done st2 = (rs_done st \<or> is_done_event env ev)" "rs_error st2 = None"
    using observe_quiet [of env cat ev ?st1] Cons.prems by auto
  obtain st3 where "relay_loop env cat tx n (map (\<lambda>ev. Item ev False) evs) st2 = (evs, st3)"
    "rs_error st3 = None" "rs_done st3 = (rs_done st2 \<or> list_ex (is_done_event env) evs)"
    using Cons.IH [of st2] Cons.prems(1) st2(2) by auto
  with ob st2 Cons.prems(1) show ?case
    by (auto simp: case_prod_beta is_done_event_def [symmetric])
qed simp

lemma length_join: "ls \<noteq> [] \<Longrightarrow> int (length (join [c] ls)) = lines_size ls - 1"
  by (induction "[c]" ls rule: join.induct) simp_all

lemma length_render_event: "ls \<noteq> [] \<Longrightarrow> int (length (render_event ls)) = lines_size ls + 1"
  by (simp add: render_event_def length_join)

lemma good_event_mono: "good_event env m ls \<Longrightarrow> m \<le> n \<Longrightarrow> good_event env n ls"
  by (simp add: good_event_def)

text \<open>An accepted stream of a provider that writes its events whole.\<close>

lemma openai_stream_events:
  assumes "up_stream up (post_chat ad (openai_headers ad) (stream_body request_body model) None)
      = Responds status_code chunks Finished m" and "status_code < 400" and "ad_api_key ad \<noteq> []"
    and "list_all (good_event env n) events" and "concat chunks = wire_body crlf events" and "0 < n"
  shows "openai_stream env limit n up ad request_body model = Inr (map (\<lambda>ls. Event (render_event ls)) events)"
  using assms event_stream_roundtrip [OF assms(4-6)]
  by (simp add: openai_stream_def assert_api_key_def open_of_def open_stream_def run_items_def)

lemma good_event_pos: "good_event env n ls \<Longrightarrow> 0 < n"
proof (cases ls)
  case (Cons a as)
  assume "good_event env n ls"
  then have "int (length a) + 1 + lines_size as \<le> n" using Cons by (simp add: good_event_def)
  then show ?thesis using lines_size_nonneg [of as] by linarith
qed (simp add: good_event_def)

lemma first_event_Events:
  "\<not> is_comment_event env ev \<Longrightarrow> first_event env n (Event ev # items) =
    (if n < int (length ev) then Inl (ProviderExc event_too_large) else Inr (ev, items))"
  by simp

text \<open>The relay of a quiet stream to a client that stays: everything, the terminator once, one success.\<close>

lemma relay_stream_quiet:
  assumes "list_all (\<lambda>ev. quiet_event env cat ev \<and> int (length ev) \<le> gateway_max_sse_event_bytes s) (first # evs)"
    and "\<not> rw_gone_first rw" and "\<not> rw_gone_end rw"
  shows "\<exists>es. relay_stream env cat s cx rw first (map (\<lambda>ev. Item ev False) evs)
      = Inr ((first # evs) @ (if list_ex (is_done_event env) (first # evs) then [] else [DONE_EVENT]), es)
    \<and> (\<exists>l. logs_of es = [l] \<and> l_success l \<and> l_selected_model_id l = p_id (cx_pick cx))"
proof -
  let ?n = "gateway_max_sse_event_bytes s" and ?st0 = "relay_start\<lparr>rs_done := is_done_event env first\<rparr>"
  obtain st where ob: "observe_payload env cat (fst (parse_stream_event env first)) ?st0 = Inr st"
    and st: "rs_done st = is_done_event env first" "rs_error st = None"
    using observe_quiet [of env cat first ?st0] assms(1) by (auto simp: relay_start_def)
  obtain st' where loop: "relay_loop env cat (rw_text rw) ?n (map (\<lambda>ev. Item ev False) evs) st = (evs, st')"
    and st': "rs_error st' = None" "rs_done st' = (rs_done st \<or> list_ex (is_done_event env) evs)"
    using relay_loop_quiet [of env cat ?n evs st "rw_text rw"] assms(1) st(2) by auto
  have "relay_stream env cat s cx rw first (map (\<lambda>ev. Item ev False) evs) =
      Inr ((first # evs) @ fst (relay_finish s cx rw st'), snd (relay_finish s cx rw st'))"
    using ob loop assms(2) by (simp add: relay_stream_def case_prod_beta is_done_event_def [symmetric])
  then show ?thesis
    using st st' assms(3) by (auto simp: relay_finish_def relay_success_log_def base_log_def)
qed

definition example_stream_ad :: adapter where
  "example_stream_ad = openai_compatible_adapter ''groq'' ''k'' ''https://api.groq.com/openai/v1'' ''GROQ_API_KEY''"

text \<open>A server that answers any request with one small event, cut inside the line end.\<close>

definition example_up :: upstream_http where
  "example_up = \<lparr>up_call = (\<lambda>rq k. UTimeout),
     up_stream = (\<lambda>rq. Responds 200 [''data: {}'' @ [CR], [LF, CR], [LF]] Finished [])\<rparr>"

definition small_px :: "int \<Rightarrow> proxy_env" where
  "small_px n = example_px\<lparr>px_settings := default_settings\<lparr>gateway_max_sse_event_bytes := n\<rparr>\<rparr>"

definition example_stream_input :: "int \<Rightarrow> attempt_input" where
  "example_stream_input n = example_input (stream_outcome (\<lambda>e. []) (openai_stream (px_py (small_px n)) 1000 n example_up
     example_stream_ad [] ''m''))"

lemma example_stream_server:
  "ad_api_key example_stream_ad \<noteq> []"
  "concat [''data: {}'' @ [CR], [LF, CR], [LF]] = wire_body True [[''data: {}'']]"
  "up_stream example_up rq = Responds 200 [''data: {}'' @ [CR], [LF, CR], [LF]] Finished []"
  by (simp_all add: example_stream_ad_def openai_compatible_adapter_def wire_body_def wire_lines_def wire_line_def
      example_up_def)

lemma example_stream_facts:
  "px_py (small_px n) = \<lparr>env_loads = (\<lambda>b. None), env_loads_text = (\<lambda>b. None), env_decode_ignore = id,
     env_decode_replace = id, env_repr = (\<lambda>v. ''?'')\<rparr>"
  "gateway_max_sse_event_bytes (px_settings (small_px n)) = n"
  "good_event (px_py (small_px n)) n' [''data: {}''] \<longleftrightarrow> 9 \<le> n'"
  "\<not> is_comment_event (px_py (small_px n)) (render_event [''data: {}''])"
  "parse_stream_event (px_py (small_px n)) (render_event [''data: {}'']) = (None, False)"
  "\<not> ai_deadline_passed (example_stream_input n)"
  by (simp_all add: small_px_def example_px_def good_event_def good_line_def LF_def CR_def py_startswith_def is_comment_event_def render_event_def
      py_splitlines_def is_line_break_def code_def py_strip_def py_lstrip_def chr_isspace_def parse_stream_event_def
      example_stream_input_def example_input_def Let_def)

text \<open>
  C31 (roundtrip). From the provider's socket to the client: a server that accepts the request and
  writes well-formed events, each at least one byte below the limit and none reporting an error, is
  served whatever way the network cuts its body. The attempt succeeds, the client receives every
  event unchanged and in order, the terminator is appended exactly when the provider sent none,
  and one successful row is logged for the model.
\<close>

theorem wire_to_client:
  assumes "up_stream up (post_chat ad (openai_headers ad) (stream_body request_body model) None)
      = Responds status_code chunks Finished m" and "status_code < 400" and "ad_api_key ad \<noteq> []"
    and "concat chunks = wire_body crlf (first # events)"
    and "list_all (\<lambda>ls. good_event (px_py px) (gateway_max_sse_event_bytes (px_settings px) - 1) ls
        \<and> quiet_event (px_py px) cat (render_event ls)) (first # events)"
    and "\<not> is_comment_event (px_py px) (render_event first)"
    and "ai_outcome ai = stream_outcome tx (openai_stream (px_py px) limit
        (gateway_max_sse_event_bytes (px_settings px)) up ad request_body model)"
    and "\<not> ai_deadline_passed ai" and "\<not> rw_gone_first rw" and "\<not> rw_gone_end rw"
  shows "\<exists>rest es. run_attempt px cx ai = (Served (StreamReply cx (render_event first) rest), [])
    \<and> relay_stream (px_py px) cat (px_settings px) cx rw (render_event first) (map relayed rest)
      = Inr (map render_event (first # events)
          @ (if list_ex (is_done_event (px_py px)) (map render_event (first # events)) then [] else [DONE_EVENT]), es)
    \<and> (\<exists>l. logs_of es = [l] \<and> l_success l \<and> l_selected_model_id l = p_id (cx_pick cx))"
proof -
  let ?n = "gateway_max_sse_event_bytes (px_settings px)" and ?rest = "map (\<lambda>ls. Event (render_event ls)) events"
  have good: "list_all (good_event (px_py px) ?n) (first # events)"
    using assms(5) by (auto simp: list_all_iff intro: good_event_mono)
  then have "0 < ?n" by (auto intro: good_event_pos)
  note stream = openai_stream_events [OF assms(1-3) good assms(4) this]
  have small: "int (length (render_event ls)) \<le> ?n" if "ls \<in> set (first # events)" for ls
  proof -
    from that assms(5) have "good_event (px_py px) (?n - 1) ls" by (auto simp: list_all_iff)
    then show ?thesis by (simp add: good_event_def length_render_event)
  qed
  then have quiet: "list_all (\<lambda>ev. quiet_event (px_py px) cat ev \<and> int (length ev) \<le> ?n)
      (render_event first # map render_event events)"
    using assms(5) by (auto simp: list_all_iff)
  have items: "map (\<lambda>ev. Item ev False) (map render_event events) = map relayed ?rest" by simp
  from small [of first] assms(6-8) have "run_attempt px cx ai = (Served (StreamReply cx (render_event first) ?rest), [])"
    by (simp add: run_attempt_def provider_answer_def stream stream_outcome_def first_event_Events del: first_event.simps)
  with relay_stream_quiet [OF quiet assms(9,10), unfolded items, of cx] show ?thesis by auto
qed

theorem wire_to_client_witness:
  "\<exists>rest es. run_attempt (small_px 10) example_cx (example_stream_input 10)
      = (Served (StreamReply example_cx (''data: {}'' @ [LF, LF]) rest), [])
    \<and> relay_stream (px_py (small_px 10)) categorize_openai_compatible_error (px_settings (small_px 10)) example_cx example_rw
        (''data: {}'' @ [LF, LF]) (map relayed rest) = Inr ([''data: {}'' @ [LF, LF], DONE_EVENT], es)"
proof -
  note facts = example_stream_facts [of 10]
  have quiet: "quiet_event (px_py (small_px 10)) categorize_openai_compatible_error (render_event [''data: {}''])"
    by (simp add: quiet_event_def facts(5))
  have "\<not> rw_gone_first example_rw" "\<not> rw_gone_end example_rw" by (simp_all add: example_rw_def)
  from wire_to_client [where px = "small_px 10" and ai = "example_stream_input 10" and tx = "\<lambda>e. []" and limit = 1000
      and cx = example_cx and crlf = True and first = "[''data: {}'']" and events = "[]"
      and cat = categorize_openai_compatible_error, OF example_stream_server(3) _ example_stream_server(1,2) _ facts(4) _ facts(6) this]
  moreover have "is_done_event (px_py (small_px 10)) (render_event [''data: {}'']) = False"
    by (simp add: is_done_event_def facts(5))
  moreover have "''data: {}'' @ [LF, LF] = render_event [''data: {}'']" by (simp add: render_event_def)
  moreover have "ai_outcome (example_stream_input 10) = stream_outcome (\<lambda>e. []) (openai_stream (px_py (small_px 10)) 1000
      (gateway_max_sse_event_bytes (px_settings (small_px 10))) example_up example_stream_ad [] ''m'')"
    by (simp add: facts(2) example_stream_input_def example_input_def)
  ultimately show ?thesis using quiet by (simp add: facts(2,3)) blast
qed

text \<open>
  C32 (error). The two ends of a stream disagree by one byte about the size of an event. An event of
  exactly the limit, as the adapter counts it, passes the adapter; the gateway then finds it one
  byte too large, gives the attempt up and records a failure of the model, although the provider
  and the adapter kept to the limit.
\<close>

theorem full_size_event_refused:
  assumes "up_stream up (post_chat ad (openai_headers ad) (stream_body request_body model) None)
      = Responds status_code chunks Finished m" and "status_code < 400" and "ad_api_key ad \<noteq> []"
    and "concat chunks = wire_body crlf (first # events)"
    and "list_all (good_event (px_py px) (gateway_max_sse_event_bytes (px_settings px))) (first # events)"
    and "lines_size first = gateway_max_sse_event_bytes (px_settings px)"
    and "ai_outcome ai = stream_outcome tx (openai_stream (px_py px) limit
        (gateway_max_sse_event_bytes (px_settings px)) up ad request_body model)"
    and "\<not> ai_deadline_passed ai"
  shows "event_stream (px_py px) (gateway_max_sse_event_bytes (px_settings px)) chunks Finished
      = (map render_event (first # events), Inr ())
    \<and> fst (run_attempt px cx ai) = Failed event_too_large
    \<and> writes_of (snd (run_attempt px cx ai)) = mark_failure (px_settings px) (ai_tables ai) (ai_now ai)
        (p_id (cx_pick cx)) (pe_message event_too_large)"
proof -
  let ?n = "gateway_max_sse_event_bytes (px_settings px)"
  have pos: "0 < ?n" using assms(5) by (auto intro: good_event_pos)
  note stream = openai_stream_events [OF assms(1-3,5,4) pos]
  have "int (length (render_event first)) = ?n + 1"
    using assms(5,6) by (simp add: good_event_def length_render_event)
  then have "provider_answer px (cx_req cx) ai = Inl (ProviderExc event_too_large)"
    using assms(7,8) by (simp add: provider_answer_def stream stream_outcome_def)
  then show ?thesis
    using event_stream_roundtrip [OF assms(5,4) pos]
    by (simp add: run_attempt_def handle_exn_def event_too_large_def Let_def mark_failure_effects_def log_failure_def)
qed

theorem full_size_event_refused_witness:
  "fst (run_attempt (small_px 9) example_cx (example_stream_input 9)) = Failed event_too_large"
proof -
  note facts = example_stream_facts [of 9]
  from full_size_event_refused [where px = "small_px 9" and ai = "example_stream_input 9" and tx = "\<lambda>e. []" and limit = 1000
      and cx = example_cx and crlf = True and first = "[''data: {}'']" and events = "[]", OF example_stream_server(3) _ example_stream_server(1,2) _ _ _ facts(6)]
  show ?thesis by (simp add: facts(2,3) example_stream_input_def example_input_def)
qed

end
