(* ===== verification/FL_Benchmarks.thy ===== *)
theory FL_Benchmarks
  imports FL_Tables FL_Config
begin

text \<open>
  The leaderboard cache (\<open>src/benchmarks.py\<close>): normalised model names, the best score per name,
  the readers of the two sources, the paged download with its adaptive page size, and the refresh
  that merges both sources into the cache.

  The HTTP client is a parameter: the answer to each request as a function of its number, so a
  server may answer the same request differently each time. \<open>csv.DictReader\<close>, the reading of
  floats and the one column name outside Latin-1 are fields of \<open>bench_env\<close>.
\<close>

record bench_env =
  bn_float :: "string \<Rightarrow> rat option"
  bn_csv :: "string \<Rightarrow> (string, json) dict list"
  bn_repr :: "json \<Rightarrow> string"
  bn_arrow_key :: string

section \<open>Names and scores\<close>

definition NOISE_TOKENS :: "string list" where
  "NOISE_TOKENS = [''free'', ''instruct'', ''chat'', ''preview'']"

definition name_char :: "char \<Rightarrow> bool" where
  "name_char c = (97 \<le> code c \<and> code c \<le> 122 \<or> 48 \<le> code c \<and> code c \<le> 57)"

text \<open>The maximal runs of characters that satisfy \<open>p\<close>: the split after the substitution.\<close>

function runs :: "(char \<Rightarrow> bool) \<Rightarrow> string \<Rightarrow> string list" where
  "runs p s = (let t = dropWhile (\<lambda>c. \<not> p c) s in
     if t = [] then [] else takeWhile p t # runs p (dropWhile p t))"
  by pat_completeness auto

termination runs
proof (relation "measure (\<lambda>(p, s). length s)")
  fix p :: "char \<Rightarrow> bool" and s t :: string
  assume t: "t = dropWhile (\<lambda>c. \<not> p c) s" and ne: "t \<noteq> []"
  then obtain c cs where c: "t = c # cs" and "p c" by (metis hd_dropWhile list.collapse)
  then have "length (dropWhile p t) < length t" by (simp add: le_imp_less_Suc length_dropWhile_le)
  also have "length t \<le> length s" by (simp add: t length_dropWhile_le)
  finally show "((p, dropWhile p t), (p, s)) \<in> measure (\<lambda>(p, s). length s)" by simp
qed simp

declare runs.simps [simp del]

definition normalize_model_name :: "string \<Rightarrow> string" where
  "normalize_model_name name =
     join '' '' (filter (\<lambda>t. t \<notin> set NOISE_TOKENS) (runs name_char (py_lower name)))"

fun safe_float :: "bench_env \<Rightarrow> json \<Rightarrow> rat option" where
  "safe_float bn (JBool b) = Some (if b then 1 else 0)"
| "safe_float bn (JInt i) = Some (of_int i)"
| "safe_float bn (JFloat r) = Some r"
| "safe_float bn (JStr s) = (if s = [] then None else bn_float bn s)"
| "safe_float bn v = None"

type_synonym scores = "(string, rat) dict"

definition update_score :: "string \<Rightarrow> rat option \<Rightarrow> scores \<Rightarrow> scores" where
  "update_score model_name score scores =
    (let normalized = normalize_model_name model_name in
     case score of
       None \<Rightarrow> scores
     | Some x \<Rightarrow>
         if normalized = [] then scores
         else (case map_of scores normalized of
             None \<Rightarrow> AList.update normalized x scores
           | Some previous \<Rightarrow> if previous < x then AList.update normalized x scores else scores))"

section \<open>The chatbot arena tables\<close>

definition matching_paths :: "json list \<Rightarrow> string \<Rightarrow> string \<Rightarrow> string list" where
  "matching_paths items prefx suffx = sort (concat (map (\<lambda>item. case item of
       JObj kvs \<Rightarrow> (case jget kvs ''path'' of
           JStr path \<Rightarrow> if py_startswith path prefx \<and> py_endswith path suffx then [path] else []
         | _ \<Rightarrow> [])
     | _ \<Rightarrow> []) items))"

definition first_truthy :: "json list \<Rightarrow> json" where
  "first_truthy vs = (case find py_truthy vs of None \<Rightarrow> JStr [] | Some v \<Rightarrow> v)"

definition chatbot_arena_model_name :: "bench_env \<Rightarrow> (string, json) dict \<Rightarrow> string" where
  "chatbot_arena_model_name bn row =
     py_str (bn_repr bn) (first_truthy [jget row ''key'', jget row ''Model'', jget row ''model''])"

definition ARENA_COLUMNS :: "string list" where
  "ARENA_COLUMNS = [''arena elo'', ''elo'', ''rating'', ''arena rating''] @
     [''arena score'', ''arena hard score'', ''arena elo'', ''arena rating'', ''rating'', ''score'']"

definition normalized_keys :: "(string, json) dict \<Rightarrow> (string, string) dict" where
  "normalized_keys row = fold (\<lambda>(k, v) d. AList.update (py_lower (py_strip k)) k d) row []"

definition scoring_column :: "string \<Rightarrow> bool" where
  "scoring_column k = (py_in ''arena'' k \<and> list_ex (\<lambda>t. py_in t k) [''elo'', ''rating'', ''score''])"

definition chatbot_arena_score :: "bench_env \<Rightarrow> (string, json) dict \<Rightarrow> rat option" where
  "chatbot_arena_score bn row =
    (let keys = normalized_keys row in
     case find (\<lambda>c. dict_get keys c [] \<noteq> []) ARENA_COLUMNS of
       Some c \<Rightarrow> safe_float bn (jget row (dict_get keys c []))
     | None \<Rightarrow>
         (let ranked = sort_key (\<lambda>(k, orig). (if scoring_column k then 0 else 1 :: nat, k)) keys;
              found = concat (map (\<lambda>(k, orig). if scoring_column k
                        then (case safe_float bn (jget row orig) of None \<Rightarrow> [] | Some x \<Rightarrow> [x]) else []) ranked)
          in case found of [] \<Rightarrow> None | x # xs \<Rightarrow> Some x))"

definition parse_chatbot_arena_csv :: "bench_env \<Rightarrow> string \<Rightarrow> scores" where
  "parse_chatbot_arena_csv bn csv =
     fold (\<lambda>row. update_score (chatbot_arena_model_name bn row) (chatbot_arena_score bn row)) (bn_csv bn csv) []"

text \<open>Newest table first; the first one with a usable row wins. \<open>get\<close> is \<^const>\<open>None\<close> when a request fails.\<close>

fun first_table :: "bench_env \<Rightarrow> (string \<Rightarrow> string option) \<Rightarrow> string list \<Rightarrow> (scores option) option" where
  "first_table bn get [] = Some None"
| "first_table bn get (path # paths) = (case get path of
       None \<Rightarrow> None
     | Some body \<Rightarrow> (let parsed = parse_chatbot_arena_csv bn body in
         if parsed \<noteq> [] then Some (Some parsed) else first_table bn get paths))"

definition fetch_chatbot_arena_scores :: "bench_env \<Rightarrow> json option \<Rightarrow> (string \<Rightarrow> string option) \<Rightarrow> scores option" where
  "fetch_chatbot_arena_scores bn tree get = (case tree of
       None \<Rightarrow> None
     | Some (JList items) \<Rightarrow>
         (case first_table bn get (rev (matching_paths items ''leaderboard_table_'' ''.csv'')) of
            None \<Rightarrow> None
          | Some (Some parsed) \<Rightarrow> Some parsed
          | Some None \<Rightarrow>
              (case first_table bn get (rev (matching_paths items ''arena_hard_auto_leaderboard_'' ''.csv'')) of
                 None \<Rightarrow> None
               | Some (Some parsed) \<Rightarrow> Some parsed
               | Some None \<Rightarrow> Some []))
     | Some v \<Rightarrow> Some [])"

section \<open>The Open LLM table\<close>

text \<open>\<open>re.search(r"must not be greater than\s+(\d+)", message)\<close>\<close>

definition limit_at :: "string \<Rightarrow> int option" where
  "limit_at s =
    (let key = ''must not be greater than''; rest = drop (length key) s;
         digits = takeWhile chr_is_ascii_digit (dropWhile chr_isspace rest)
     in if py_startswith s key \<and> rest \<noteq> [] \<and> chr_isspace (hd rest) \<and> digits \<noteq> []
        then Some (digits_value 0 digits) else None)"

fun search_limit :: "string \<Rightarrow> int option" where
  "search_limit [] = None"
| "search_limit (c # cs) = (case limit_at (c # cs) of Some n \<Rightarrow> Some n | None \<Rightarrow> search_limit cs)"

text \<open>A failed request: the status, the body when it is JSON, and its text.\<close>

datatype page = Rows "json list" | HttpStatus int "json option" string | Failed_Request

definition parse_rows_length_limit :: "bench_env \<Rightarrow> int \<Rightarrow> json option \<Rightarrow> string \<Rightarrow> int option" where
  "parse_rows_length_limit bn status payload body =
    (if status \<noteq> 422 then None
     else let message = (case payload of
                None \<Rightarrow> body
              | Some (JObj kvs) \<Rightarrow> py_str (bn_repr bn) (py_or (jget kvs ''error'') (JStr []))
              | Some v \<Rightarrow> [])
          in case search_limit message of None \<Rightarrow> None | Some n \<Rightarrow> if 0 < n then Some n else None)"

definition open_llm_model_name :: "bench_env \<Rightarrow> (string \<times> json) list \<Rightarrow> string" where
  "open_llm_model_name bn row = py_str (bn_repr bn)
     (first_truthy [jget row ''fullname'', jget row ''eval_name'', jget row ''model'', jget row ''Model''])"

definition first_score :: "bench_env \<Rightarrow> json list \<Rightarrow> rat option" where
  "first_score bn vs = (case List.map_filter (safe_float bn) vs of [] \<Rightarrow> None | x # xs \<Rightarrow> Some x)"

definition open_llm_average_score :: "bench_env \<Rightarrow> (string \<times> json) list \<Rightarrow> rat option" where
  "open_llm_average_score bn row =
    (case first_score bn [jget row (bn_arrow_key bn), jget row ''Average'', jget row ''average''] of
       Some x \<Rightarrow> Some x
     | None \<Rightarrow> first_score bn (map snd (filter (\<lambda>(k, v). py_in ''average'' (py_lower (py_strip k))) row)))"

definition score_wrapped_row :: "bench_env \<Rightarrow> json \<Rightarrow> scores \<Rightarrow> scores" where
  "score_wrapped_row bn wrapped scores = (case wrapped of
       JObj kvs \<Rightarrow> (case dict_get kvs ''row'' (JObj []) of
           JObj row \<Rightarrow> update_score (open_llm_model_name bn row) (open_llm_average_score bn row) scores
         | _ \<Rightarrow> scores)
     | _ \<Rightarrow> scores)"

text \<open>
  The server: the answer to the \<open>k\<close>-th request, for an offset and a length. One page: on a length
  error the page size shrinks, to the limit the server names or else to the half, and the request
  is repeated. The result is \<^const>\<open>None\<close> when the request fails for good; with the rows come the
  page size reached and the number of requests made so far.
\<close>

type_synonym row_server = "nat \<Rightarrow> int \<Rightarrow> int \<Rightarrow> page"

function fetch_page :: "bench_env \<Rightarrow> row_server \<Rightarrow> int \<Rightarrow> int \<Rightarrow> nat \<Rightarrow> (json list \<times> int) option \<times> nat" where
  "fetch_page bn server offset len k = (case server k offset len of
       Rows rows \<Rightarrow> (Some (filter is_jobj rows, len), Suc k)
     | Failed_Request \<Rightarrow> (None, Suc k)
     | HttpStatus status payload body \<Rightarrow>
         (case parse_rows_length_limit bn status payload body of
            None \<Rightarrow> (None, Suc k)
          | Some limit \<Rightarrow>
              if len \<le> 1 then (None, Suc k)
              else fetch_page bn server offset (if len \<le> limit then max (len div 2) 1 else limit) (Suc k)))"
  by pat_completeness auto

lemma parsed_limit_positive: "parse_rows_length_limit bn st pl tx = Some n \<Longrightarrow> 0 < n"
  by (auto simp: parse_rows_length_limit_def Let_def split: if_splits option.splits)

termination fetch_page
  by (relation "measure (\<lambda>(bn, server, offset, len, k). nat len)") (auto dest: parsed_limit_positive)

declare fetch_page.simps [simp del]

lemma fetch_page_size:
  "fetch_page bn server offset len k = (Some (rows, len'), k') \<Longrightarrow> 1 \<le> len \<Longrightarrow> 1 \<le> len' \<and> len' \<le> len"
proof (induction bn server offset len k rule: fetch_page.induct)
  case (1 bn server offset len k)
  show ?case
  proof (cases "server k offset len")
    case (HttpStatus status payload body)
    then obtain limit where lim: "parse_rows_length_limit bn status payload body = Some limit" and big: "\<not> len \<le> 1"
      using "1.prems"(1) by (subst (asm) fetch_page.simps) (auto split: option.splits if_splits)
    let ?s = "if len \<le> limit then max (len div 2) 1 else limit"
    have "fetch_page bn server offset ?s (Suc k) = (Some (rows, len'), k')"
      using "1.prems"(1) HttpStatus lim big by (subst (asm) fetch_page.simps) simp
    moreover have "1 \<le> ?s" "?s \<le> len" using parsed_limit_positive [OF lim] big by auto
    ultimately show ?thesis using "1.IH" [OF HttpStatus lim big] by fastforce
  qed (use "1.prems" in \<open>auto simp: fetch_page.simps\<close>)
qed

text \<open>The loop over the pages.\<close>

function fetch_pages ::
  "bench_env \<Rightarrow> row_server \<Rightarrow> int \<Rightarrow> int \<Rightarrow> int \<Rightarrow> nat \<Rightarrow> scores \<Rightarrow> scores option \<times> nat" where
  "fetch_pages bn server num_rows offset len k scores =
    (if num_rows \<le> offset then (Some scores, k)
     else case fetch_page bn server offset len k of
       (None, k') \<Rightarrow> (None, k')
     | (Some (rows, len'), k') \<Rightarrow>
         (let scores' = fold (score_wrapped_row bn) rows scores in
          if rows = [] then (Some scores', k')
          else fetch_pages bn server num_rows (offset + int (length rows)) len' k' scores'))"
  by pat_completeness auto

termination fetch_pages
proof (relation "measure (\<lambda>(bn, server, num_rows, offset, len, k, scores). nat (num_rows - offset))", goal_cases)
  case (2 bn server num_rows offset len k scores x k' y rows len' s')
  then have "0 < int (length rows)" by simp
  with 2 show ?case by simp
qed simp

declare fetch_pages.simps [simp del]

definition OPEN_LLM_MAX_ROWS_PAGE_SIZE :: int where
  "OPEN_LLM_MAX_ROWS_PAGE_SIZE = 100"

definition fetch_open_llm_scores :: "bench_env \<Rightarrow> int option \<Rightarrow> row_server \<Rightarrow> int \<Rightarrow> scores option \<times> nat" where
  "fetch_open_llm_scores bn num_rows server page_size = (case num_rows of
       None \<Rightarrow> (None, 0)
     | Some n \<Rightarrow>
         if n \<le> 0 then (Some [], 0)
         else fetch_pages bn server n 0 (max (min page_size OPEN_LLM_MAX_ROWS_PAGE_SIZE) 1) 0 [])"

section \<open>The refresh\<close>

definition cache_cutoff :: "timestamp \<Rightarrow> int \<Rightarrow> timestamp" where
  "cache_cutoff now max_age_hours = now - 3600 * max max_age_hours 1"

definition count_cached_source_entries ::
  "tables \<Rightarrow> timestamp \<Rightarrow> (leaderboard_row \<Rightarrow> rat option) \<Rightarrow> int \<Rightarrow> int" where
  "count_cached_source_entries t now column max_age_hours =
     count_if (\<lambda>(n, r). column r \<noteq> None \<and> cache_cutoff now max_age_hours \<le> lb_fetched_at r) (t_leaderboard t)"

definition source_cache_ready :: "tables \<Rightarrow> timestamp \<Rightarrow> (leaderboard_row \<Rightarrow> rat option) \<Rightarrow> int \<Rightarrow> bool" where
  "source_cache_ready t now column max_age_hours = (0 < count_cached_source_entries t now column max_age_hours)"

text \<open>
  What a source contributes: nothing when it is disabled, its cache is fresh or its task failed.
  \<open>fetched\<close> is the outcome of the task, \<^const>\<open>None\<close> for an exception.
\<close>

definition source_scores :: "bool \<Rightarrow> bool \<Rightarrow> scores option \<Rightarrow> scores" where
  "source_scores enabled ready fetched =
     (if enabled \<and> \<not> ready then (case fetched of None \<Rightarrow> [] | Some sc \<Rightarrow> sc) else [])"

text \<open>The union of the keys in the order of \<open>setdefault\<close>, each with the score of either source.\<close>

definition merge_scores :: "scores \<Rightarrow> scores \<Rightarrow> (string \<times> rat option \<times> rat option) list" where
  "merge_scores arena open_llm =
     map (\<lambda>k. (k, map_of arena k, map_of open_llm k))
       (map fst arena @ filter (\<lambda>k. k \<notin> fst ` set arena) (map fst open_llm))"

record benchmark_outcome =
  bo_chatbot_arena_entries :: int
  bo_open_llm_entries :: int
  bo_cache_updates :: int

definition refresh_leaderboard_cache ::
  "settings \<Rightarrow> tables \<Rightarrow> timestamp \<Rightarrow> scores option \<Rightarrow> scores option \<Rightarrow> stmt list \<times> benchmark_outcome" where
  "refresh_leaderboard_cache s t now arena_task open_llm_task =
    (let arena_hours = discovery_leaderboard_chatbot_arena_cache_hours s;
         open_hours = discovery_leaderboard_open_llm_cache_hours s;
         arena = source_scores (discovery_leaderboard_chatbot_arena_enabled s)
           (source_cache_ready t now lb_chatbot_arena_elo arena_hours) arena_task;
         open_llm = source_scores (discovery_leaderboard_open_llm_enabled s)
           (source_cache_ready t now lb_open_llm_avg_score open_hours) open_llm_task;
         merged = merge_scores arena open_llm
     in (map (\<lambda>(k, elo, avg). UpsertLeaderboard k elo avg now) merged,
         \<lparr>bo_chatbot_arena_entries = max (int (length arena)) (count_cached_source_entries t now lb_chatbot_arena_elo arena_hours),
          bo_open_llm_entries = max (int (length open_llm)) (count_cached_source_entries t now lb_open_llm_avg_score open_hours),
          bo_cache_updates = int (length merged)\<rparr>))"

section \<open>The download\<close>

lemma fetch_page_requests:
  "fetch_page bn server offset len k = (r, k') \<Longrightarrow> 1 \<le> len \<Longrightarrow>
   int k' \<le> int k + len \<and> (case r of None \<Rightarrow> True | Some (rows, len') \<Rightarrow> int k' \<le> int k + 1 + (len - len'))"
proof (induction bn server offset len k rule: fetch_page.induct)
  case (1 bn server offset len k)
  show ?case
  proof (cases "server k offset len")
    case (HttpStatus status payload body)
    show ?thesis
    proof (cases "(case parse_rows_length_limit bn status payload body of None \<Rightarrow> True | Some limit \<Rightarrow> len \<le> 1)")
      case True
      with HttpStatus "1.prems" show ?thesis
        by (subst (asm) fetch_page.simps) (auto split: option.splits)
    next
      case False
      then obtain limit where lim: "parse_rows_length_limit bn status payload body = Some limit" and big: "\<not> len \<le> 1"
        by (auto split: option.splits)
      let ?s = "if len \<le> limit then max (len div 2) 1 else limit"
      have run: "fetch_page bn server offset ?s (Suc k) = (r, k')"
        using "1.prems"(1) HttpStatus lim big by (subst (asm) fetch_page.simps) simp
      have s: "1 \<le> ?s" "?s + 1 \<le> len" using parsed_limit_positive [OF lim] big by auto
      from "1.IH" [OF HttpStatus lim big run s(1)] s(2) show ?thesis by (auto split: option.splits)
    qed
  qed (use "1.prems" in \<open>auto simp: fetch_page.simps\<close>)
qed

lemma fetch_pages_step:
  "offset < num_rows \<Longrightarrow> fetch_page bn server offset len k = (Some (rows, len'), k') \<Longrightarrow> rows \<noteq> [] \<Longrightarrow>
   fetch_pages bn server num_rows offset len k scores =
   fetch_pages bn server num_rows (offset + int (length rows)) len' k' (fold (score_wrapped_row bn) rows scores)"
  by (subst fetch_pages.simps) (simp add: Let_def)

lemma fetch_pages_requests:
  "fetch_pages bn server num_rows offset len k scores = (r, k') \<Longrightarrow> 1 \<le> len \<Longrightarrow>
   int k' \<le> int k + max 0 (num_rows - offset) + len"
proof (induction bn server num_rows offset len k scores rule: fetch_pages.induct)
  case (1 bn server num_rows offset len k scores)
  show ?case
  proof (cases "num_rows \<le> offset")
    case True
    with "1.prems" show ?thesis by (auto simp: fetch_pages.simps)
  next
    case False
    obtain p k1 where page: "fetch_page bn server offset len k = (p, k1)" by fastforce
    note req = fetch_page_requests [OF page "1.prems"(2)]
    show ?thesis
    proof (cases p)
      case None
      with "1.prems" False page req show ?thesis by (auto simp: fetch_pages.simps)
    next
      case (Some q)
      obtain rows len1 where q: "q = (rows, len1)" by fastforce
      note len1 = fetch_page_size [OF page [unfolded Some q] "1.prems"(2)]
      show ?thesis
      proof (cases "rows = []")
        case True
        with "1.prems" False page req Some q len1 show ?thesis by (auto simp: fetch_pages.simps)
      next
        case rows: False
        then have n: "1 \<le> int (length rows)" by (cases rows) simp_all
        have "fetch_pages bn server num_rows (offset + int (length rows)) len1 k1
            (fold (score_wrapped_row bn) rows scores) = (r, k')"
          using "1.prems"(1) False page Some q rows by (simp add: fetch_pages_step)
        from "1.IH" [OF False page [symmetric] Some q [symmetric] refl rows this] len1
        have "int k' \<le> int k1 + max 0 (num_rows - (offset + int (length rows))) + len1" by simp
        with req n Some q False show ?thesis by (auto simp: max_def split: if_splits)
      qed
    qed
  qed
qed

text \<open>
  C33 (termination). The download always ends: whatever the server answers, request by request, it
  makes at most as many requests as rows were announced, plus the initial page size of at most
  one hundred.
\<close>

theorem open_llm_requests_bounded:
  assumes "fetch_open_llm_scores bn (Some n) server page_size = (r, k)" and "0 \<le> n"
  shows "int k \<le> n + 100"
proof (cases "n \<le> 0")
  case True
  with assms show ?thesis by (simp add: fetch_open_llm_scores_def)
next
  case False
  let ?len = "max (min page_size OPEN_LLM_MAX_ROWS_PAGE_SIZE) 1"
  have "fetch_pages bn server n 0 ?len 0 [] = (r, k)" using assms False by (simp add: fetch_open_llm_scores_def)
  from fetch_pages_requests [OF this] False have "int k \<le> n + ?len" by simp
  then show ?thesis by (simp add: OPEN_LLM_MAX_ROWS_PAGE_SIZE_def)
qed

theorem open_llm_requests_bounded_witness:
  "int (snd (fetch_open_llm_scores \<lparr>bn_float = (\<lambda>s. None), bn_csv = (\<lambda>s. []), bn_repr = (\<lambda>v. []), bn_arrow_key = []\<rparr>
      (Some 2) (\<lambda>k offset len. Rows [JObj []]) 500)) \<le> 2 + 100"
  by (rule open_llm_requests_bounded [OF prod.collapse [symmetric]]) simp

section \<open>Normalised names\<close>

lemma dropWhile_all: "list_all p t \<Longrightarrow> dropWhile p (t @ s) = dropWhile p s"
  by (induction t) auto

lemma takeWhile_all: "list_all p t \<Longrightarrow> takeWhile p (t @ s) = t @ takeWhile p s"
  by (induction t) auto

lemma runs_Nil [simp]: "runs p [] = []"
  by (simp add: runs.simps)

lemma runs_skip: "\<not> p c \<Longrightarrow> runs p (c # s) = runs p s"
  by (subst (1 2) runs.simps) simp

lemma runs_word:
  assumes "t \<noteq> []" and "list_all p t" and "s = [] \<or> \<not> p (hd s)"
  shows "runs p (t @ s) = t # runs p s"
proof -
  have "takeWhile p s = []" and "dropWhile p s = s" using assms(3) by (cases s; simp)+
  moreover have "dropWhile (\<lambda>c. \<not> p c) (t @ s) = t @ s" using assms(1,2) by (cases t) simp_all
  ultimately show ?thesis
    using assms(1) by (subst runs.simps) (simp add: dropWhile_all [OF assms(2)] takeWhile_all [OF assms(2)])
qed

lemma runs_words: "t \<in> set (runs p s) \<Longrightarrow> t \<noteq> [] \<and> list_all p t"
proof (induction p s rule: runs.induct)
  case (1 p s)
  show ?case
  proof (cases "dropWhile (\<lambda>c. \<not> p c) s")
    case Nil
    with "1.prems" show ?thesis by (simp add: runs.simps)
  next
    case (Cons c cs)
    then have "p c" by (metis hd_dropWhile list.distinct(1) list.sel(1))
    have "runs p s = takeWhile p (c # cs) # runs p (dropWhile p (c # cs))"
      using Cons by (subst runs.simps) (simp add: Let_def)
    with "1.prems" consider "t = takeWhile p (c # cs)" | "t \<in> set (runs p (dropWhile p (c # cs)))" by auto
    then show ?thesis
    proof cases
      case 1
      with \<open>p c\<close> show ?thesis by (simp add: list_all_iff) (blast dest: set_takeWhileD)
    next
      case 2
      with "1.IH" [OF refl] Cons show ?thesis by simp
    qed
  qed
qed

lemma runs_join:
  "list_all (\<lambda>t. t \<noteq> [] \<and> list_all p t) ts \<Longrightarrow> \<not> p c \<Longrightarrow> runs p (join [c] ts) = ts"
proof (induction "[c]" ts rule: join.induct)
  case (2 x)
  then show ?case using runs_word [of x p "[]"] by simp
next
  case (3 x y ys)
  then have "runs p (x @ c # join [c] (y # ys)) = x # runs p (c # join [c] (y # ys))"
    by (intro runs_word) simp_all
  with 3 show ?case by (simp add: runs_skip)
qed simp

lemma lower_name_char: "name_char c \<Longrightarrow> chr_lower c = c"
  by (auto simp: name_char_def chr_lower_def Let_def)

lemma lower_join:
  "list_all (list_all name_char) ts \<Longrightarrow> py_lower (join '' '' ts) = join '' '' ts"
proof (induction "'' ''" ts rule: join.induct)
  case (2 x)
  then show ?case by (auto simp: py_lower_def list_all_iff lower_name_char intro: map_idI)
next
  case (3 x y ys)
  moreover have "map chr_lower x = x" using 3 by (auto simp: list_all_iff lower_name_char intro: map_idI)
  moreover have "chr_lower (CHR '' '') = CHR '' ''" by (simp add: chr_lower_def code_def)
  ultimately show ?case by (simp add: py_lower_def)
qed simp

text \<open>The normal form of a name is its own normal form, so looking up a stored key finds it.\<close>

lemma normalize_idem [simp]: "normalize_model_name (normalize_model_name n) = normalize_model_name n"
proof -
  let ?ts = "filter (\<lambda>t. t \<notin> set NOISE_TOKENS) (runs name_char (py_lower n))"
  have words: "list_all (\<lambda>t. t \<noteq> [] \<and> list_all name_char t) ?ts"
    by (auto simp: list_all_iff dest: runs_words [unfolded list_all_iff])
  then have "list_all (list_all name_char) ?ts" by (simp add: list_all_iff)
  note low = lower_join [OF this]
  have "\<not> name_char (CHR '' '')" by (simp add: name_char_def code_def)
  from runs_join [OF words this] show ?thesis by (simp add: normalize_model_name_def low)
qed

section \<open>The best score per name\<close>

definition scored_as :: "bench_env \<Rightarrow> json \<Rightarrow> (string \<times> rat) option" where
  "scored_as bn wrapped = (case wrapped of
       JObj kvs \<Rightarrow> (case dict_get kvs ''row'' (JObj []) of
           JObj row \<Rightarrow> (let n = normalize_model_name (open_llm_model_name bn row) in
             case open_llm_average_score bn row of
               None \<Rightarrow> None
             | Some x \<Rightarrow> if n = [] then None else Some (n, x))
         | _ \<Rightarrow> None)
     | _ \<Rightarrow> None)"

definition best :: "rat option \<Rightarrow> rat \<Rightarrow> rat option" where
  "best old x = Some (case old of None \<Rightarrow> x | Some y \<Rightarrow> max y x)"

lemma best_None [simp]: "best None x = Some x"
  by (simp add: best_def)

lemma update_score_lookup:
  "map_of (update_score n (Some x) scores) key =
   (if normalize_model_name n = key \<and> key \<noteq> [] then best (map_of scores key) x else map_of scores key)"
  by (auto simp: update_score_def Let_def update_conv' best_def max_def split: option.split)

lemma score_wrapped_row_lookup:
  "map_of (score_wrapped_row bn w scores) key = (case scored_as bn w of
       None \<Rightarrow> map_of scores key
     | Some (n, x) \<Rightarrow> if n = key then best (map_of scores key) x else map_of scores key)"
proof -
  have none: "update_score n None scores = scores" for n by (simp add: update_score_def)
  show ?thesis
    by (auto simp: score_wrapped_row_def scored_as_def update_score_lookup none Let_def
        split: json.split option.split)
qed

definition scores_named :: "bench_env \<Rightarrow> json list \<Rightarrow> string \<Rightarrow> rat list" where
  "scores_named bn ws key = List.map_filter (\<lambda>w. case scored_as bn w of
       None \<Rightarrow> None | Some (n, x) \<Rightarrow> if n = key then Some x else None) ws"

lemma fold_best: "fold (\<lambda>x old. best old x) xs (Some y) = Some (Max (insert y (set xs)))"
proof (induction xs arbitrary: y)
  case (Cons x xs)
  have "Max (insert (max y x) (set xs)) = Max (insert y (insert x (set xs)))"
    by (cases "xs = []") (simp_all add: Max_insert max.assoc)
  with Cons show ?case by (simp add: best_def)
qed simp

lemma fold_rows_lookup:
  "map_of (fold (score_wrapped_row bn) ws scores) key = fold (\<lambda>x old. best old x) (scores_named bn ws key) (map_of scores key)"
  by (induction ws arbitrary: scores)
    (auto simp: scores_named_def map_filter_simps score_wrapped_row_lookup split: option.split)

lemma fold_rows_best:
  "map_of (fold (score_wrapped_row bn) ws []) key =
   (if scores_named bn ws key = [] then None else Some (Max (set (scores_named bn ws key))))"
  by (cases "scores_named bn ws key") (simp_all add: fold_rows_lookup fold_best)

text \<open>A server of a table of rows that refuses pages longer than its limit and names the limit.\<close>

definition serves :: "bench_env \<Rightarrow> json list \<Rightarrow> int \<Rightarrow> row_server \<Rightarrow> bool" where
  "serves bn table limit server = (\<forall>k offset len. 0 \<le> offset \<longrightarrow>
     (if len \<le> limit then server k offset len = Rows (take (nat len) (drop (nat offset) table))
      else (\<exists>payload body. server k offset len = HttpStatus 422 payload body
        \<and> parse_rows_length_limit bn 422 payload body = Some limit)))"

lemma served_page:
  assumes "serves bn table limit server" and "1 \<le> limit" and "1 \<le> len" and "0 \<le> offset"
    and "list_all is_jobj table"
  shows "\<exists>len' k'. fetch_page bn server offset len k = (Some (take (nat len') (drop (nat offset) table), len'), k')
    \<and> 1 \<le> len' \<and> len' \<le> limit"
proof -
  have small: "fetch_page bn server offset n j = (Some (take (nat n) (drop (nat offset) table), n), Suc j)"
    if "1 \<le> n" "n \<le> limit" for n j
  proof -
    have "server j offset n = Rows (take (nat n) (drop (nat offset) table))"
      using assms(1,4) that unfolding serves_def by (metis (full_types))
    moreover have "filter is_jobj (take (nat n) (drop (nat offset) table)) = take (nat n) (drop (nat offset) table)"
      using assms(5) by (auto simp: filter_id_conv list_all_iff dest!: in_set_takeD in_set_dropD)
    ultimately show ?thesis by (subst fetch_page.simps) simp
  qed
  show ?thesis
  proof (cases "len \<le> limit")
    case True
    with small [of len k] assms(3) show ?thesis by blast
  next
    case False
    then obtain payload body where "server k offset len = HttpStatus 422 payload body"
      "parse_rows_length_limit bn 422 payload body = Some limit"
      using assms(1,4) unfolding serves_def by (metis (full_types))
    then have "fetch_page bn server offset len k = fetch_page bn server offset limit (Suc k)"
      using False assms(2) by (subst fetch_page.simps) simp
    with small [of limit "Suc k"] assms(2) show ?thesis by auto
  qed
qed

lemma served_pages:
  assumes "serves bn table limit server" and "1 \<le> limit" and "1 \<le> len" and "list_all is_jobj table"
  shows "\<exists>k'. fetch_pages bn server (int (length table)) (int n) len k scores =
    (Some (fold (score_wrapped_row bn) (drop n table) scores), k')"
  using assms(3)
proof (induction "length table - n" arbitrary: n len k scores rule: less_induct)
  case less
  show ?case
  proof (cases "length table \<le> n")
    case True
    then show ?thesis by (simp add: fetch_pages.simps)
  next
    case False
    obtain len' k' where page: "fetch_page bn server (int n) len k = (Some (take (nat len') (drop n table), len'), k')"
      and len': "1 \<le> len'"
      using served_page [OF assms(1,2) less.prems _ assms(4), of "int n" k] by auto
    define rows where "rows = take (nat len') (drop n table)"
    have ne: "rows \<noteq> []" using False len' by (simp add: rows_def)
    have split: "drop n table = rows @ drop (n + length rows) table"
      by (simp add: rows_def) (metis add.commute append_take_drop_id drop_drop length_drop min.commute take_all_iff
          nle_le min_def append_Nil2 drop_eq_Nil2 length_take)
    have "length table - (n + length rows) < length table - n" using ne False by (cases rows) auto
    from less.hyps [OF this len', of k' "fold (score_wrapped_row bn) rows scores"]
    obtain k2 where "fetch_pages bn server (int (length table)) (int (n + length rows)) len' k'
        (fold (score_wrapped_row bn) rows scores)
      = (Some (fold (score_wrapped_row bn) (drop (n + length rows) table) (fold (score_wrapped_row bn) rows scores)), k2)"
      by blast
    moreover have "fetch_pages bn server (int (length table)) (int n) len k scores =
        fetch_pages bn server (int (length table)) (int (n + length rows)) len' k' (fold (score_wrapped_row bn) rows scores)"
      using fetch_pages_step [of "int n" "int (length table)" bn server len k rows len' k' scores] page ne False
      by (simp add: rows_def)
    ultimately show ?thesis using split by (metis fold_append comp_apply)
  qed
qed

text \<open>
  C34 (functional). Against a server that hands out a table page by page, with any limit on the page
  size that it names when it refuses, the download is complete: each normalised name gets the best
  score among all rows of the table with that name, and no other name gets one.
\<close>

theorem open_llm_download_complete:
  assumes "serves bn table limit server" and "1 \<le> limit" and "list_all is_jobj table"
    and "fetch_open_llm_scores bn (Some (int (length table))) server page_size = (r, k)"
  shows "\<exists>scores. r = Some scores \<and> map_of scores key =
    (if scores_named bn table key = [] then None else Some (Max (set (scores_named bn table key))))"
proof (cases "table = []")
  case True
  with assms(4) show ?thesis by (auto simp: fetch_open_llm_scores_def scores_named_def map_filter_simps)
next
  case False
  let ?len = "max (min page_size OPEN_LLM_MAX_ROWS_PAGE_SIZE) 1"
  have "fetch_pages bn server (int (length table)) 0 ?len 0 [] = (r, k)"
    using assms(4) False by (simp add: fetch_open_llm_scores_def)
  then have "r = Some (fold (score_wrapped_row bn) table [])"
    using served_pages [OF assms(1,2) _ assms(3), of ?len 0 0 "[]"] by auto
  then show ?thesis by (simp add: fold_rows_best)
qed

definition small_server :: row_server where
  "small_server k offset len =
     (if len \<le> 1 then Rows (take (nat len) (drop (nat offset) [JObj [], JObj [(''row'', JObj [(''model'', JStr ''A''), (''average'', JInt 7)])]]))
      else HttpStatus 422 (Some (JObj [(''error'', JStr ''length must not be greater than 1'')])) [])"

definition plain_bench :: bench_env where
  "plain_bench = \<lparr>bn_float = (\<lambda>s. None), bn_csv = (\<lambda>s. []), bn_repr = (\<lambda>v. []), bn_arrow_key = ''Average''\<rparr>"

theorem open_llm_download_complete_witness:
  "\<exists>scores. fst (fetch_open_llm_scores plain_bench (Some 2) small_server 500) = Some scores \<and> map_of scores ''a'' = Some 7"
proof -
  let ?table = "[JObj [], JObj [(''row'', JObj [(''model'', JStr ''A''), (''average'', JInt 7)])]]"
  have "parse_rows_length_limit plain_bench 422 (Some (JObj [(''error'', JStr ''length must not be greater than 1'')])) [] = Some 1"
    by code_simp
  then have serves: "serves plain_bench ?table 1 small_server"
    by (simp add: serves_def small_server_def)
  have named: "scores_named plain_bench ?table ''a'' = [7]" by code_simp
  have "\<exists>scores. fst (fetch_open_llm_scores plain_bench (Some (int (length ?table))) small_server 500) = Some scores
      \<and> map_of scores ''a'' = (if scores_named plain_bench ?table ''a'' = [] then None
          else Some (Max (set (scores_named plain_bench ?table ''a''))))"
    by (rule open_llm_download_complete [OF serves _ _ prod.collapse [symmetric]]) simp_all
  then show ?thesis unfolding named by simp
qed

section \<open>Shared freshness\<close>

definition upserts_at :: "timestamp \<Rightarrow> (string \<times> rat option \<times> rat option) list \<Rightarrow> stmt list" where
  "upserts_at now merged = map (\<lambda>(k, elo, avg). UpsertLeaderboard k elo avg now) merged"

lemma exec_upserts:
  "exec_stmts (upserts_at now merged) t = Some t' \<Longrightarrow> map_of (t_leaderboard t) n = Some r \<Longrightarrow>
   \<exists>r'. map_of (t_leaderboard t') n = Some r'
     \<and> (lb_open_llm_avg_score r \<noteq> None \<longrightarrow> lb_open_llm_avg_score r' \<noteq> None)
     \<and> lb_fetched_at r' = (if n \<in> fst ` set merged then now else lb_fetched_at r)"
proof (induction merged arbitrary: t r)
  case Nil
  then show ?case by (auto simp: upserts_at_def)
next
  case (Cons m merged)
  obtain k elo av where m: "m = (k, elo, av)" by (cases m)
  let ?t = "upsert_leaderboard k elo av now t"
  define r1 where "r1 = (if k = n then \<lparr>lb_chatbot_arena_elo = coalesce elo (lb_chatbot_arena_elo r),
      lb_open_llm_avg_score = coalesce av (lb_open_llm_avg_score r), lb_fetched_at = now\<rparr> else r)"
  have run: "exec_stmts (upserts_at now merged) ?t = Some t'" using Cons.prems(1) by (simp add: upserts_at_def m)
  have r1: "map_of (t_leaderboard ?t) n = Some r1"
    using Cons.prems(2) by (cases "k = n") (simp_all add: upsert_leaderboard_def update_conv' r1_def)
  have keep: "lb_open_llm_avg_score r \<noteq> None \<longrightarrow> lb_open_llm_avg_score r1 \<noteq> None"
    by (auto simp: r1_def coalesce_def split: option.split)
  from Cons.IH [OF run r1] obtain r' where "map_of (t_leaderboard t') n = Some r'"
    "lb_open_llm_avg_score r1 \<noteq> None \<longrightarrow> lb_open_llm_avg_score r' \<noteq> None"
    "lb_fetched_at r' = (if n \<in> fst ` set merged then now else lb_fetched_at r1)" by blast
  with keep show ?case by (auto simp: m r1_def)
qed

lemma merge_scores_keys: "fst ` set (merge_scores arena open_llm) = fst ` set arena \<union> fst ` set open_llm"
proof -
  have "map fst (merge_scores arena open_llm) = map fst arena @ filter (\<lambda>k. k \<notin> fst ` set arena) (map fst open_llm)"
    by (simp add: merge_scores_def comp_def)
  from arg_cong [OF this, of set] show ?thesis by auto
qed

lemma ready_from_row:
  assumes "map_of (t_leaderboard t) n = Some r" and "column r \<noteq> None" and "cache_cutoff now hours \<le> lb_fetched_at r"
  shows "source_cache_ready t now column hours"
proof -
  have "(n, r) \<in> set (filter (\<lambda>(n, r). column r \<noteq> None \<and> cache_cutoff now hours \<le> lb_fetched_at r) (t_leaderboard t))"
    using assms by (auto dest: map_of_SomeD)
  then have "filter (\<lambda>(n, r). column r \<noteq> None \<and> cache_cutoff now hours \<le> lb_fetched_at r) (t_leaderboard t) \<noteq> []"
    by (metis empty_iff empty_set)
  then show ?thesis by (simp add: source_cache_ready_def count_cached_source_entries_def count_if_def)
qed

text \<open>
  One time stamp serves both sources. When the arena download succeeds and the
  Open LLM download fails, every model in both tables gets the new time stamp with its old Open
  LLM score, so the failed source counts as fresh and is not retried until its cache expires again.
\<close>

theorem failed_source_counts_as_fresh:
  assumes "exec_stmts (fst (refresh_leaderboard_cache s t now (Some arena) None)) t = Some t'"
    and "discovery_leaderboard_chatbot_arena_enabled s"
    and "\<not> source_cache_ready t now lb_chatbot_arena_elo (discovery_leaderboard_chatbot_arena_cache_hours s)"
    and "n \<in> fst ` set arena" and "map_of (t_leaderboard t) n = Some r" and "lb_open_llm_avg_score r \<noteq> None"
    and "cache_cutoff later hours \<le> now"
  shows "source_cache_ready t' later lb_open_llm_avg_score hours"
proof -
  let ?merged = "merge_scores arena (source_scores (discovery_leaderboard_open_llm_enabled s)
      (source_cache_ready t now lb_open_llm_avg_score (discovery_leaderboard_open_llm_cache_hours s)) None)"
  have "fst (refresh_leaderboard_cache s t now (Some arena) None) = upserts_at now ?merged"
    using assms(2,3) by (simp add: refresh_leaderboard_cache_def source_scores_def upserts_at_def Let_def)
  with assms(1) have run: "exec_stmts (upserts_at now ?merged) t = Some t'" by simp
  have "n \<in> fst ` set ?merged" using assms(4) by (simp add: merge_scores_keys)
  with exec_upserts [OF run assms(5)] assms(6) obtain r' where "map_of (t_leaderboard t') n = Some r'"
    "lb_open_llm_avg_score r' \<noteq> None" "lb_fetched_at r' = now" by auto
  with ready_from_row [of t' n r' lb_open_llm_avg_score later hours] assms(7) show ?thesis by simp
qed

definition old_row :: leaderboard_row where
  "old_row = \<lparr>lb_chatbot_arena_elo = None, lb_open_llm_avg_score = Some 50, lb_fetched_at = 0\<rparr>"

definition old_board :: tables where
  "old_board = empty_tables\<lparr>t_leaderboard := [(''m'', old_row)]\<rparr>"

definition bench_settings :: settings where
  "bench_settings = default_settings\<lparr>discovery_leaderboard_chatbot_arena_enabled := True,
     discovery_leaderboard_open_llm_enabled := True\<rparr>"

theorem failed_source_counts_as_fresh_witness:
  "\<exists>t'. exec_stmts (fst (refresh_leaderboard_cache bench_settings old_board 1000000 (Some [(''m'', 1200)]) None)) old_board
      = Some t' \<and> source_cache_ready t' 1003600 lb_open_llm_avg_score 24"
proof -
  have enabled: "discovery_leaderboard_chatbot_arena_enabled bench_settings" by (simp add: bench_settings_def)
  have stale: "\<not> source_cache_ready old_board 1000000 lb_chatbot_arena_elo
      (discovery_leaderboard_chatbot_arena_cache_hours bench_settings)"
    by (simp add: source_cache_ready_def count_cached_source_entries_def count_if_def old_board_def old_row_def)
  have merge: "merge_scores [(''m'', 1200)] [] = [(''m'', Some 1200, None)]" by (simp add: merge_scores_def)
  have "fst (refresh_leaderboard_cache bench_settings old_board 1000000 (Some [(''m'', 1200)]) None)
      = [UpsertLeaderboard ''m'' (Some 1200) None 1000000]"
    using enabled stale merge
    by (simp only: refresh_leaderboard_cache_def Let_def fst_conv source_scores_def option.case if_cancel simp_thms if_True if_False list.map prod.case)
  then obtain t' where run: "exec_stmts (fst (refresh_leaderboard_cache bench_settings old_board 1000000
      (Some [(''m'', 1200)]) None)) old_board = Some t'"
    by simp
  have row: "map_of (t_leaderboard old_board) ''m'' = Some old_row" "lb_open_llm_avg_score old_row \<noteq> None"
    by (simp_all add: old_board_def old_row_def)
  have "source_cache_ready t' 1003600 lb_open_llm_avg_score 24"
    by (rule failed_source_counts_as_fresh [OF run enabled stale _ row]) (simp_all add: cache_cutoff_def)
  with run show ?thesis by blast
qed

end
