(* ===== verification/FL_Discover.thy ===== *)
theory FL_Discover
  imports FL_Benchmarks FL_Listing FL_Registry FL_Routing FL_Writer
begin

text \<open>
  Model discovery (\<open>src/discover.py\<close>): what the adapters list is enriched with cached benchmark
  scores and submitted to the writer, one upsert per model, and afterwards the models of the
  provider that were not listed are deactivated.

  A listed model is a dictionary of JSON values. \<open>upsert_of\<close> is the binding of the statement's
  parameters: the row, or a rejection by the driver or by a NOT NULL column, which raises in the
  writer thread. A value that SQLite would store in a column of another type has no counterpart in
  the typed tables; then the result is \<open>Illtyped\<close> and the run is outside the model (\<^const>\<open>None\<close>).
\<close>

section \<open>Ranks and benchmark scores\<close>

definition coerce_rank :: "json \<Rightarrow> int option" where
  "coerce_rank v = (case v of
       JNull \<Rightarrow> None
     | JBool b \<Rightarrow> None
     | JList xs \<Rightarrow> None
     | JObj kvs \<Rightarrow> None
     | _ \<Rightarrow> (case py_int_of v of Inl e \<Rightarrow> None | Inr n \<Rightarrow> if 0 < n then Some n else None))"

definition resolve_rank_metadata :: "py_env \<Rightarrow> discovered \<Rightarrow> int option \<times> int option" where
  "resolve_rank_metadata env model =
    (let provider_rank0 = coerce_rank (jget model ''provider_rank'');
         openrouter_rank0 = coerce_rank (jget model ''openrouter_rank'');
         provider_rank = (if provider_rank0 = None then openrouter_rank0 else provider_rank0);
         openrouter_rank = (if openrouter_rank0 = None
            \<and> py_str (env_repr env) (dict_get model ''provider_id'' (JStr [])) = ''openrouter''
            then provider_rank else openrouter_rank0)
     in (provider_rank, openrouter_rank))"

definition lookup_candidates :: "string \<Rightarrow> string list" where
  "lookup_candidates raw =
    (if raw = [] then []
     else let val = py_removesuffix raw '':free'' in
       val # (if CHR ''/'' \<in> set val then [last (split_on (CHR ''/'') val)] else []))"

definition benchmark_lookup_keys :: "py_env \<Rightarrow> discovered \<Rightarrow> string list" where
  "benchmark_lookup_keys env model =
    (let raws = map (\<lambda>k. py_str (env_repr env) (dict_get model k (JStr []))) [''provider_model_id'', ''name'', ''id'']
     in dedup_on id [] (filter (\<lambda>n. n \<noteq> []) (map normalize_model_name (concat (map lookup_candidates raws)))))"

definition get_leaderboard_cache :: "tables \<Rightarrow> timestamp \<Rightarrow> string \<Rightarrow> leaderboard_row option" where
  "get_leaderboard_cache t now name = (case map_of (t_leaderboard t) name of
       None \<Rightarrow> None
     | Some r \<Rightarrow> if now - 24 * 3600 \<le> lb_fetched_at r then Some r else None)"

definition json_rat :: "rat option \<Rightarrow> json" where
  "json_rat r = (case r of None \<Rightarrow> JNull | Some x \<Rightarrow> JFloat x)"

definition fill_missing :: "string \<Rightarrow> rat option \<Rightarrow> discovered \<Rightarrow> discovered" where
  "fill_missing key v model = (if jget model key = JNull then AList.update key (json_rat v) model else model)"

definition fully_scored :: "discovered \<Rightarrow> bool" where
  "fully_scored model = (jget model ''chatbot_arena_elo'' \<noteq> JNull \<and> jget model ''open_llm_score'' \<noteq> JNull)"

fun apply_cached :: "tables \<Rightarrow> timestamp \<Rightarrow> string list \<Rightarrow> discovered \<Rightarrow> discovered" where
  "apply_cached t now [] model = model"
| "apply_cached t now (key # keys) model = (case get_leaderboard_cache t now key of
       None \<Rightarrow> apply_cached t now keys model
     | Some r \<Rightarrow>
         (let model' = fill_missing ''open_llm_score'' (lb_open_llm_avg_score r)
                (fill_missing ''chatbot_arena_elo'' (lb_chatbot_arena_elo r) model)
          in if fully_scored model' then model' else apply_cached t now keys model'))"

definition apply_cached_benchmarks :: "py_env \<Rightarrow> tables \<Rightarrow> timestamp \<Rightarrow> discovered \<Rightarrow> discovered" where
  "apply_cached_benchmarks env t now model =
    (if fully_scored model then model else apply_cached t now (benchmark_lookup_keys env model) model)"

section \<open>Binding a model row\<close>

datatype 'a cell = Fits 'a | Unbindable | Illtyped

definition text_cell :: "json \<Rightarrow> string option cell" where
  "text_cell v = (case v of
       JNull \<Rightarrow> Fits None
     | JStr s \<Rightarrow> Fits (Some s)
     | JInt i \<Rightarrow> if bindable v then Fits (Some (show_int i)) else Unbindable
     | JBool b \<Rightarrow> Fits (Some (if b then ''1'' else ''0''))
     | JFloat r \<Rightarrow> Illtyped
     | _ \<Rightarrow> Unbindable)"

definition required_text :: "json \<Rightarrow> string cell" where
  "required_text v = (case text_cell v of
       Fits None \<Rightarrow> Unbindable | Fits (Some s) \<Rightarrow> Fits s | Unbindable \<Rightarrow> Unbindable | Illtyped \<Rightarrow> Illtyped)"

definition int_cell :: "json \<Rightarrow> int option cell" where
  "int_cell v = (case v of
       JNull \<Rightarrow> Fits None
     | JInt i \<Rightarrow> if bindable v then Fits (Some i) else Unbindable
     | JBool b \<Rightarrow> Fits (Some (if b then 1 else 0))
     | JFloat r \<Rightarrow> Illtyped
     | JStr s \<Rightarrow> Illtyped
     | _ \<Rightarrow> Unbindable)"

definition real_cell :: "json \<Rightarrow> rat option cell" where
  "real_cell v = (case v of
       JNull \<Rightarrow> Fits None
     | JFloat r \<Rightarrow> Fits (Some r)
     | JInt i \<Rightarrow> if bindable v then Fits (Some (of_int i)) else Unbindable
     | JBool b \<Rightarrow> Fits (Some (if b then 1 else 0))
     | JStr s \<Rightarrow> Illtyped
     | _ \<Rightarrow> Unbindable)"

definition flag_cell :: "json \<Rightarrow> bool cell" where
  "flag_cell v = (case v of
       JBool b \<Rightarrow> Fits b
     | JInt i \<Rightarrow> if i = 0 then Fits False else if i = 1 then Fits True else if bindable v then Illtyped else Unbindable
     | JList xs \<Rightarrow> Unbindable
     | JObj kvs \<Rightarrow> Unbindable
     | _ \<Rightarrow> Illtyped)"

definition bind_cell :: "'a cell \<Rightarrow> ('a \<Rightarrow> 'b cell) \<Rightarrow> 'b cell" where
  "bind_cell c f = (case c of
       Unbindable \<Rightarrow> Unbindable
     | Illtyped \<Rightarrow> Illtyped
     | Fits x \<Rightarrow> f x)"

text \<open>The parameters in the order of the column list; the driver stops at the first it rejects.\<close>

definition bind_model_row :: "timestamp \<Rightarrow> discovered \<Rightarrow> int option \<Rightarrow> int option \<Rightarrow> model_row cell" where
  "bind_model_row now model provider_rank openrouter_rank =
    bind_cell (required_text (jget model ''id'')) (\<lambda>mid.
    bind_cell (required_text (jget model ''name'')) (\<lambda>name.
    bind_cell (required_text (jget model ''provider_id'')) (\<lambda>provider.
    bind_cell (required_text (jget model ''provider_model_id'')) (\<lambda>provider_model.
    bind_cell (required_text (jget model ''provider_base_url'')) (\<lambda>base_url.
    bind_cell (required_text (jget model ''provider_api_key_env'')) (\<lambda>key_env.
    bind_cell (text_cell (jget model ''endpoint_id'')) (\<lambda>endpoint.
    bind_cell (text_cell (jget model ''provider_options_json'')) (\<lambda>options.
    bind_cell (int_cell (dict_get model ''context_window'' (JInt 4096))) (\<lambda>context.
    bind_cell (int_cell (jget model ''max_output_tokens'')) (\<lambda>max_output.
    bind_cell (flag_cell (dict_get model ''supports_tools'' (JInt 0))) (\<lambda>tools.
    bind_cell (flag_cell (dict_get model ''supports_streaming'' (JInt 1))) (\<lambda>streaming.
    bind_cell (flag_cell (dict_get model ''supports_vision'' (JInt 0))) (\<lambda>vision.
    bind_cell (flag_cell (dict_get model ''supports_structured_output'' (JInt 0))) (\<lambda>structured.
    bind_cell (flag_cell (dict_get model ''supports_system_messages'' (JInt 1))) (\<lambda>system.
    bind_cell (text_cell (jget model ''tokenizer_family'')) (\<lambda>tokenizer.
    bind_cell (int_cell (json_int provider_rank)) (\<lambda>p_rank.
    bind_cell (int_cell (json_int openrouter_rank)) (\<lambda>o_rank.
    bind_cell (real_cell (jget model ''chatbot_arena_elo'')) (\<lambda>elo.
    bind_cell (real_cell (jget model ''open_llm_score'')) (\<lambda>llm.
    bind_cell (flag_cell (dict_get model ''is_healthy'' (JInt 1))) (\<lambda>healthy.
      Fits \<lparr>m_id = mid, m_name = name, m_provider_id = provider, m_endpoint_id = endpoint,
        m_provider_model_id = provider_model, m_provider_base_url = base_url, m_provider_api_key_env = key_env,
        m_provider_options_json = options, m_context_window = context, m_max_output_tokens = max_output,
        m_tokenizer_family = tokenizer, m_supports_tools = tools, m_supports_streaming = streaming,
        m_supports_vision = vision, m_supports_structured_output = structured, m_supports_system_messages = system,
        m_chatbot_arena_elo = elo, m_open_llm_score = llm, m_provider_rank = p_rank, m_openrouter_rank = o_rank,
        m_is_healthy = healthy, m_last_health_check = None, m_avg_latency_ms = None, m_avg_ttfb_ms = None,
        m_consecutive_failures = 0, m_backoff_level = 0, m_cooldown_until = None, m_last_error = None,
        m_last_probe_at = None, m_last_success_at = None, m_last_failure_at = None, m_last_routed_at = None,
        m_composite_score = 0, m_score_updated_at = Some now, m_discovered_at = now, m_last_seen_at = now,
        m_is_active = True\<rparr>)))))))))))))))))))))"

definition REQUIRED_KEYS :: "string list" where
  "REQUIRED_KEYS = [''id'', ''name'', ''provider_id'', ''provider_model_id'', ''provider_base_url'', ''provider_api_key_env'']"

section \<open>A discovery run\<close>

text \<open>
  The loop over the listed models: the statements submitted, and the identifiers seen or the
  \<open>KeyError\<close> of a missing entry. \<^const>\<open>None\<close> when a value has another type than its column.
\<close>

fun discover_listed ::
  "py_env \<Rightarrow> tables \<Rightarrow> timestamp \<Rightarrow> discovered list \<Rightarrow> (stmt list \<times> (py_error + model_id list)) option" where
  "discover_listed env t now [] = Some ([], Inr [])"
| "discover_listed env t now (listed # rest) =
    (let model = apply_cached_benchmarks env t now listed;
         (provider_rank, openrouter_rank) = resolve_rank_metadata env model
     in if \<not> set REQUIRED_KEYS \<subseteq> fst ` set model then Some ([], Inl KeyError)
        else case (case bind_model_row now model provider_rank openrouter_rank of
            Illtyped \<Rightarrow> None | Unbindable \<Rightarrow> Some RejectedUpsert | Fits row \<Rightarrow> Some (UpsertModel row)) of
          None \<Rightarrow> None
        | Some st \<Rightarrow> (case discover_listed env t now rest of
              None \<Rightarrow> None
            | Some (sts, r) \<Rightarrow> Some (st # sts,
                (case r of Inl e \<Rightarrow> Inl e | Inr seen \<Rightarrow> Inr (py_str (env_repr env) (jget model ''id'') # seen)))))"

text \<open>One provider: \<open>listing\<close> is what its \<open>discover_models\<close> returned or raised.\<close>

definition discover_provider ::
  "py_env \<Rightarrow> tables \<Rightarrow> timestamp \<Rightarrow> provider_id \<Rightarrow> (fetch_failure + discovered list)
   \<Rightarrow> (stmt list \<times> (fetch_failure + nat)) option" where
  "discover_provider env t now name listing = (case listing of
       Inl f \<Rightarrow> Some ([], Inl f)
     | Inr models \<Rightarrow> (case discover_listed env t now models of
           None \<Rightarrow> None
         | Some (sts, Inl e) \<Rightarrow> Some (sts, Inl (FPython e))
         | Some (sts, Inr seen) \<Rightarrow> Some (sts @ [MarkModelsNotSeen name seen], Inr (length models))))"

text \<open>
  The run over the registry; the first exception ends it. \<open>reads\<close> gives the committed tables when
  the models of a provider are enriched.
\<close>

fun discover_providers ::
  "py_env \<Rightarrow> (provider_id \<Rightarrow> tables) \<Rightarrow> timestamp \<Rightarrow> (adapter \<Rightarrow> fetch_failure + discovered list) \<Rightarrow> adapter list
   \<Rightarrow> (stmt list \<times> (fetch_failure + nat)) option" where
  "discover_providers env reads now listing [] = Some ([], Inr 0)"
| "discover_providers env reads now listing (ad # ads) =
    (case discover_provider env (reads (ad_name ad)) now (ad_name ad) (listing ad) of
       None \<Rightarrow> None
     | Some (sts, Inl f) \<Rightarrow> Some (sts, Inl f)
     | Some (sts, Inr n) \<Rightarrow> (case discover_providers env reads now listing ads of
           None \<Rightarrow> None
         | Some (sts', r) \<Rightarrow> Some (sts @ sts', (case r of Inl f \<Rightarrow> Inl f | Inr m \<Rightarrow> Inr (n + m)))))"

text \<open>\<open>run_discovery\<close> with settings: the benchmark refresh, a flush, then the providers.\<close>

definition run_discovery ::
  "py_env \<Rightarrow> settings \<Rightarrow> registry \<Rightarrow> tables \<Rightarrow> timestamp \<Rightarrow> scores option \<Rightarrow> scores option
   \<Rightarrow> (provider_id \<Rightarrow> tables) \<Rightarrow> (adapter \<Rightarrow> fetch_failure + discovered list)
   \<Rightarrow> stmt list \<times> (stmt list \<times> (fetch_failure + nat)) option" where
  "run_discovery env s reg t now arena_task open_llm_task reads listing =
     (fst (refresh_leaderboard_cache s t now arena_task open_llm_task),
      discover_providers env reads now listing (registry_all reg))"

section \<open>What a run leaves behind\<close>

definition upserted :: "stmt list \<Rightarrow> model_row list \<Rightarrow> bool" where
  "upserted sts rows = (sts = map UpsertModel rows)"

definition listed_by :: "provider_id \<Rightarrow> model_id \<Rightarrow> tables \<Rightarrow> bool" where
  "listed_by p i t = (i \<in> m_id ` set (t_models t)
     \<and> (\<forall>m \<in> set (t_models t). m_id m = i \<longrightarrow> m_is_active m \<and> m_is_healthy m \<and> m_provider_id m = p))"

lemma update_ids: "(\<And>m. m_id (f m) = m_id m) \<Longrightarrow> m_id ` set (t_models (update_models p f t)) = m_id ` set (t_models t)"
  using arg_cong [OF map_id_update_models [of f p t], of set] by (simp only: set_map)

lemma upsert_ids: "m_id ` set (t_models (upsert_model row t)) = insert (m_id row) (m_id ` set (t_models t))"
  using update_ids [of "upsert_model_row row" "\<lambda>m. m_id m = m_id row" t]
  by (auto simp: upsert_model_def simp del: t_models_update_models)

lemma upsert_lists:
  assumes "m_provider_id row = p" and "m_is_active row" and "m_is_healthy row"
  shows "listed_by p (m_id row) (upsert_model row t)"
proof (cases "m_id row \<in> m_id ` set (t_models t)")
  case True
  with assms show ?thesis unfolding listed_by_def upsert_ids by (auto simp: upsert_model_def upsert_model_row_def)
next
  case False
  then have "m_id m \<noteq> m_id row" if "m \<in> set (t_models t)" for m using that by (metis imageI)
  with False assms show ?thesis unfolding listed_by_def upsert_ids by (auto simp: upsert_model_def)
qed

lemma in_update_keep: "m \<in> set (t_models t) \<Longrightarrow> \<not> p m \<Longrightarrow> m \<in> set (t_models (update_models p f t))"
  using image_eqI [of m "\<lambda>m. if p m then f m else m" m "set (t_models t)"] by simp

lemma upsert_keeps_listed:
  assumes "listed_by p i t" and "m_provider_id row = p" and "m_is_active row" and "m_is_healthy row"
  shows "listed_by p i (upsert_model row t)"
proof (cases "m_id row = i")
  case True
  with upsert_lists [OF assms(2,3,4)] show ?thesis by blast
next
  case False
  with assms show ?thesis
    by (auto simp: listed_by_def upsert_ids) (auto simp: upsert_model_def upsert_model_row_def split: if_splits)
qed

lemma exec_rows_listed:
  "exec_stmts (map UpsertModel rows) t = Some t' \<Longrightarrow> list_all (\<lambda>r. m_provider_id r = p \<and> m_is_active r \<and> m_is_healthy r) rows \<Longrightarrow>
   i \<in> m_id ` set rows \<or> listed_by p i t \<Longrightarrow> listed_by p i t'"
proof (induction rows arbitrary: t)
  case (Cons r rows)
  then have run: "exec_stmts (map UpsertModel rows) (upsert_model r t) = Some t'" by simp
  from Cons.prems(2,3) have "i \<in> m_id ` set rows \<or> listed_by p i (upsert_model r t)"
    using upsert_lists [of r p t] upsert_keeps_listed [of p i t r] by auto
  with Cons.IH [OF run] Cons.prems(2) show ?case by simp
qed simp

lemma exec_rows_others:
  assumes "exec_stmts (map UpsertModel rows) t = Some t'" and "i \<notin> m_id ` set rows"
  shows "filter (\<lambda>m. m_id m = i) (t_models t') = filter (\<lambda>m. m_id m = i) (t_models t)"
  using assms
proof (induction rows arbitrary: t)
  case (Cons r rows)
  have keep: "filter (\<lambda>m. m_id m = i) (map (\<lambda>m. if m_id m = m_id r then upsert_model_row r m else m) ms)
      = filter (\<lambda>m. m_id m = i) ms" if "m_id r \<noteq> i" for ms
    using that by (induction ms) auto
  from Cons have "filter (\<lambda>m. m_id m = i) (t_models t') = filter (\<lambda>m. m_id m = i) (t_models (upsert_model r t))" by simp
  with Cons.prems(2) keep show ?case by (auto simp: upsert_model_def)
qed simp

definition active_ids :: "tables \<Rightarrow> provider_id \<Rightarrow> model_id set" where
  "active_ids t p = m_id ` set (filter (\<lambda>m. m_provider_id m = p \<and> m_is_active m) (t_models t))"

lemma sync_provider:
  assumes "exec_stmts (map UpsertModel rows @ [MarkModelsNotSeen p (map m_id rows)]) t = Some t'"
    and "list_all (\<lambda>r. m_provider_id r = p \<and> m_is_active r \<and> m_is_healthy r) rows"
  shows "active_ids t' p = m_id ` set rows"
    and "list_all (\<lambda>m. m_id m \<in> m_id ` set rows \<longrightarrow> m_is_healthy m) (t_models t')"
    and "i \<notin> m_id ` set rows \<Longrightarrow>
      filter (\<lambda>m. m_id m = i \<and> m_provider_id m \<noteq> p) (t_models t') = filter (\<lambda>m. m_id m = i \<and> m_provider_id m \<noteq> p) (t_models t)"
proof -
  obtain t1 where run: "exec_stmts (map UpsertModel rows) t = Some t1"
    and t': "t' = update_models (\<lambda>m. m_provider_id m = p \<and> m_id m \<notin> set (map m_id rows)) (\<lambda>m. m\<lparr>m_is_active := False\<rparr>) t1"
    using assms(1) by (auto simp: exec_stmts_append split: option.splits)
  have listed: "listed_by p i t1" if "i \<in> m_id ` set rows" for i
    using exec_rows_listed [OF run assms(2)] that by blast
  show "active_ids t' p = m_id ` set rows"
  proof
    show "active_ids t' p \<subseteq> m_id ` set rows"
    proof
      fix i assume "i \<in> active_ids t' p"
      then obtain m where m: "m \<in> set (t_models t')" "m_provider_id m = p" "m_is_active m" "i = m_id m"
        by (auto simp: active_ids_def)
      from m(1) obtain m1 where "m = (if m_provider_id m1 = p \<and> m_id m1 \<notin> set (map m_id rows) then m1\<lparr>m_is_active := False\<rparr> else m1)"
        unfolding t' by (rule in_update_models)
      with m(2,3) have "m_id m \<in> set (map m_id rows)" by (auto split: if_splits)
      with m(4) show "i \<in> m_id ` set rows" by simp
    qed
    show "m_id ` set rows \<subseteq> active_ids t' p"
    proof
      fix i assume i: "i \<in> m_id ` set rows"
      with listed [OF this] obtain m where "m \<in> set (t_models t1)" "m_id m = i" "m_is_active m" "m_provider_id m = p"
        by (auto simp: listed_by_def)
      moreover from this i have "m \<in> set (t_models t')" unfolding t' by (intro in_update_keep) simp_all
      ultimately show "i \<in> active_ids t' p" by (auto simp: active_ids_def)
    qed
  qed
  show "list_all (\<lambda>m. m_id m \<in> m_id ` set rows \<longrightarrow> m_is_healthy m) (t_models t')"
    unfolding list_all_iff
  proof (intro ballI impI)
    fix m assume m: "m \<in> set (t_models t')" "m_id m \<in> m_id ` set rows"
    from m(1) obtain m1 where m1: "m1 \<in> set (t_models t1)"
      "m = (if m_provider_id m1 = p \<and> m_id m1 \<notin> set (map m_id rows) then m1\<lparr>m_is_active := False\<rparr> else m1)"
      unfolding t' by (rule in_update_models)
    then have same: "m_id m = m_id m1" "m_is_healthy m = m_is_healthy m1" by (simp_all split: if_split)
    with listed [OF m(2)] m1(1) show "m_is_healthy m" by (simp add: listed_by_def)
  qed
  assume i: "i \<notin> m_id ` set rows"
  let ?off = "\<lambda>m. if m_provider_id m = p \<and> m_id m \<notin> set (map m_id rows) then m\<lparr>m_is_active := False\<rparr> else m"
  have keep: "filter (\<lambda>m. m_id m = i \<and> m_provider_id m \<noteq> p) (map ?off ms) = filter (\<lambda>m. m_id m = i \<and> m_provider_id m \<noteq> p) ms" for ms
  proof (induction ms)
    case (Cons m ms)
    show ?case by (cases "m_provider_id m = p") (simp_all only: list.map filter.simps Cons.IH simp_thms if_True if_False, simp)
  qed simp
  have "filter (\<lambda>m. m_id m = i \<and> m_provider_id m \<noteq> p) ms = filter (\<lambda>m. m_provider_id m \<noteq> p) (filter (\<lambda>m. m_id m = i) ms)" for ms
    by (simp only: filter_filter)
  with exec_rows_others [OF run i] keep [of "t_models t1"]
  show "filter (\<lambda>m. m_id m = i \<and> m_provider_id m \<noteq> p) (t_models t') = filter (\<lambda>m. m_id m = i \<and> m_provider_id m \<noteq> p) (t_models t)"
    unfolding t' t_models_update_models by metis
qed

lemma bind_cell_Fits: "bind_cell c f = Fits y \<longleftrightarrow> (\<exists>x. c = Fits x \<and> f x = Fits y)"
  by (cases c) (simp_all add: bind_cell_def)

lemma bind_model_row_facts:
  assumes "bind_model_row now model pr orank = Fits row"
  shows "required_text (jget model ''id'') = Fits (m_id row)"
    and "required_text (jget model ''provider_id'') = Fits (m_provider_id row)"
    and "m_is_active row"
    and "flag_cell (dict_get model ''is_healthy'' (JInt 1)) = Fits (m_is_healthy row)"
  using assms by (auto simp: bind_model_row_def bind_cell_Fits)

definition well_named :: "provider_id \<Rightarrow> discovered \<Rightarrow> bool" where
  "well_named p model = (jget model ''provider_id'' = JStr p \<and> (case jget model ''id'' of JStr i \<Rightarrow> True | _ \<Rightarrow> False)
     \<and> jget model ''is_healthy'' = JInt 1)"

lemma jget_update [simp]: "jget (AList.update k v d) k' = (if k' = k then v else jget d k')"
  by (simp add: jget_def)

lemma jget_fill_missing [simp]: "k \<noteq> key \<Longrightarrow> jget (fill_missing key v model) k = jget model k"
  by (simp add: fill_missing_def)

lemma jget_apply_cached:
  "k \<notin> {''chatbot_arena_elo'', ''open_llm_score''} \<Longrightarrow> jget (apply_cached t now keys model) k = jget model k"
  by (induction t now keys model rule: apply_cached.induct) (simp_all add: Let_def split: option.split)

lemma jget_apply_cached_benchmarks:
  "k \<notin> {''chatbot_arena_elo'', ''open_llm_score''} \<Longrightarrow> jget (apply_cached_benchmarks env t now model) k = jget model k"
  by (simp add: apply_cached_benchmarks_def jget_apply_cached)

definition listed_id :: "py_env \<Rightarrow> discovered \<Rightarrow> model_id" where
  "listed_id env model = py_str (env_repr env) (jget model ''id'')"

lemma discover_listed_rows:
  assumes "discover_listed env t now models = Some (sts, Inr seen)" and "RejectedUpsert \<notin> set sts"
    and "list_all (well_named p) models"
  shows "\<exists>rows. sts = map UpsertModel rows
    \<and> list_all (\<lambda>r. m_provider_id r = p \<and> m_is_active r \<and> m_is_healthy r) rows
    \<and> map m_id rows = seen \<and> seen = map (listed_id env) models"
  using assms
proof (induction models arbitrary: sts seen)
  case Nil
  then show ?case by simp
next
  case (Cons listed rest)
  define model where "model = apply_cached_benchmarks env t now listed"
  obtain pr orank where ranks: "resolve_rank_metadata env model = (pr, orank)" by fastforce
  from Cons.prems(1) ranks obtain st sts' seen' where
    st: "(case bind_model_row now model pr orank of
        Illtyped \<Rightarrow> None | Unbindable \<Rightarrow> Some RejectedUpsert | Fits row \<Rightarrow> Some (UpsertModel row)) = Some st"
    and rest: "discover_listed env t now rest = Some (sts', Inr seen')"
    and out: "sts = st # sts'" "seen = py_str (env_repr env) (jget model ''id'') # seen'"
    by (auto simp: Let_def simp flip: model_def split: if_splits option.splits sum.splits)
  with Cons.prems(2) obtain row where row: "bind_model_row now model pr orank = Fits row" "st = UpsertModel row"
    by (auto split: cell.splits)
  have same: "jget model k = jget listed k" if "k \<notin> {''chatbot_arena_elo'', ''open_llm_score''}" for k
    using that by (simp add: model_def jget_apply_cached_benchmarks)
  from Cons.prems(3) obtain i where names: "jget model ''provider_id'' = JStr p" "jget model ''id'' = JStr i"
    and healthy: "jget model ''is_healthy'' = JInt 1"
    by (auto simp: well_named_def same split: json.splits)
  from healthy have "dict_get model ''is_healthy'' (JInt 1) = JInt 1"
    by (auto simp: jget_def dict_get_def split: option.splits)
  with bind_model_row_facts [OF row(1)] names have facts: "m_id row = i" "m_provider_id row = p" "m_is_active row" "m_is_healthy row"
    by (auto simp: required_text_def text_cell_def flag_cell_def)
  have "listed_id env listed = i" using names(2) same [of "''id''"] by (simp add: listed_id_def)
  moreover from Cons.IH [OF rest] Cons.prems(2,3) out(1) obtain rows where "sts' = map UpsertModel rows"
    "list_all (\<lambda>r. m_provider_id r = p \<and> m_is_active r \<and> m_is_healthy r) rows"
    "map m_id rows = seen'" "seen' = map (listed_id env) rest" by auto
  ultimately show ?case using out row(2) facts names(2) by (intro exI [of _ "row # rows"]) simp
qed

section \<open>The shipped adapters\<close>

definition adapter_listing :: "py_env \<Rightarrow> adapter \<Rightarrow> attempt \<Rightarrow> fetch_failure + discovered list" where
  "adapter_listing env ad answer =
    (if ad_name ad = ''openrouter'' then openrouter_discover_models env ad answer else openai_discover_models env ad answer)"

lemma listed_models_named:
  "listed_models env ad index vs = Inr ds \<Longrightarrow> list_all (well_named (ad_name ad)) ds"
proof (induction vs arbitrary: index ds)
  case (Cons v vs)
  have "well_named (ad_name ad) (discovered_row env ad index row i c m)" for row i c m
    by (simp add: discovered_row_def well_named_def Let_def jget_def dict_get_def)
  with Cons show ?case
    by (cases v) (auto simp: Let_def sbind_Inr split: if_splits)
qed simp

lemma openrouter_rows_named: "openrouter_rows env ad index vs = Inr ds \<Longrightarrow> list_all (well_named ''openrouter'') ds"
proof (induction vs arbitrary: index ds)
  case (Cons v vs)
  have "well_named ''openrouter'' d" if "openrouter_row env ad index v i = Inr d" for i d
    using that by (auto simp: openrouter_row_def sbind_Inr well_named_def jget_def dict_get_def)
  with Cons show ?case by (auto simp: sbind_Inr split: if_splits)
qed simp

lemma from_py_Inr: "from_py r = Inr x \<longleftrightarrow> r = Inr x"
  by (cases r) (simp_all add: from_py_def)

lemma fallback_named: "well_named ''openrouter'' (fallback_model ad)"
  by (simp add: well_named_def fallback_model_def jget_def dict_get_def)

lemma adapter_listing_named: "adapter_listing env ad answer = Inr ds \<Longrightarrow> list_all (well_named (ad_name ad)) ds"
proof (cases "ad_name ad = ''openrouter''")
  case True
  assume "adapter_listing env ad answer = Inr ds"
  with True have run: "openrouter_discover_models env ad answer = Inr ds" by (simp add: adapter_listing_def)
  show ?thesis
  proof (cases "ad_api_key ad = []")
    case key: True
    with run have "ds = [fallback_model ad]" by (simp add: openrouter_discover_models_def split: if_splits)
    with True show ?thesis by (simp add: fallback_named)
  next
    case False
    with run True show ?thesis
      by (auto simp: openrouter_discover_models_def sbind_Inr from_py_Inr dest: openrouter_rows_named split: option.splits)
  qed
next
  case False
  assume "adapter_listing env ad answer = Inr ds"
  with False show ?thesis
    by (auto simp: adapter_listing_def openai_discover_models_def sbind_Inr from_py_Inr dest: listed_models_named
        split: if_splits option.splits json.splits)
qed

text \<open>
  C35 (functional). Discovery synchronises a provider: once the statements of a successful listing by
  a shipped adapter are executed, the active models of the provider are exactly the listed ones,
  and they are all flagged healthy. In particular a model that an administrator had switched off,
  or that the circuit breaker had opened, is back.
\<close>

theorem discovery_syncs_activity:
  assumes "adapter_listing env ad answer = Inr models"
    and "discover_provider env t now (ad_name ad) (Inr models) = Some (sts, Inr n)"
    and "exec_stmts sts tb = Some tb'"
  shows "active_ids tb' (ad_name ad) = listed_id env ` set models
    \<and> list_all (\<lambda>m. m_id m \<in> listed_id env ` set models \<longrightarrow> m_is_healthy m) (t_models tb')"
proof -
  from assms(2) obtain sts0 seen where listed: "discover_listed env t now models = Some (sts0, Inr seen)"
    and sts: "sts = sts0 @ [MarkModelsNotSeen (ad_name ad) seen]"
    by (auto simp: discover_provider_def split: option.splits sum.splits)
  have "RejectedUpsert \<notin> set sts0"
  proof
    assume "RejectedUpsert \<in> set sts0"
    then obtain xs ys where "sts0 = xs @ RejectedUpsert # ys" by (meson split_list)
    with assms(3) sts show False by (auto simp: exec_stmts_append split: option.splits)
  qed
  from discover_listed_rows [OF listed this adapter_listing_named [OF assms(1)]] obtain rows where
    rows: "sts0 = map UpsertModel rows" "list_all (\<lambda>r. m_provider_id r = ad_name ad \<and> m_is_active r \<and> m_is_healthy r) rows"
      "map m_id rows = seen" "seen = map (listed_id env) models" by blast
  from assms(3) sts rows(1,3) have run: "exec_stmts (map UpsertModel rows @ [MarkModelsNotSeen (ad_name ad) (map m_id rows)]) tb = Some tb'"
    by simp
  have ids: "set (map m_id rows) = listed_id env ` set models" using rows(3,4) by simp
  from sync_provider(1,2) [OF run rows(2)] show ?thesis unfolding set_map [symmetric] ids by simp
qed

definition groq_adapter :: adapter where
  "groq_adapter = openai_compatible_adapter ''groq'' ''k3y'' ''https://api.groq.com/openai/v1'' ''GROQ_API_KEY''"

definition groq_env :: py_env where
  "groq_env = \<lparr>env_loads = (\<lambda>b. Some (JObj [(''data'', JList [JNull, JObj [(''id'', JStr ''m''), (''context_window'', JStr ''8192'')]])])),
     env_loads_text = (\<lambda>b. None), env_decode_ignore = id, env_decode_replace = id, env_repr = (\<lambda>v. [])\<rparr>"

theorem discovery_syncs_activity_witness:
  "\<exists>models sts n tb'. adapter_listing groq_env groq_adapter (AResponse 200 ''{}'') = Inr models
     \<and> discover_provider groq_env empty_tables 100 ''groq'' (Inr models) = Some (sts, Inr n)
     \<and> exec_stmts sts empty_tables = Some tb' \<and> active_ids tb' ''groq'' = {''groq/m''}"
proof -
  have name: "ad_name groq_adapter = ''groq''" by (simp add: groq_adapter_def openai_compatible_adapter_def)
  have "(case adapter_listing groq_env groq_adapter (AResponse 200 ''{}'') of Inl e \<Rightarrow> False | Inr models \<Rightarrow>
      map (listed_id groq_env) models = [''groq/m'']
      \<and> (case discover_provider groq_env empty_tables 100 ''groq'' (Inr models) of
           Some (sts, Inr n) \<Rightarrow> (case exec_stmts sts empty_tables of None \<Rightarrow> False | Some t \<Rightarrow> True) | _ \<Rightarrow> False))"
    by code_simp
  then obtain models where m: "adapter_listing groq_env groq_adapter (AResponse 200 ''{}'') = Inr models"
    and ids: "map (listed_id groq_env) models = [''groq/m'']"
    and sync: "(case discover_provider groq_env empty_tables 100 ''groq'' (Inr models) of
           Some (sts, Inr n) \<Rightarrow> (case exec_stmts sts empty_tables of None \<Rightarrow> False | Some t \<Rightarrow> True) | _ \<Rightarrow> False)"
    by (cases "adapter_listing groq_env groq_adapter (AResponse 200 ''{}'')") simp_all
  from sync obtain sts r where d: "discover_provider groq_env empty_tables 100 ''groq'' (Inr models) = Some (sts, r)"
    by (cases "discover_provider groq_env empty_tables 100 ''groq'' (Inr models)") auto
  with sync obtain n where n: "r = Inr n" by (cases r) simp_all
  with sync d obtain tb' where "exec_stmts sts empty_tables = Some tb'"
    by (cases "exec_stmts sts empty_tables") simp_all
  note run = m d [unfolded n] this
  have "listed_id groq_env ` set models = {''groq/m''}" using arg_cong [OF ids, of set] by simp
  with discovery_syncs_activity [OF run(1) run(2) [folded name] run(3)] run show ?thesis unfolding name by auto
qed

section \<open>Listed values and column types\<close>

definition storable :: "discovered \<Rightarrow> bool" where
  "storable d = (bindable (jget d ''context_window'') \<and> bindable (jget d ''max_output_tokens'')
     \<and> bindable (jget d ''provider_rank''))"

definition is_row :: "py_env \<Rightarrow> adapter \<Rightarrow> discovered \<Rightarrow> bool" where
  "is_row env ad d = (\<exists>ix row i c m. d = discovered_row env ad (Suc ix) row i c m)"

lemma is_rowI [simp]: "is_row env ad (discovered_row env ad (Suc ix) row i c m)"
  unfolding is_row_def by blast

lemma listed_models_rows: "listed_models env ad (Suc ix) vs = Inr ds \<Longrightarrow> list_all (is_row env ad) ds"
proof (induction vs arbitrary: ix ds)
  case (Cons v vs)
  then show ?case by (cases v) (auto simp: Let_def sbind_Inr split: if_splits)
qed simp

lemma jget_row:
  "jget (discovered_row env ad ix row i c m) ''context_window''
    = JInt (case c of None \<Rightarrow> 4096 | Some n \<Rightarrow> if n = 0 then 4096 else n)"
  "jget (discovered_row env ad ix row i c m) ''max_output_tokens'' = json_int m"
  "jget (discovered_row env ad ix row i c m) ''provider_rank'' = JInt (int ix)"
  "jget (discovered_row env ad ix row i c m) ''openrouter_rank'' = JNull"
  "jget (discovered_row env ad ix row i c m) ''provider_id'' = JStr (ad_name ad)"
  "jget (discovered_row env ad ix row i c m) ''id'' = JStr (ad_name ad @ ''/'' @ i)"
  "\<exists>s. jget (discovered_row env ad ix row i c m) ''name'' = JStr s"
  "jget (discovered_row env ad ix row i c m) ''provider_model_id'' = JStr i"
  "jget (discovered_row env ad ix row i c m) ''provider_base_url'' = JStr (ad_api_base ad)"
  "jget (discovered_row env ad ix row i c m) ''provider_api_key_env'' = JStr (ad_api_key_env ad)"
  "jget (discovered_row env ad ix row i c m) ''endpoint_id'' = JNull"
  "jget (discovered_row env ad ix row i c m) ''provider_options_json'' = JNull"
  "\<exists>s. jget (discovered_row env ad ix row i c m) ''tokenizer_family'' = json_text s"
  "\<exists>b. jget (discovered_row env ad ix row i c m) ''supports_tools'' = int_flag b"
  "\<exists>b. jget (discovered_row env ad ix row i c m) ''supports_streaming'' = int_flag b"
  "\<exists>b. jget (discovered_row env ad ix row i c m) ''supports_vision'' = int_flag b"
  "\<exists>b. jget (discovered_row env ad ix row i c m) ''supports_structured_output'' = int_flag b"
  "jget (discovered_row env ad ix row i c m) ''supports_system_messages'' = JInt 1"
  "jget (discovered_row env ad ix row i c m) ''is_healthy'' = JInt 1"
  "jget (discovered_row env ad ix row i c m) ''chatbot_arena_elo'' = JNull"
  "jget (discovered_row env ad ix row i c m) ''open_llm_score'' = JNull"
  unfolding discovered_row_def Let_def jget_def dict_get_def by (simp_all, blast+)

definition score_like :: "json \<Rightarrow> bool" where
  "score_like v = (case v of JNull \<Rightarrow> True | JFloat r \<Rightarrow> True | _ \<Rightarrow> False)"

lemma score_like_fill: "score_like (jget model k) \<Longrightarrow> score_like (jget (fill_missing key v model) k)"
  by (simp add: fill_missing_def json_rat_def score_like_def split: option.split)

lemma score_like_cached:
  "score_like (jget model k) \<Longrightarrow> score_like (jget (apply_cached_benchmarks env t now model) k)"
proof -
  have "score_like (jget model k) \<Longrightarrow> score_like (jget (apply_cached t now keys model) k)" for keys
    by (induction t now keys model rule: apply_cached.induct) (simp_all add: Let_def score_like_fill split: option.split)
  then show "score_like (jget model k) \<Longrightarrow> ?thesis" by (simp add: apply_cached_benchmarks_def)
qed

lemma real_cell_score: "score_like v \<Longrightarrow> \<exists>x. real_cell v = Fits x"
  by (simp add: score_like_def real_cell_def split: json.splits)

lemma keys_fill: "k \<in> fst ` set model \<Longrightarrow> k \<in> fst ` set (fill_missing key v model)"
  unfolding fill_missing_def by (simp add: dom_update)

lemma keys_apply: "k \<in> fst ` set model \<Longrightarrow> k \<in> fst ` set (apply_cached t now keys model)"
proof (induction t now keys model rule: apply_cached.induct)
  case (2 t now key keys model)
  show ?case
  proof (cases "get_leaderboard_cache t now key")
    case None
    with 2 show ?thesis by simp
  next
    case (Some r)
    let ?m = "fill_missing ''open_llm_score'' (lb_open_llm_avg_score r) (fill_missing ''chatbot_arena_elo'' (lb_chatbot_arena_elo r) model)"
    have "k \<in> fst ` set ?m" by (intro keys_fill 2(3))
    with 2(2) [OF Some HOL.refl] Some show ?thesis by (simp add: Let_def)
  qed
qed simp

lemma keys_cached: "k \<in> fst ` set model \<Longrightarrow> k \<in> fst ` set (apply_cached_benchmarks env t now model)"
  by (simp add: apply_cached_benchmarks_def keys_apply)

lemma dict_get_jget: "jget d k \<noteq> JNull \<Longrightarrow> dict_get d k v = jget d k"
  by (auto simp: jget_def dict_get_def split: option.split)

lemma required_text_JStr [simp]: "required_text (JStr s) = Fits s"
  by (simp add: required_text_def text_cell_def)

lemma flag_cell_flag [simp]: "flag_cell (int_flag b) = Fits b"
  by (simp add: flag_cell_def int_flag_def)

lemma cell_simps [simp]:
  "text_cell JNull = Fits None" "text_cell (json_text s) = Fits s" "flag_cell (JInt 1) = Fits True"
  "int_cell (json_int x) = (if bindable (json_int x) then Fits x else Unbindable)"
  "int_cell (JInt n) = (if bindable (JInt n) then Fits (Some n) else Unbindable)"
  by (simp_all add: text_cell_def json_text_def flag_cell_def int_cell_def json_int_def split: option.split)

lemma bind_cell_simps [simp]:
  "bind_cell (Fits x) f = f x" "bind_cell Unbindable f = Unbindable" "bind_cell (if b then Fits x else Unbindable) f = (if b then f x else Unbindable)"
  by (simp_all add: bind_cell_def)

lemma bind_listed:
  assumes "is_row env ad d" and "d' = apply_cached_benchmarks env t now d"
    and "resolve_rank_metadata env d' = (pr, orank)"
  shows "set REQUIRED_KEYS \<subseteq> fst ` set d'"
    and "(\<exists>row. bind_model_row now d' pr orank = Fits row) \<and> storable d
      \<or> bind_model_row now d' pr orank = Unbindable \<and> \<not> storable d"
proof -
  obtain ix row i c m where d: "d = discovered_row env ad (Suc ix) row i c m" using assms(1) by (auto simp: is_row_def)
  note jr = jget_row [of env ad "Suc ix" row i c m]
  have "set REQUIRED_KEYS \<subseteq> fst ` set d" by (simp add: d discovered_row_def REQUIRED_KEYS_def Let_def)
  then show "set REQUIRED_KEYS \<subseteq> fst ` set d'" unfolding assms(2) by (auto intro: keys_cached)
  have same: "jget d' k = jget d k" if "k \<notin> {''chatbot_arena_elo'', ''open_llm_score''}" for k
    using that by (simp add: assms(2) jget_apply_cached_benchmarks)
  have get: "dict_get d' k v = jget d k" if "k \<notin> {''chatbot_arena_elo'', ''open_llm_score''}" "jget d k \<noteq> JNull" for k v
    using same [OF that(1)] that(2) by (simp add: dict_get_jget)
  obtain nm tf ft fs fv fo where named: "jget d ''name'' = JStr nm" "jget d ''tokenizer_family'' = json_text tf"
      "jget d ''supports_tools'' = int_flag ft" "jget d ''supports_streaming'' = int_flag fs"
      "jget d ''supports_vision'' = int_flag fv" "jget d ''supports_structured_output'' = int_flag fo"
    using jr(7,13-17) unfolding d by blast
  have flags: "dict_get d' ''supports_tools'' v = int_flag ft" "dict_get d' ''supports_streaming'' v = int_flag fs"
      "dict_get d' ''supports_vision'' v = int_flag fv" "dict_get d' ''supports_structured_output'' v = int_flag fo"
      "dict_get d' ''supports_system_messages'' v = JInt 1" "dict_get d' ''is_healthy'' v = JInt 1" for v
    using named jr(18,19) by (simp_all add: get d int_flag_def)
  have "score_like (jget d ''chatbot_arena_elo'')" "score_like (jget d ''open_llm_score'')"
    using jr(20,21) by (simp_all add: d score_like_def)
  then have "score_like (jget d' ''chatbot_arena_elo'')" "score_like (jget d' ''open_llm_score'')"
    unfolding assms(2) by (simp_all add: score_like_cached)
  then obtain elo llm where scores: "real_cell (jget d' ''chatbot_arena_elo'') = Fits elo"
    "real_cell (jget d' ''open_llm_score'') = Fits llm" by (blast dest: real_cell_score)
  have "coerce_rank (JInt (int (Suc ix))) = Some (int (Suc ix))" by (simp add: coerce_rank_def)
  moreover have "coerce_rank JNull = None" by (simp add: coerce_rank_def)
  moreover have "jget d' ''provider_rank'' = JInt (int (Suc ix))" "jget d' ''openrouter_rank'' = JNull"
    using same [of "''provider_rank''"] same [of "''openrouter_rank''"] jr(3,4) by (simp_all add: d)
  ultimately have ranks: "pr = Some (int (Suc ix))" "orank = Some (int (Suc ix)) \<or> orank = None"
    using assms(3) unfolding resolve_rank_metadata_def Let_def by (auto split: if_splits)
  define n where "n = (case c of None \<Rightarrow> 4096 | Some n \<Rightarrow> if n = 0 then 4096 else n)"
  have ctx: "dict_get d' ''context_window'' v = JInt n" for v using jr(1) by (simp add: get d n_def)
  have st: "storable d \<longleftrightarrow> bindable (JInt n) \<and> bindable (json_int m) \<and> bindable (JInt (int (Suc ix)))"
    using jr(1,2,3) by (simp only: storable_def d n_def)
  have orank: "bindable (JInt (int (Suc ix))) \<Longrightarrow> bindable (json_int orank)" using ranks(2) by (auto simp: json_int_def)
  have texts: "jget d' ''id'' = JStr (ad_name ad @ ''/'' @ i)" "jget d' ''provider_id'' = JStr (ad_name ad)"
      "jget d' ''provider_model_id'' = JStr i" "jget d' ''provider_base_url'' = JStr (ad_api_base ad)"
      "jget d' ''provider_api_key_env'' = JStr (ad_api_key_env ad)" "jget d' ''endpoint_id'' = JNull"
      "jget d' ''provider_options_json'' = JNull" "jget d' ''max_output_tokens'' = json_int m"
      "jget d' ''name'' = JStr nm" "jget d' ''tokenizer_family'' = json_text tf"
    using jr(6,5,8-12) jr(2) named(1,2) by (simp_all only: same d simp_thms insert_iff empty_iff list.inject char.inject) 
  show "(\<exists>row. bind_model_row now d' pr orank = Fits row) \<and> storable d
      \<or> bind_model_row now d' pr orank = Unbindable \<and> \<not> storable d"
    unfolding bind_model_row_def texts flags ctx scores st ranks(1)
    using orank by (auto simp del: bindable.simps simp: json_int_def [of "Some _"])
qed

lemma discover_listed_typed:
  "list_all (is_row env ad) ds \<Longrightarrow> \<exists>sts seen. discover_listed env t now ds = Some (sts, Inr seen)
     \<and> list_all (\<lambda>st. st = RejectedUpsert \<or> (\<exists>row. st = UpsertModel row)) sts
     \<and> (RejectedUpsert \<in> set sts \<longleftrightarrow> \<not> list_all storable ds)"
proof (induction ds)
  case (Cons d ds)
  define d' where "d' = apply_cached_benchmarks env t now d"
  obtain pr orank where ranks: "resolve_rank_metadata env d' = (pr, orank)" by fastforce
  from Cons.prems have row: "is_row env ad d" by simp
  note bound = bind_listed [OF row d'_def ranks]
  from Cons obtain sts seen where IH: "discover_listed env t now ds = Some (sts, Inr seen)"
    "list_all (\<lambda>st. st = RejectedUpsert \<or> (\<exists>row. st = UpsertModel row)) sts"
    "RejectedUpsert \<in> set sts \<longleftrightarrow> \<not> list_all storable ds" by auto
  from bound(2) show ?case
  proof (elim disjE conjE exE)
    fix r assume "bind_model_row now d' pr orank = Fits r" "storable d"
    with bound(1) IH ranks show ?thesis by (simp add: Let_def flip: d'_def)
  next
    assume "bind_model_row now d' pr orank = Unbindable" "\<not> storable d"
    with bound(1) IH ranks show ?thesis by (simp add: Let_def flip: d'_def)
  qed
qed simp

lemma exec_rejected:
  "list_all (\<lambda>st. st = RejectedUpsert \<or> (\<exists>row. st = UpsertModel row)) sts \<Longrightarrow>
   exec_stmts (sts @ [MarkModelsNotSeen p seen]) tb = None \<longleftrightarrow> RejectedUpsert \<in> set sts"
proof (induction sts arbitrary: tb)
  case (Cons st sts)
  then consider "st = RejectedUpsert" | row where "st = UpsertModel row" by auto
  then show ?case
  proof cases
    case 2
    with Cons show ?thesis by simp
  qed simp
qed simp

text \<open>
  C36 (type). What an OpenAI-compatible adapter lists fits the tables, whatever JSON the provider
  sent: the run reads no missing entry and no value of another type than its column, and submits
  one upsert per listed model. The only values the tables refuse are integers beyond 64 bits,
  which no reader excludes: with one of them the submitted statements raise in the writer thread.
\<close>

theorem listing_fits_tables:
  assumes "openai_discover_models env ad answer = Inr models"
  shows "\<exists>sts. discover_provider env t now (ad_name ad) (Inr models) = Some (sts, Inr (length models))
    \<and> (exec_stmts sts tb = None \<longleftrightarrow> \<not> list_all storable models)"
proof -
  have "list_all (is_row env ad) models"
    using assms listed_models_rows [of env ad 0]
    by (auto simp: openai_discover_models_def sbind_Inr from_py_Inr split: if_splits option.splits json.splits)
  from discover_listed_typed [OF this, of t now] obtain sts seen where
    run: "discover_listed env t now models = Some (sts, Inr seen)"
    and sts: "list_all (\<lambda>st. st = RejectedUpsert \<or> (\<exists>row. st = UpsertModel row)) sts"
      "RejectedUpsert \<in> set sts \<longleftrightarrow> \<not> list_all storable models" by blast
  with exec_rejected [OF sts(1), of "ad_name ad" seen tb] show ?thesis by (simp add: discover_provider_def)
qed

definition huge_env :: py_env where
  "huge_env = groq_env\<lparr>env_loads := (\<lambda>b. Some (JObj [(''data'', JList [JObj [(''id'', JStr ''m''), (''context_length'', JInt (2 ^ 63))]])]))\<rparr>"

theorem listing_fits_tables_witness:
  "\<exists>models sts. openai_discover_models huge_env groq_adapter (AResponse 200 ''{}'') = Inr models
     \<and> discover_provider huge_env empty_tables 100 (ad_name groq_adapter) (Inr models) = Some (sts, Inr (length models))
     \<and> exec_stmts sts empty_tables = None"
proof -
  have "(case openai_discover_models huge_env groq_adapter (AResponse 200 ''{}'') of Inl e \<Rightarrow> False
      | Inr models \<Rightarrow> \<not> list_all storable models)" by code_simp
  then obtain models where m: "openai_discover_models huge_env groq_adapter (AResponse 200 ''{}'') = Inr models"
    "\<not> list_all storable models"
    by (cases "openai_discover_models huge_env groq_adapter (AResponse 200 ''{}'')") simp_all
  with listing_fits_tables [OF m(1), of empty_tables 100 empty_tables] show ?thesis by blast
qed

end
