(* ===== verification/FL_Lifecycle.thy ===== *)
theory FL_Lifecycle
  imports FL_Auth FL_Registry FL_Discover FL_Health FL_Ranking FL_Writer
begin

text \<open>
  The life of the application (\<open>lifespan\<close> and its local functions in \<open>src/main.py\<close>) and its
  periodic jobs (\<open>src/scheduler.py\<close>): start-up, reload of the settings, the provider gating of the
  models table, readiness, the discovery pipeline and the bookkeeping of jobs.

  An operation is an action on the application state. It returns, raises, or never returns: a
  statement or a flush handed to a writer thread that is gone waits for ever. Reads see the
  committed tables. The clock, the environment, the configuration file, the answers of the
  providers and the outcome of a probe batch are fields of \<open>world\<close>. Logging has no effect here.
\<close>

section \<open>The application state\<close>

record secret_status =
  ss_configured :: bool
  ss_unlocked :: bool
  ss_stored_secret_count :: nat
  ss_loaded_secret_count :: nat
  ss_decrypt_failures :: "string list"

record job_status =
  js_run_count :: nat
  js_last_started_at :: "timestamp option"
  js_last_success_at :: "timestamp option"
  js_last_error :: "string option"

record app_state =
  st_db :: database
  st_registry :: registry
  st_settings :: settings
  st_vault_config :: "secret_vault_config option"
  st_secret_store :: "secret_store option"
  st_secret_status :: secret_status
  st_gateway_auth :: auth_state
  st_ready :: bool
  st_force_discovery :: bool
  st_intervals :: "(string, int) dict"
  st_job_status :: "(string, job_status) dict"
  st_throttles :: throttles

record world =
  wd_cfg :: cfg_env
  wd_urls :: url_env
  wd_py :: py_env
  wd_config_file :: "json option"
  wd_crypto :: crypto
  wd_digest :: "string \<Rightarrow> string"
  wd_now :: timestamp
  wd_clock :: rat
  wd_error_text :: "raised \<Rightarrow> string"
  wd_arena :: "scores option"
  wd_open_llm :: "scores option"
  wd_answer :: "adapter \<Rightarrow> attempt"
  wd_probes :: "settings \<Rightarrow> registry \<Rightarrow> tables \<Rightarrow> probe_candidate list \<Rightarrow> batch"
  wd_salt :: bytes
  wd_nonce :: bytes

datatype 'a outcome = Returned 'a app_state | Raised raised app_state | Blocked

type_synonym 'a action = "app_state \<Rightarrow> 'a outcome"

definition act_return :: "'a \<Rightarrow> 'a action" where
  "act_return x a = Returned x a"

definition act_raise :: "raised \<Rightarrow> 'a action" where
  "act_raise e a = Raised e a"

definition act_bind :: "'a action \<Rightarrow> ('a \<Rightarrow> 'b action) \<Rightarrow> 'b action" where
  "act_bind m f a = (case m a of Returned x b \<Rightarrow> f x b | Raised e b \<Rightarrow> Raised e b | Blocked \<Rightarrow> Blocked)"

definition act_then :: "'a action \<Rightarrow> 'b action \<Rightarrow> 'b action" where
  "act_then m k = act_bind m (\<lambda>u. k)"

definition act_with :: "(app_state \<Rightarrow> 'a action) \<Rightarrow> 'a action" where
  "act_with f a = f a a"

definition act_modify :: "(app_state \<Rightarrow> app_state) \<Rightarrow> unit action" where
  "act_modify f a = Returned () (f a)"

definition act_lift :: "raised + 'a \<Rightarrow> 'a action" where
  "act_lift r = (case r of Inl e \<Rightarrow> act_raise e | Inr x \<Rightarrow> act_return x)"

definition act_py :: "py_error + 'a \<Rightarrow> 'a action" where
  "act_py r = (case r of Inl e \<Rightarrow> act_raise (Unhandled e) | Inr x \<Rightarrow> act_return x)"

definition db_write :: "stmt \<Rightarrow> unit action" where
  "db_write s a = (case enqueue s (st_db a) of None \<Rightarrow> Blocked | Some db \<Rightarrow> Returned () (a\<lparr>st_db := db\<rparr>))"

fun db_writes :: "stmt list \<Rightarrow> unit action" where
  "db_writes [] = act_return ()"
| "db_writes (s # ss) = act_then (db_write s) (db_writes ss)"

definition db_flush :: "unit action" where
  "db_flush a = (case flush (st_db a) of None \<Rightarrow> Blocked | Some db \<Rightarrow> Returned () (a\<lparr>st_db := db\<rparr>))"

definition committed :: "app_state \<Rightarrow> tables" where
  "committed a = db_tables (st_db a)"

section \<open>Providers and readiness\<close>

definition runtime_enabled :: "registry \<Rightarrow> provider_id \<Rightarrow> bool" where
  "runtime_enabled reg p = dict_get (dict_update [] (map (\<lambda>(n, r). (rg_name r, rg_inference_enabled r)) reg)) p False"

definition unavailable_providers :: "settings \<Rightarrow> registry \<Rightarrow> tables \<Rightarrow> provider_id list" where
  "unavailable_providers s reg t =
     filter (\<lambda>p. \<not> runtime_enabled reg p)
       (sort (remdups (map (\<lambda>(n, r). rg_name r) reg
          @ filter (\<lambda>p. py_strip p \<noteq> []) (map m_provider_id (filter m_is_active (t_models t)))
          @ filter (is_provider_inference_enabled s) (known_provider_ids s))))"

definition apply_provider_runtime_state :: "settings \<Rightarrow> unit action" where
  "apply_provider_runtime_state current_settings = act_with (\<lambda>a.
     let disabled = unavailable_providers current_settings (st_registry a) (committed a) in
     act_then (db_writes (map DeactivateProvider disabled)) (if disabled = [] then act_return () else db_flush))"

definition routable_count :: "tables \<Rightarrow> int" where
  "routable_count t = count_if (\<lambda>m. m_is_healthy m \<and> m_is_active m) (t_models t)"

definition recompute_readiness :: "bool action" where
  "recompute_readiness = act_with (\<lambda>a. act_then (apply_provider_runtime_state (st_settings a))
     (act_with (\<lambda>b. let ready = (0 < routable_count (committed b)) in
        act_then (act_modify (\<lambda>c. c\<lparr>st_ready := ready\<rparr>)) (act_return ready))))"

section \<open>Settings, secrets, registry\<close>

text \<open>\<open>Database.get_overrides\<close>: a stored text that is not JSON stands for itself.\<close>

definition get_overrides :: "py_env \<Rightarrow> tables \<Rightarrow> overrides" where
  "get_overrides env t = map (\<lambda>(key, v, updated_at).
     (key, case env_loads_text env v of None \<Rightarrow> JStr v | Some j \<Rightarrow> j)) (t_overrides t)"

definition load_settings :: "world \<Rightarrow> tables \<Rightarrow> py_error + settings" where
  "load_settings w t = sbind (from_env (wd_cfg w) (wd_config_file w)) (apply_overrides (wd_cfg w) (get_overrides (wd_py w) t))"

definition get_secret_vault_config :: "tables \<Rightarrow> secret_vault_config option" where
  "get_secret_vault_config t = map_option (\<lambda>row.
     \<lparr>vc_salt_b64 = v_salt_b64 row, vc_verifier_encrypted = v_verifier_encrypted row\<rparr>) (t_vault t)"

definition get_managed_secret_values :: "tables \<Rightarrow> (string, string) dict" where
  "get_managed_secret_values t = map (\<lambda>(key, row). (key, s_value_encrypted row)) (t_secrets t)"

definition secret_raised :: "secret_error \<Rightarrow> raised" where
  "secret_raised e = (case e of PyRaise p \<Rightarrow> Unhandled p | _ \<Rightarrow> Unhandled ValueError)"

definition load_managed_secrets ::
  "crypto \<Rightarrow> tables \<Rightarrow> secret_store option \<Rightarrow> secret_vault_config option \<Rightarrow> raised + (string, string) dict \<times> secret_status" where
  "load_managed_secrets cr t store vault_config =
    (let encrypted = get_managed_secret_values t;
         status = \<lparr>ss_configured = (vault_config \<noteq> None), ss_unlocked = (store \<noteq> None),
           ss_stored_secret_count = length encrypted, ss_loaded_secret_count = 0, ss_decrypt_failures = []\<rparr>
     in case store of
          None \<Rightarrow> Inr ([], status)
        | Some key \<Rightarrow> (case decrypt_mapping cr key encrypted of
              Inl e \<Rightarrow> Inl (secret_raised e)
            | Inr (secrets, failures) \<Rightarrow>
                Inr (secrets, status\<lparr>ss_loaded_secret_count := length secrets, ss_decrypt_failures := failures\<rparr>)))"

definition configure_registry :: "world \<Rightarrow> settings \<Rightarrow> unit action" where
  "configure_registry w s a = (case register_configured (wd_cfg w) (wd_urls w) s of
       (reg, Some e) \<Rightarrow> Raised (Unhandled e) (a\<lparr>st_registry := reg\<rparr>)
     | (reg, None) \<Rightarrow> Returned () (a\<lparr>st_registry := sync_registry_runtime_gating s reg\<rparr>))"

definition configure_database_logging :: "settings \<Rightarrow> unit action" where
  "configure_database_logging s = act_modify (\<lambda>a. a\<lparr>st_db :=
     set_low_priority_log_policy (logging_request_log_enabled s) (logging_log_queue_size s) (st_db a)\<rparr>)"

definition reschedule :: "settings \<Rightarrow> (string, int) dict \<Rightarrow> (string, int) dict" where
  "reschedule s jobs = map (\<lambda>(job, minutes). (job,
     if job = ''discovery'' then discovery_interval_minutes s
     else if job = ''ranking'' then ranking_interval_minutes s
     else if job = ''health'' then health_probe_interval_minutes s else minutes)) jobs"

definition install_settings :: "world \<Rightarrow> tables \<Rightarrow> secret_status \<Rightarrow> settings \<Rightarrow> settings action" where
  "install_settings w t status new_settings =
    act_then (configure_registry w new_settings)
    (act_then (configure_database_logging new_settings)
    (act_then (act_modify (\<lambda>b. b\<lparr>st_settings := new_settings, st_vault_config := get_secret_vault_config t,
        st_secret_status := status, st_gateway_auth := resolve_gateway_auth_state new_settings t\<rparr>))
    (act_then (apply_provider_runtime_state new_settings)
    (act_then (act_modify (\<lambda>b. b\<lparr>st_intervals := reschedule new_settings (st_intervals b)\<rparr>))
    (act_then recompute_readiness (act_return new_settings))))))"

definition reload_settings :: "world \<Rightarrow> settings action" where
  "reload_settings w =
    act_bind (act_with (\<lambda>a. act_py (load_settings w (committed a)))) (\<lambda>loaded.
    act_with (\<lambda>a. let t = committed a in
    act_bind (act_lift (load_managed_secrets (wd_crypto w) t (st_secret_store a) (get_secret_vault_config t)))
      (\<lambda>(secrets, status). install_settings w t status (apply_managed_secrets secrets loaded))))"

section \<open>The discovery pipeline\<close>

definition fetch_raised :: "fetch_failure \<Rightarrow> raised" where
  "fetch_raised f = (case f of FProvider e \<Rightarrow> UnhandledProvider e | FPython e \<Rightarrow> Unhandled e)"

record pipeline_outcome =
  po_discovered :: nat
  po_ranking_updates :: int
  po_probed_models :: int
  po_ready :: bool

text \<open>
  \<open>run_discovery\<close> as an action: the refresh of the benchmark cache and a flush, then the providers,
  whose statements are submitted up to the first exception. A listing with a value of another type
  than its column is outside the model and raises here.
\<close>

definition discovery_action :: "world \<Rightarrow> settings \<Rightarrow> nat action" where
  "discovery_action w s = act_with (\<lambda>a.
    act_then (db_writes (fst (refresh_leaderboard_cache s (committed a) (wd_now w) (wd_arena w) (wd_open_llm w))))
    (act_then db_flush
    (act_with (\<lambda>b.
       case discover_providers (wd_py w) (\<lambda>p. committed b) (wd_now w)
              (\<lambda>ad. adapter_listing (wd_py w) ad (wd_answer w ad)) (registry_all (st_registry b)) of
         None \<Rightarrow> act_raise (Unhandled TypeError)
       | Some (sts, r) \<Rightarrow> act_then (db_writes sts)
           (act_lift (case r of Inl f \<Rightarrow> Inl (fetch_raised f) | Inr n \<Rightarrow> Inr n))))))"

definition ranking_action :: "world \<Rightarrow> settings \<Rightarrow> int action" where
  "ranking_action w s = act_with (\<lambda>a. case recompute_ranking s (committed a) (wd_now w) of
     (updates, sts) \<Rightarrow> act_then (db_writes sts) (act_return updates))"

definition probe_action :: "world \<Rightarrow> settings \<Rightarrow> probe_candidate list \<Rightarrow> int action" where
  "probe_action w s cs = act_with (\<lambda>a. let b = wd_probes w s (st_registry a) (committed a) cs in
     act_then (db_writes (b_stmts b)) (act_return (b_probed b)))"

definition run_discovery_pipeline :: "world \<Rightarrow> settings \<Rightarrow> pipeline_outcome action" where
  "run_discovery_pipeline w s =
    act_bind (discovery_action w s) (\<lambda>discovered.
    act_then db_flush
    (act_bind (ranking_action w s) (\<lambda>updates.
    act_then db_flush
    (act_bind (act_with (\<lambda>a. probe_action w s (select_bootstrap_candidates (committed a) (ranking_fallback_model s)
        (health_startup_probe_limit s)))) (\<lambda>probed.
    act_then db_flush
    (act_bind recompute_readiness (\<lambda>ready.
    act_return \<lparr>po_discovered = discovered, po_ranking_updates = updates, po_probed_models = probed, po_ready = ready\<rparr>)))))))"

section \<open>Jobs\<close>

definition new_job :: job_status where
  "new_job = \<lparr>js_run_count = 0, js_last_started_at = None, js_last_success_at = None, js_last_error = None\<rparr>"

definition job_entry :: "string \<Rightarrow> app_state \<Rightarrow> job_status" where
  "job_entry name a = dict_get (st_job_status a) name new_job"

definition mark_job :: "string \<Rightarrow> (job_status \<Rightarrow> job_status) \<Rightarrow> app_state \<Rightarrow> app_state" where
  "mark_job name f a = a\<lparr>st_job_status := AList.update name (f (job_entry name a)) (st_job_status a)\<rparr>"

definition mark_job_start :: "timestamp \<Rightarrow> job_status \<Rightarrow> job_status" where
  "mark_job_start now j = j\<lparr>js_last_started_at := Some now\<rparr>"

definition mark_job_success :: "timestamp \<Rightarrow> job_status \<Rightarrow> job_status" where
  "mark_job_success now j = j\<lparr>js_last_success_at := Some now, js_last_error := None, js_run_count := js_run_count j + 1\<rparr>"

definition mark_job_failure :: "string \<Rightarrow> job_status \<Rightarrow> job_status" where
  "mark_job_failure error j = j\<lparr>js_last_error := Some (take 500 error), js_run_count := js_run_count j + 1\<rparr>"

definition track_job :: "world \<Rightarrow> string \<Rightarrow> 'a action \<Rightarrow> 'a action" where
  "track_job w name fn a = (case fn (mark_job name (mark_job_start (wd_now w)) a) of
       Returned x b \<Rightarrow> Returned x (mark_job name (mark_job_success (wd_now w)) b)
     | Raised e b \<Rightarrow> Raised e (mark_job name (mark_job_failure (wd_error_text w e)) b)
     | Blocked \<Rightarrow> Blocked)"

definition discovery_runner :: "world \<Rightarrow> pipeline_outcome action" where
  "discovery_runner w = track_job w ''discovery'' (act_with (\<lambda>a.
     act_bind (run_discovery_pipeline w (st_settings a)) (\<lambda>r.
     act_then (act_modify (\<lambda>b. b\<lparr>st_force_discovery := False\<rparr>)) (act_return r))))"

definition rank_job :: "world \<Rightarrow> unit action" where
  "rank_job w = track_job w ''ranking'' (act_with (\<lambda>a. act_then (ranking_action w (st_settings a)) db_flush))"

definition health_job :: "world \<Rightarrow> unit action" where
  "health_job w = track_job w ''health'' (act_with (\<lambda>a.
     act_then (probe_action w (st_settings a) (select_probe_candidates (committed a) (st_settings a) (wd_now w)))
     (act_then db_flush (act_then recompute_readiness (act_return ())))))"

text \<open>\<open>prune_old_logs\<close> flushes and then deletes on a connection of its own.\<close>

definition prune_old_logs :: "timestamp \<Rightarrow> int \<Rightarrow> int action" where
  "prune_old_logs now retention_days = act_then db_flush (act_with (\<lambda>a.
     let keep = (\<lambda>l. now - 86400 * retention_days \<le> l_timestamp l); t = committed a in
     act_then (act_modify (\<lambda>b. b\<lparr>st_db := (st_db b)\<lparr>db_tables := t\<lparr>t_log := filter keep (t_log t)\<rparr>\<rparr>\<rparr>))
       (act_return (count_if (\<lambda>l. \<not> keep l) (t_log t)))))"

definition maintenance_job :: "world \<Rightarrow> int action" where
  "maintenance_job w = track_job w ''maintenance'' (act_with (\<lambda>a.
     prune_old_logs (wd_now w) (logging_request_log_retention_days (st_settings a))))"

definition config_refresh_job :: "world \<Rightarrow> settings action" where
  "config_refresh_job w = track_job w ''config_refresh'' (reload_settings w)"

definition register_jobs :: "unit action" where
  "register_jobs = act_modify (\<lambda>a. let s = st_settings a in a\<lparr>
     st_job_status := fold (\<lambda>name d. setdefault name new_job d)
       [''discovery'', ''ranking'', ''health'', ''maintenance'', ''config_refresh''] (st_job_status a),
     st_intervals := dict_update (st_intervals a)
       [(''discovery'', discovery_interval_minutes s), (''ranking'', ranking_interval_minutes s),
        (''health'', health_probe_interval_minutes s), (''maintenance'', 24 * 60), (''config_refresh'', 5)]\<rparr>)"

section \<open>Start-up\<close>

definition app_init :: "settings \<Rightarrow> tables \<Rightarrow> secret_status \<Rightarrow> registry \<Rightarrow> app_state" where
  "app_init s t status reg =
     \<lparr>st_db = set_low_priority_log_policy (logging_request_log_enabled s) (logging_log_queue_size s)
        (writer_start (writer_init True 5000 t)),
      st_registry = reg, st_settings = s, st_vault_config = get_secret_vault_config t, st_secret_store = None,
      st_secret_status = status, st_gateway_auth = resolve_gateway_auth_state s t, st_ready = False,
      st_force_discovery = False, st_intervals = [], st_job_status = [], st_throttles = []\<rparr>"

text \<open>The part of \<open>lifespan\<close> before the state exists: an exception keeps the server from starting.\<close>

definition boot :: "world \<Rightarrow> tables \<Rightarrow> raised + app_state" where
  "boot w t = (case load_settings w t of
       Inl e \<Rightarrow> Inl (Unhandled e)
     | Inr loaded \<Rightarrow> sbind (load_managed_secrets (wd_crypto w) t None (get_secret_vault_config t)) (\<lambda>(secrets, status).
         let s = apply_managed_secrets secrets loaded in
         case register_configured (wd_cfg w) (wd_urls w) s of
           (reg, Some e) \<Rightarrow> Inl (Unhandled e)
         | (reg, None) \<Rightarrow> Inr (app_init s t status (sync_registry_runtime_gating s reg))))"

text \<open>A failing pipeline leaves the gateway running with what the database holds.\<close>

definition start_pipeline :: "world \<Rightarrow> unit action" where
  "start_pipeline w = act_with (\<lambda>a.
     act_then (apply_provider_runtime_state (st_settings a))
     (act_then (\<lambda>b. case run_discovery_pipeline w (st_settings a) b of
          Raised e c \<Rightarrow> recompute_readiness c
        | Returned r c \<Rightarrow> Returned (po_ready r) c
        | Blocked \<Rightarrow> Blocked)
     (act_then recompute_readiness register_jobs)))"

definition lifespan_startup :: "world \<Rightarrow> tables \<Rightarrow> raised + unit outcome" where
  "lifespan_startup w t = sbind (boot w t) (\<lambda>a. Inr (start_pipeline w a))"

text \<open>Shutdown hands the writer its end marker; a full queue without a thread blocks here too.\<close>

definition lifespan_shutdown :: "unit action" where
  "lifespan_shutdown a = (case writer_stop (st_db a) of None \<Rightarrow> Blocked | Some db \<Rightarrow> Returned () (a\<lparr>st_db := db\<rparr>))"

definition api_docs_enabled :: "cfg_env \<Rightarrow> json option \<Rightarrow> bool" where
  "api_docs_enabled ce config_file = (case ce_getenv ce ''API_DOCS_ENABLED'' of
       Some configured \<Rightarrow> py_lower (py_strip configured) \<in> set [''1'', ''true'', ''yes'', ''on'']
     | None \<Rightarrow>
         let app_env = (case ce_getenv ce ''APP_ENV'' of
               Some e \<Rightarrow> e
             | None \<Rightarrow> (case config_file of
                   None \<Rightarrow> ''dev''
                 | Some loaded \<Rightarrow> (case (case py_or loaded (JObj []) of JObj c \<Rightarrow> dict_get c ''app'' (JObj []) | _ \<Rightarrow> JObj []) of
                       JObj sec \<Rightarrow> py_str (ce_repr ce) (dict_get sec ''env'' (JStr ''dev''))
                     | _ \<Rightarrow> ''dev'')))
         in py_lower (py_strip app_env) \<notin> set [''prod'', ''production''])"

text \<open>Header names are compared in lower case, as the server keeps them.\<close>

definition add_browser_security_headers :: "(string, string) dict \<Rightarrow> (string, string) dict" where
  "add_browser_security_headers headers = fold (\<lambda>(k, v) h. setdefault k v h)
     [(''x-content-type-options'', ''nosniff''), (''x-frame-options'', ''DENY''), (''referrer-policy'', ''no-referrer''),
      (''permissions-policy'', ''camera=(), microphone=(), geolocation=()'')] headers"

section \<open>Actions that only write\<close>

text \<open>\<open>quiet a\<close>: the writer thread is alive and has nothing to do. This is the state between requests.\<close>

definition quiet :: "app_state \<Rightarrow> bool" where
  "quiet a = (running (st_db a) \<and> w_queue (st_db a) = [])"

lemma quiet_settled: "quiet a \<Longrightarrow> settled (st_db a) = Some (committed a)"
  by (simp add: quiet_def settled_def pending_stmts_def committed_def)

lemma db_writes_fold:
  "db_writes ss a = (case fold_opt enqueue ss (st_db a) of None \<Rightarrow> Blocked | Some db \<Rightarrow> Returned () (a\<lparr>st_db := db\<rparr>))"
  by (induction ss arbitrary: a)
    (auto simp: act_return_def act_then_def act_bind_def db_write_def split: option.splits)

lemma write_and_flush:
  assumes "quiet a" and "exec_stmts ss (committed a) = Some t"
  shows "\<exists>db. act_then (db_writes ss) db_flush a = Returned () (a\<lparr>st_db := db\<rparr>)
    \<and> running db \<and> w_queue db = [] \<and> db_tables db = t"
proof -
  from assms(1) have run: "running (st_db a)" "settled (st_db a) = Some (committed a)"
    by (simp_all add: quiet_settled) (simp add: quiet_def)
  from writer.submit_all_settles [OF run] assms(2) obtain db where
    db: "fold_opt enqueue ss (st_db a) = Some db" "running db" "settled db = Some t"
    unfolding exec_stmts_def by blast
  from flush_running [OF db(2,3)] obtain db' where
    "flush db = Some db'" "running db'" "db_tables db' = t" "w_queue db' = []" by blast
  with db(1) show ?thesis
    by (auto simp: act_then_def act_bind_def db_writes_fold db_flush_def intro!: exI [of _ db'])
qed

lemma exec_deactivate:
  "exec_stmts (map DeactivateProvider ps) t =
   Some (update_models (\<lambda>m. m_provider_id m \<in> set ps) (\<lambda>m. m\<lparr>m_is_active := False\<rparr>) t)"
proof (induction ps arbitrary: t)
  case Nil
  show ?case by (simp add: update_models_def)
next
  case (Cons p ps)
  have idle: "m\<lparr>m_is_active := False\<rparr> = m" if "\<not> m_is_active m" for m :: model_row using that by simp
  show ?case
    unfolding list.map exec_stmts_simps exec_stmt.simps option.case Cons.IH
    by (auto simp: update_models_def idle)
qed

lemma in_deactivated:
  "m \<in> set (t_models (update_models (\<lambda>m. m_provider_id m \<in> ps) (\<lambda>m. m\<lparr>m_is_active := False\<rparr>) t)) \<Longrightarrow> m_is_active m
   \<Longrightarrow> m \<in> set (t_models t) \<and> m_provider_id m \<notin> ps"
  by (auto simp: update_models_def split: if_splits)

lemma gating_runs:
  assumes "quiet a"
  shows "\<exists>db. apply_provider_runtime_state s a = Returned () (a\<lparr>st_db := db\<rparr>) \<and> running db \<and> w_queue db = []
    \<and> db_tables db = update_models (\<lambda>m. m_provider_id m \<in> set (unavailable_providers s (st_registry a) (committed a)))
        (\<lambda>m. m\<lparr>m_is_active := False\<rparr>) (committed a)"
proof (cases "unavailable_providers s (st_registry a) (committed a) = []")
  case True
  with assms show ?thesis
    by (auto simp: apply_provider_runtime_state_def act_with_def act_then_def act_bind_def act_return_def update_models_def
        quiet_def committed_def intro!: exI [of _ "st_db a"])
next
  case False
  with write_and_flush [OF assms exec_deactivate] show ?thesis
    by (simp add: apply_provider_runtime_state_def act_with_def)
qed

section \<open>Readiness\<close>

definition registry_wf :: "registry \<Rightarrow> bool" where
  "registry_wf reg = (distinct (map fst reg) \<and> list_all (\<lambda>(n, r). rg_name r = n \<and> n \<noteq> [] \<and> py_strip n = n) reg)"

lemma dict_update_Nil: "distinct (map fst e) \<Longrightarrow> map_of (dict_update [] e) = map_of e"
proof -
  have "map_of (fold (\<lambda>(k, v). AList.update k v) e d) = map_of d ++ map_of e" if "distinct (map fst e)" for d
    using that
  proof (induction e arbitrary: d)
    case (Cons x e)
    obtain k v where x: "x = (k, v)" by fastforce
    with Cons have "map_of e k = None" by (auto simp: map_of_eq_None_iff)
    with Cons x show ?case by (auto simp: update_conv' map_add_def fun_eq_iff split: option.splits)
  qed simp
  then show "distinct (map fst e) \<Longrightarrow> map_of (dict_update [] e) = map_of e" by (simp add: dict_update_def)
qed

lemma runtime_enabled_routable:
  assumes "registry_wf reg" and "runtime_enabled reg p"
  shows "routable reg p"
proof -
  have names: "map (\<lambda>(n, r). (rg_name r, rg_inference_enabled r)) reg = map (\<lambda>(n, r). (n, rg_inference_enabled r)) reg"
    using assms(1) by (auto simp: registry_wf_def list_all_iff)
  have "distinct (map fst (map (\<lambda>(n, r). (n, rg_inference_enabled r)) reg))"
    using assms(1) by (simp add: registry_wf_def comp_def case_prod_beta)
  from assms(2) dict_update_Nil [OF this] have "map_of (map (\<lambda>(n, r). (n, rg_inference_enabled r)) reg) p = Some True"
    by (simp add: runtime_enabled_def names dict_get_def split: option.splits)
  moreover have "map_of (map (\<lambda>(n, r). (n, rg_inference_enabled r)) reg) p = map_option rg_inference_enabled (map_of reg p)"
    by (induction reg) auto
  ultimately obtain r where r: "map_of reg p = Some r" "rg_inference_enabled r" by auto
  then have "(p, r) \<in> set reg" by (simp add: map_of_SomeD)
  with assms(1) have "p \<noteq> []" "py_strip p = p" by (auto simp: registry_wf_def list_all_iff)
  with r show ?thesis by (simp add: routable_def registry_get_def get_registered_def Let_def)
qed

lemma active_provider_enabled:
  assumes "m \<in> set (t_models t)" and "m_is_active m" and "py_strip (m_provider_id m) \<noteq> []"
    and "m_provider_id m \<notin> set (unavailable_providers s reg t)"
  shows "runtime_enabled reg (m_provider_id m)"
  using assms by (auto simp: unavailable_providers_def)

lemma readiness_facts:
  assumes "quiet a" and "registry_wf (st_registry a)"
  shows "\<exists>ready db. recompute_readiness a = Returned ready (a\<lparr>st_db := db, st_ready := ready\<rparr>) \<and> running db \<and> w_queue db = []
    \<and> (ready \<longleftrightarrow> (\<exists>m \<in> set (t_models (db_tables db)). m_is_active m \<and> m_is_healthy m))
    \<and> (\<forall>m \<in> set (t_models (db_tables db)). m_is_active m \<longrightarrow>
         m \<in> set (t_models (committed a)) \<and> (py_strip (m_provider_id m) = [] \<or> routable (st_registry a) (m_provider_id m)))
    \<and> (\<exists>ms. db_tables db = (committed a)\<lparr>t_models := ms\<rparr>)"
proof -
  let ?un = "unavailable_providers (st_settings a) (st_registry a) (committed a)"
  from gating_runs [OF assms(1), of "st_settings a"] obtain db where
    run: "apply_provider_runtime_state (st_settings a) a = Returned () (a\<lparr>st_db := db\<rparr>)" "running db" "w_queue db = []"
    and tabs: "db_tables db = update_models (\<lambda>m. m_provider_id m \<in> set ?un) (\<lambda>m. m\<lparr>m_is_active := False\<rparr>) (committed a)"
    by blast
  let ?ready = "0 < routable_count (db_tables db)"
  have "recompute_readiness a = Returned ?ready (a\<lparr>st_db := db, st_ready := ?ready\<rparr>)"
    by (simp add: recompute_readiness_def act_with_def act_then_def act_bind_def run act_modify_def act_return_def committed_def Let_def)
  moreover have "?ready \<longleftrightarrow> (\<exists>m \<in> set (t_models (db_tables db)). m_is_active m \<and> m_is_healthy m)"
    unfolding routable_count_def count_if_def by (auto simp: filter_empty_conv)
  moreover have "m \<in> set (t_models (committed a)) \<and> (py_strip (m_provider_id m) = [] \<or> routable (st_registry a) (m_provider_id m))"
    if m: "m \<in> set (t_models (db_tables db))" "m_is_active m" for m
  proof -
    from in_deactivated [OF m(1) [unfolded tabs] m(2)]
    have "m \<in> set (t_models (committed a))" "m_provider_id m \<notin> set ?un" by simp_all
    with active_provider_enabled [OF _ m(2)] runtime_enabled_routable [OF assms(2)] show ?thesis by blast
  qed
  moreover have "\<exists>ms. db_tables db = (committed a)\<lparr>t_models := ms\<rparr>" unfolding tabs update_models_def by blast
  ultimately show ?thesis using run(2,3) by blast
qed

text \<open>
  C27 (safety). Readiness is not optimistic. Recomputed on a quiet gateway it returns, the flag is set
  exactly when some model is active and healthy, and every model left active belongs to a provider
  that a request can resolve: the registry holds its adapter with inference enabled, so the lookup
  of an attempt does not raise. The only exceptions are rows with a blank provider id, which the
  code leaves alone.
\<close>

theorem readiness_excludes_unusable_providers:
  assumes "quiet a" and "registry_wf (st_registry a)"
  shows "\<exists>ready b. recompute_readiness a = Returned ready b \<and> quiet b \<and> st_ready b = ready
    \<and> (ready \<longleftrightarrow> (\<exists>m \<in> set (t_models (committed b)). m_is_active m \<and> m_is_healthy m))
    \<and> list_all (\<lambda>m. \<not> m_is_active m \<or> py_strip (m_provider_id m) = [] \<or> routable (st_registry b) (m_provider_id m))
        (t_models (committed b))"
  using readiness_facts [OF assms] by (fastforce simp: quiet_def committed_def list_all_iff)

definition no_secrets :: secret_status where
  "no_secrets = \<lparr>ss_configured = False, ss_unlocked = False, ss_stored_secret_count = 0, ss_loaded_secret_count = 0,
     ss_decrypt_failures = []\<rparr>"

definition example_app :: app_state where
  "example_app = app_init default_settings healthy_tables no_secrets []"

lemma example_app_quiet: "quiet example_app"
  by (simp add: example_app_def app_init_def quiet_def running_def set_low_priority_log_policy_def writer_start_def
      writer_init_def writer_defs HIGH_PRIORITY_QUEUE_RESERVE_def)

theorem readiness_excludes_unusable_providers_witness:
  "\<exists>b. recompute_readiness example_app = Returned False b"
proof -
  have "registry_wf (st_registry example_app)" by (simp add: registry_wf_def example_app_def app_init_def)
  from readiness_excludes_unusable_providers [OF example_app_quiet this] obtain ready b where
    b: "recompute_readiness example_app = Returned ready b"
    and ready: "ready \<longleftrightarrow> (\<exists>m \<in> set (t_models (committed b)). m_is_active m \<and> m_is_healthy m)" by blast
  have "(case recompute_readiness example_app of Returned r c \<Rightarrow> \<not> r | _ \<Rightarrow> False)" by code_simp
  with b show ?thesis by simp
qed

section \<open>A reload that fails\<close>

text \<open>
  Weakest preconditions of actions, with one postcondition for a return and one for an exception;
  an action that never returns satisfies both.
\<close>

definition act_wp :: "'a action \<Rightarrow> ('a \<Rightarrow> app_state \<Rightarrow> bool) \<Rightarrow> (raised \<Rightarrow> app_state \<Rightarrow> bool) \<Rightarrow> app_state \<Rightarrow> bool" where
  "act_wp m Q E a = (case m a of Returned x b \<Rightarrow> Q x b | Raised e b \<Rightarrow> E e b | Blocked \<Rightarrow> True)"

named_theorems wp_simps \<open>weakest preconditions of the basic actions\<close>

lemma wp_basic [wp_simps]:
  "act_wp (act_return x) Q E = Q x"
  "act_wp (act_raise e) Q E = E e"
  "act_wp (act_modify u) P E = (\<lambda>a. P () (u a))"
  "act_wp (act_with g) Q E = (\<lambda>a. act_wp (g a) Q E a)"
  "act_wp (act_bind n f) Q E = act_wp n (\<lambda>y. act_wp (f y) Q E) E"
  "act_wp (act_then m k) Q E = act_wp m (\<lambda>z. act_wp k Q E) E"
  by (auto simp: fun_eq_iff act_wp_def act_return_def act_raise_def act_modify_def act_with_def act_then_def act_bind_def
      split: outcome.split)

lemma wp_lift [wp_simps]:
  "act_wp (act_lift r) Q E = (case r of Inl e \<Rightarrow> E e | Inr x \<Rightarrow> Q x)"
  "act_wp (act_py q) Q E = (case q of Inl e \<Rightarrow> E (Unhandled e) | Inr x \<Rightarrow> Q x)"
  by (simp_all add: act_lift_def act_py_def wp_simps split: sum.split)

text \<open>Writing never raises.\<close>

lemma wp_writes [wp_simps]:
  "act_wp (db_write st) (\<lambda>x b. True) E = (\<lambda>a. True)"
  "act_wp (db_writes ss) (\<lambda>x b. True) E = (\<lambda>a. True)"
  "act_wp db_flush (\<lambda>x b. True) E = (\<lambda>a. True)"
  by (auto simp: fun_eq_iff act_wp_def db_write_def db_writes_fold db_flush_def split: option.split)

lemma wp_gating [wp_simps]: "act_wp (apply_provider_runtime_state s) (\<lambda>x b. True) E = (\<lambda>a. True)"
  by (simp add: fun_eq_iff apply_provider_runtime_state_def wp_simps Let_def)

lemma wp_readiness [wp_simps]: "act_wp recompute_readiness (\<lambda>x b. True) E = (\<lambda>a. True)"
  by (simp add: fun_eq_iff recompute_readiness_def wp_simps Let_def)

lemma wp_configure_registry [wp_simps]:
  "act_wp (configure_registry w s) Q E = (\<lambda>a. case register_configured (wd_cfg w) (wd_urls w) s of
     (reg, Some e) \<Rightarrow> E (Unhandled e) (a\<lparr>st_registry := reg\<rparr>)
   | (reg, None) \<Rightarrow> Q () (a\<lparr>st_registry := sync_registry_runtime_gating s reg\<rparr>))"
  by (simp add: fun_eq_iff act_wp_def configure_registry_def split: prod.split option.split)

lemma wp_configure_logging [wp_simps]:
  "act_wp (configure_database_logging s) Q E = (\<lambda>a. Q () (a\<lparr>st_db :=
     set_low_priority_log_policy (logging_request_log_enabled s) (logging_log_queue_size s) (st_db a)\<rparr>))"
  by (simp add: configure_database_logging_def wp_simps)

lemma wp_raised: "act_wp m Q E a \<Longrightarrow> m a = Raised e b \<Longrightarrow> E e b"
  and wp_returned: "act_wp m Q E a \<Longrightarrow> m a = Returned x b \<Longrightarrow> Q x b"
  by (simp_all add: act_wp_def)

text \<open>The only exception after the settings are loaded is that of the registry.\<close>

definition registry_only :: "world \<Rightarrow> app_state \<Rightarrow> app_state \<Rightarrow> bool" where
  "registry_only w a b = (b = a
     \<or> (\<exists>s reg err. register_configured (wd_cfg w) (wd_urls w) s = (reg, Some err) \<and> b = a\<lparr>st_registry := reg\<rparr>))"

lemma wp_reload: "act_wp (reload_settings w) (\<lambda>x b. True) (\<lambda>e b. registry_only w a b) a"
  by (auto simp: reload_settings_def install_settings_def wp_simps registry_only_def Let_def
      split: sum.split prod.split option.split)

text \<open>
  A reload that raises changes nothing but, at most, the registry: settings, authentication,
  readiness, schedule, secrets and database stay as they were. It is the registry alone that can
  be left half built, when an adapter cannot be constructed; then its providers are not gated.
\<close>

theorem failed_reload_keeps_state:
  assumes "reload_settings w a = Raised e b"
  shows "b = a \<or> (\<exists>s reg err. register_configured (wd_cfg w) (wd_urls w) s = (reg, Some err) \<and> b = a\<lparr>st_registry := reg\<rparr>)"
  using wp_raised [OF wp_reload assms] by (simp add: registry_only_def)

section \<open>A reload that succeeds\<close>

lemma AList_update_keys: "distinct (map fst d) \<Longrightarrow> distinct (map fst (AList.update k v d))"
  by (rule distinct_update)

lemma register_wf:
  "registry_wf reg \<Longrightarrow> py_strip p = p \<Longrightarrow> registry_register ad (Some p) d i reg = Inr reg' \<Longrightarrow> p \<noteq> [] \<Longrightarrow> registry_wf reg'"
  unfolding registry_wf_def registry_register_def Let_def list_all_iff
  by (auto split: if_splits dest!: in_AList_update intro: distinct_update)

lemma register_all_wf:
  "registry_wf reg \<Longrightarrow> list_all (\<lambda>p. p \<noteq> [] \<and> py_strip p = p) ps \<Longrightarrow> registry_wf (fst (register_all ce ue s ps reg))"
proof (induction ps arbitrary: reg)
  case (Cons p ps)
  show ?case
  proof (cases "bootstrap_adapter ce ue s p")
    case None
    with Cons show ?thesis by simp
  next
    case (Some factory)
    let ?step = "sbind (build_registered ce ue s p factory) (\<lambda>ad. registry_register ad (Some p)
      (is_provider_discovery_enabled s p) (is_provider_inference_enabled s p) reg)"
    show ?thesis
    proof (cases ?step)
      case (Inl e)
      with Cons.prems Some show ?thesis by simp
    next
      case (Inr reg1)
      with Cons.prems have "registry_wf reg1" by (auto simp: sbind_Inr intro: register_wf)
      from Cons.IH [OF this] Cons.prems Some Inr show ?thesis by simp
    qed
  qed
qed simp

lemma configured_wf: "register_configured ce ue s = (reg, x) \<Longrightarrow> registry_wf reg"
proof -
  assume reg: "register_configured ce ue s = (reg, x)"
  have none: "registry_wf []" by (simp add: registry_wf_def)
  show ?thesis
  proof (cases "list_ex descriptor_import_fails (bootstrap_ids s)")
    case True
    with reg none show ?thesis by (simp add: register_configured_def)
  next
    case False
    with reg have "reg = fst (register_all ce ue s (bootstrap_ids s) [])" by (simp add: register_configured_def)
    with register_all_wf [OF none bootstrap_ids_stripped [of s], of ce ue s] show ?thesis by simp
  qed
qed

lemma gated_wf: "registry_wf reg \<Longrightarrow> registry_wf (sync_registry_runtime_gating s reg)"
  by (auto simp: registry_wf_def sync_registry_runtime_gating_def list_all_iff comp_def case_prod_beta)

lemma policy_quiet: "quiet a \<Longrightarrow> quiet (a\<lparr>st_db := set_low_priority_log_policy e n (st_db a)\<rparr>)"
  by (simp add: quiet_def running_def set_low_priority_log_policy_def writer_defs)

lemma quiet_other [simp]:
  "quiet (a\<lparr>st_registry := r\<rparr>) = quiet a" "quiet (a\<lparr>st_intervals := i\<rparr>) = quiet a" "quiet (a\<lparr>st_ready := y\<rparr>) = quiet a"
  "quiet (a\<lparr>st_settings := s, st_vault_config := v, st_secret_status := ss, st_gateway_auth := g\<rparr>) = quiet a"
  by (simp_all add: quiet_def)

text \<open>What holds once new settings are in force.\<close>

definition in_force :: "world \<Rightarrow> settings \<Rightarrow> app_state \<Rightarrow> bool" where
  "in_force w s b = (quiet b \<and> st_settings b = s
     \<and> (\<exists>reg. register_configured (wd_cfg w) (wd_urls w) s = (reg, None) \<and> st_registry b = sync_registry_runtime_gating s reg)
     \<and> (st_ready b \<longleftrightarrow> (\<exists>m \<in> set (t_models (committed b)). m_is_active m \<and> m_is_healthy m))
     \<and> list_all (\<lambda>m. \<not> m_is_active m \<or> py_strip (m_provider_id m) = [] \<or> routable (st_registry b) (m_provider_id m))
         (t_models (committed b)))"

lemma committed_policy [simp]: "committed (a\<lparr>st_db := set_low_priority_log_policy e n (st_db a)\<rparr>) = committed a"
  by (simp add: committed_def set_low_priority_log_policy_def)

lemma install_settings_result:
  assumes "quiet a"
  shows "act_wp (install_settings w t status s)
    (\<lambda>x b. x = s \<and> in_force w s b \<and> st_gateway_auth b = resolve_gateway_auth_state s t
       \<and> st_vault_config b = get_secret_vault_config t \<and> st_secret_store b = st_secret_store a \<and> st_secret_status b = status
       \<and> (\<exists>tb. committed b = (committed a)\<lparr>t_models := tb\<rparr>) \<and> st_throttles b = st_throttles a)
    (\<lambda>e b. registry_only w a b) a
    \<and> install_settings w t status s a \<noteq> Blocked"
proof (cases "register_configured (wd_cfg w) (wd_urls w) s")
  case (Pair reg err)
  show ?thesis
  proof (cases err)
    case (Some e)
    with Pair show ?thesis
      by (auto simp: install_settings_def wp_simps registry_only_def act_then_def act_bind_def configure_registry_def)
  next
    case None
    let ?reg = "sync_registry_runtime_gating s reg"
    let ?a1 = "a\<lparr>st_registry := ?reg, st_db := set_low_priority_log_policy (logging_request_log_enabled s)
      (logging_log_queue_size s) (st_db a), st_settings := s, st_vault_config := get_secret_vault_config t,
      st_secret_status := status, st_gateway_auth := resolve_gateway_auth_state s t\<rparr>"
    have wf: "registry_wf (st_registry ?a1)" using Pair by (simp add: gated_wf configured_wf)
    have "quiet (a\<lparr>st_registry := ?reg\<rparr>)" using assms by simp
    from policy_quiet [OF this, of "logging_request_log_enabled s" "logging_log_queue_size s"]
    have q1: "quiet ?a1" by (simp add: quiet_def)
    from gating_runs [OF q1, of s] obtain db where
      g: "apply_provider_runtime_state s ?a1 = Returned () (?a1\<lparr>st_db := db\<rparr>)" "running db" "w_queue db = []"
      "db_tables db = update_models (\<lambda>m. m_provider_id m \<in> set (unavailable_providers s (st_registry ?a1) (committed ?a1)))
        (\<lambda>m. m\<lparr>m_is_active := False\<rparr>) (committed ?a1)" by blast
    let ?a2 = "(?a1\<lparr>st_db := db\<rparr>)\<lparr>st_intervals := reschedule s (st_intervals ?a1)\<rparr>"
    have q2: "quiet ?a2" using g(2,3) by (simp add: quiet_def)
    have wf2: "registry_wf (st_registry ?a2)" using wf by simp
    from readiness_facts [OF q2 wf2] obtain ready db' where
      r: "recompute_readiness ?a2 = Returned ready (?a2\<lparr>st_db := db', st_ready := ready\<rparr>)" "running db'" "w_queue db' = []"
      "ready \<longleftrightarrow> (\<exists>m \<in> set (t_models (db_tables db')). m_is_active m \<and> m_is_healthy m)"
      "\<forall>m \<in> set (t_models (db_tables db')). m_is_active m \<longrightarrow>
         py_strip (m_provider_id m) = [] \<or> routable (st_registry ?a2) (m_provider_id m)"
      "\<exists>ms. db_tables db' = (committed ?a2)\<lparr>t_models := ms\<rparr>" by blast
    let ?b = "?a2\<lparr>st_db := db', st_ready := ready\<rparr>"
    have "install_settings w t status s a = Returned s ?b"
      using Pair None g(1) r(1)
      by (simp add: install_settings_def act_then_def act_bind_def configure_registry_def configure_database_logging_def
          act_modify_def act_return_def)
    moreover have "in_force w s ?b"
      using Pair None r(2,3,4,5) by (auto simp: in_force_def quiet_def committed_def list_all_iff)
    moreover have "\<exists>tb. committed ?b = (committed a)\<lparr>t_models := tb\<rparr>" using r(6) g(4) by (auto simp: committed_def update_models_def set_low_priority_log_policy_def)
    ultimately show ?thesis by (simp add: act_wp_def)
  qed
qed

lemma reload_result:
  assumes "quiet a"
  shows "case reload_settings w a of
      Returned s b \<Rightarrow> in_force w s b
        \<and> (\<exists>loaded secrets status. load_settings w (committed a) = Inr loaded
             \<and> load_managed_secrets (wd_crypto w) (committed a) (st_secret_store a) (get_secret_vault_config (committed a))
                 = Inr (secrets, status)
             \<and> s = apply_managed_secrets secrets loaded \<and> st_secret_status b = status)
        \<and> st_gateway_auth b = resolve_gateway_auth_state s (committed a)
        \<and> st_vault_config b = get_secret_vault_config (committed a) \<and> st_secret_store b = st_secret_store a
        \<and> (\<exists>tb. committed b = (committed a)\<lparr>t_models := tb\<rparr>) \<and> st_throttles b = st_throttles a
    | Raised e b \<Rightarrow> registry_only w a b
    | Blocked \<Rightarrow> False"
proof (cases "load_settings w (committed a)")
  case (Inl e)
  then show ?thesis
    by (simp add: reload_settings_def act_bind_def act_with_def act_py_def act_raise_def registry_only_def)
next
  case (Inr loaded)
  let ?vault = "load_managed_secrets (wd_crypto w) (committed a) (st_secret_store a) (get_secret_vault_config (committed a))"
  show ?thesis
  proof (cases ?vault)
    case (Inl e)
    with Inr show ?thesis
      by (simp add: reload_settings_def act_bind_def act_with_def act_py_def act_lift_def act_return_def act_raise_def
          registry_only_def Let_def)
  next
    case (Inr p)
    obtain secrets status where p: "p = (secrets, status)" by (cases p)
    let ?s = "apply_managed_secrets secrets loaded"
    have "reload_settings w a = install_settings w (committed a) status ?s a"
      using \<open>load_settings w (committed a) = Inr loaded\<close> Inr p
      by (simp add: reload_settings_def act_bind_def act_with_def act_py_def act_lift_def act_return_def Let_def)
    with install_settings_result [OF assms, of w "committed a" status ?s]
      \<open>load_settings w (committed a) = Inr loaded\<close> Inr p
    show ?thesis by (auto simp: act_wp_def split: outcome.splits)
  qed
qed


text \<open>A world in which nothing answers; texts of overrides are read as JSON when they are \<open>null\<close>.\<close>

definition idle_world :: world where
  "idle_world = \<lparr>wd_cfg = FL_Registry.plain_env, wd_urls = plain_urls,
     wd_py = \<lparr>env_loads = (\<lambda>b. None), env_loads_text = (\<lambda>b. if b = ''null'' then Some JNull else None),
       env_decode_ignore = id, env_decode_replace = id, env_repr = (\<lambda>v. [])\<rparr>,
     wd_config_file = None, wd_crypto = toy_crypto, wd_digest = id, wd_now = 100, wd_clock = 0,
     wd_error_text = (\<lambda>e. ''error''), wd_arena = None, wd_open_llm = None, wd_answer = (\<lambda>ad. ACrash ValueError),
     wd_probes = (\<lambda>s reg t cs. \<lparr>b_phases = [], b_usage = [], b_probed = 0, b_recovered = 0, b_failed = 0, b_skipped = 0,
       b_stmts = []\<rparr>), wd_salt = ''salt'', wd_nonce = ''n''\<rparr>"

lemma install_returns:
  assumes "quiet a" and "register_configured (wd_cfg w) (wd_urls w) s = (reg, None)"
  shows "\<exists>b. install_settings w t status s a = Returned s b"
proof -
  have "act_wp (install_settings w t status s) (\<lambda>x b. True) (\<lambda>e b. False) a"
    using assms(2) by (simp add: install_settings_def wp_simps)
  with install_settings_result [OF assms(1), of w t status s] show ?thesis
    by (auto simp: act_wp_def split: outcome.splits)
qed

lemma reload_returns:
  assumes "quiet a" and "load_settings w (committed a) = Inr loaded"
    and "load_managed_secrets (wd_crypto w) (committed a) (st_secret_store a) (get_secret_vault_config (committed a))
      = Inr (secrets, status)"
    and "register_configured (wd_cfg w) (wd_urls w) (apply_managed_secrets secrets loaded) = (reg, None)"
  shows "\<exists>b. reload_settings w a = Returned (apply_managed_secrets secrets loaded) b"
proof -
  have "reload_settings w a = install_settings w (committed a) status (apply_managed_secrets secrets loaded) a"
    using assms(2,3)
    by (simp add: reload_settings_def act_bind_def act_with_def act_py_def act_lift_def act_return_def Let_def)
  with install_returns [OF assms(1,4)] show ?thesis by metis
qed

definition loads :: "world \<Rightarrow> tables \<Rightarrow> secret_store option \<Rightarrow> bool" where
  "loads w t store = (case load_settings w t of Inl e \<Rightarrow> False | Inr loaded \<Rightarrow>
     (case load_managed_secrets (wd_crypto w) t store (get_secret_vault_config t) of Inl e \<Rightarrow> False
      | Inr (secrets, status) \<Rightarrow>
          snd (register_configured (wd_cfg w) (wd_urls w) (apply_managed_secrets secrets loaded)) = None))"

lemma loads_reload:
  assumes "quiet a" and "loads w (committed a) (st_secret_store a)"
  shows "\<exists>s b. reload_settings w a = Returned s b"
proof -
  from assms(2) obtain loaded secrets status reg where "load_settings w (committed a) = Inr loaded"
    "load_managed_secrets (wd_crypto w) (committed a) (st_secret_store a) (get_secret_vault_config (committed a))
      = Inr (secrets, status)"
    "register_configured (wd_cfg w) (wd_urls w) (apply_managed_secrets secrets loaded) = (reg, None)"
    by (auto simp: loads_def split: sum.splits) (metis prod.collapse)
  from reload_returns [OF assms(1) this] show ?thesis by blast
qed


definition broken_app :: app_state where
  "broken_app = app_init default_settings (healthy_tables\<lparr>t_overrides := [(''routing.max_attempts'', ''many'', 50)]\<rparr>)
     no_secrets []"

theorem failed_reload_keeps_state_witness:
  "\<exists>e. load_settings idle_world (committed broken_app) = Inl e
     \<and> (\<exists>b. reload_settings idle_world broken_app = Raised (Unhandled e) b \<and> st_settings b = st_settings broken_app)"
proof -
  have "case load_settings idle_world (committed broken_app) of Inl e \<Rightarrow> True | Inr s \<Rightarrow> False" by code_simp
  then obtain e where e: "load_settings idle_world (committed broken_app) = Inl e" by (auto split: sum.splits)
  then obtain b where r: "reload_settings idle_world broken_app = Raised (Unhandled e) b"
    by (simp add: reload_settings_def act_bind_def act_with_def act_py_def act_raise_def)
  from failed_reload_keeps_state [OF r] have "st_settings b = st_settings broken_app" by auto
  with e r show ?thesis by blast
qed

end
