(* ===== verification/FL_Hub.thy ===== *)
theory FL_Hub
  imports FL_Tokens FL_Config FL_Secrets
begin

text \<open>
  Tokenizers from the model hub (\<open>src/tokens.py\<close>): which repository names are tried for a model
  name that came from a provider, and the cache that background jobs fill.

  The tokenizer library is a parameter: \<open>he_from_pretrained\<close> is the tokenizer of a repository,
  \<^const>\<open>None\<close> when loading raises. A job of the thread pool is started, loads, and is then reported;
  other operations may come between. \<open>hb_requested\<close> records every name given to the library.
\<close>

section \<open>Repository names\<close>

definition KNOWN_REPO_TOKEN_CASE :: "(string, string) dict" where
  "KNOWN_REPO_TOKEN_CASE =
     [(''llama'', ''Llama''), (''meta'', ''Meta''), (''mistral'', ''Mistral''), (''mixtral'', ''Mixtral''),
      (''qwen'', ''Qwen''), (''gemma'', ''Gemma''), (''glm'', ''GLM''), (''deepseek'', ''DeepSeek''),
      (''instruct'', ''Instruct''), (''chat'', ''Chat''), (''coder'', ''Coder''), (''math'', ''Math''),
      (''base'', ''Base''), (''small'', ''Small''), (''medium'', ''Medium''), (''large'', ''Large''),
      (''vision'', ''Vision''), (''fp8'', ''FP8''), (''vl'', ''VL'')]"

definition KNOWN_ORG_CASE :: "(string, string) dict" where
  "KNOWN_ORG_CASE = [(''qwen'', ''Qwen''), (''deepseek'', ''deepseek-ai''), (''stepfun'', ''stepfun-ai''), (''z-ai'', ''zai-org'')]"

definition KNOWN_ORG_ALIASES :: "(string, string list) dict" where
  "KNOWN_ORG_ALIASES =
     [(''cohere'', [''CohereLabs'', ''CohereForAI'']), (''coherelabs'', [''cohere'', ''CohereForAI'']),
      (''cohereforai'', [''cohere'', ''CohereLabs'']), (''deepseek-ai'', [''deepseek'']), (''deepseek'', [''deepseek-ai'']),
      (''meta'', [''meta-llama'']), (''mistral'', [''mistralai'']), (''stepfun-ai'', [''stepfun'']),
      (''stepfun'', [''stepfun-ai'']), (''zai-org'', [''z-ai'']), (''z-ai'', [''zai-org''])]"

text \<open>
  \<open>upper\<close> of one character. Three characters of this alphabet have an upper case outside it (micro,
  sharp s, y with diaeresis) and stay as they are here; repository names are ASCII.
\<close>

definition chr_upper :: "char \<Rightarrow> char" where
  "chr_upper c = (let n = code c in
     if 97 \<le> n \<and> n \<le> 122 \<or> 224 \<le> n \<and> n \<le> 254 \<and> n \<noteq> 247 then char_of (n - 32) else c)"

definition lower_letter :: "char \<Rightarrow> bool" where
  "lower_letter c = (97 \<le> code c \<and> code c \<le> 122)"

fun split_char :: "char \<Rightarrow> string \<Rightarrow> string list" where
  "split_char c [] = [[]]"
| "split_char c (x # xs) = (if x = c then [] # split_char c xs
     else case split_char c xs of p # ps \<Rightarrow> (x # p) # ps | [] \<Rightarrow> [[x]])"

definition normalize_repo_token :: "string \<Rightarrow> string" where
  "normalize_repo_token token =
    (let token_lower = py_lower token;
         digits = takeWhile chr_is_ascii_digit token_lower; letters = dropWhile chr_is_ascii_digit token_lower;
         rest_digits = takeWhile chr_is_ascii_digit (drop 1 token_lower);
         rest_letters = dropWhile chr_is_ascii_digit (drop 1 token_lower)
     in case token of [] \<Rightarrow> token
      | c # cs \<Rightarrow>
         (case map_of KNOWN_REPO_TOKEN_CASE token_lower of Some known \<Rightarrow> known
          | None \<Rightarrow>
            if digits \<noteq> [] \<and> letters \<noteq> [] \<and> list_all lower_letter letters then digits @ map chr_upper letters
            else if lower_letter (hd token_lower) \<and> rest_digits \<noteq> [] \<and> length rest_letters \<le> 1
              \<and> list_all lower_letter rest_letters
            then chr_upper (hd token_lower) # rest_digits @ map chr_upper rest_letters
            else if hd token_lower = CHR ''v'' \<and> rest_digits \<noteq> [] \<and> CHR 0x0A \<notin> set token_lower
            then chr_upper (hd token_lower) # drop 1 token_lower
            else if chr_isalpha c then chr_upper c # cs else token))"

definition canonical_repo :: "string \<Rightarrow> string" where
  "canonical_repo repo = join ''-'' (map normalize_repo_token (split_char (CHR ''-'') repo))"

definition before_slash :: "string \<Rightarrow> string" where
  "before_slash s = takeWhile (\<lambda>c. c \<noteq> CHR ''/'') s"

definition canonicalize_repo_id :: "string \<Rightarrow> string" where
  "canonicalize_repo_id repo_id = (if CHR ''/'' \<notin> set repo_id then repo_id
     else let org = before_slash repo_id
          in dict_get KNOWN_ORG_CASE (py_lower org) org @ ''/'' @ canonical_repo (after_slash repo_id))"

text \<open>The lists are built by appending what is not yet in them.\<close>

definition distinct_names :: "string list \<Rightarrow> string list" where
  "distinct_names xs = dedup_on (\<lambda>x. x) [] (filter (\<lambda>c. c \<noteq> []) xs)"

definition candidate_org_names :: "string \<Rightarrow> string list" where
  "candidate_org_names org = (let org_lower = py_lower org in
     distinct_names (map py_strip ([org, dict_get KNOWN_ORG_CASE org_lower org] @ dict_get KNOWN_ORG_ALIASES org_lower [])))"

definition nemotron_names :: "string \<Rightarrow> string list" where
  "nemotron_names canonical =
    (let prefixed = ''NVIDIA-'' @ canonical;
         vl_middle = py_removesuffix (drop 14 canonical) ''-VL'';
         vl_reordered = ''NVIDIA-Nemotron-Nano-VL-'' @ vl_middle
     in prefixed # map (\<lambda>s. prefixed @ s) [''-BF16'', ''-FP8'', ''-NVFP4'', ''-Base'']
        @ (if py_startswith canonical ''Nemotron-Nano-'' \<and> py_endswith canonical ''-VL''
           then vl_reordered # map (\<lambda>s. vl_reordered @ s) [''-BF16'', ''-FP8'', ''-NVFP4''] else []))"

definition candidate_repo_names :: "string \<Rightarrow> string \<Rightarrow> string list" where
  "candidate_repo_names org repo =
    (let org_lower = py_lower org; canonical = canonical_repo repo in
     distinct_names (map py_strip [repo, canonical]
       @ (if org_lower = ''meta-llama'' \<and> py_startswith canonical ''Llama-'' then [''Meta-'' @ canonical] else [])
       @ (if org_lower = ''stepfun-ai'' \<and> py_startswith canonical ''Step-'' \<and> \<not> py_endswith canonical ''-FP8''
            \<and> \<not> py_endswith canonical ''-BF16''
          then [canonical @ ''-FP8'', canonical @ ''-BF16''] else [])
       @ (if org_lower = ''mistralai'' \<and> canonical = ''Mistral-Small-3.1-24B-Instruct'' then [canonical @ ''-2503''] else [])
       @ (if org_lower = ''nvidia'' \<and> py_startswith canonical ''Nemotron'' then nemotron_names canonical else [])
       @ (if org_lower = ''zai-org'' \<and> canonical = ''GLM-4.5-Air'' then [canonical @ ''-FP8''] else [])
       @ (if org_lower \<in> set [''cohere'', ''coherelabs'', ''cohereforai''] \<and> py_startswith (py_lower repo) ''command-''
          then [''c4ai-'' @ py_lower repo] else [])))"

definition ascii_alnum :: "char \<Rightarrow> bool" where
  "ascii_alnum c = (suffix_char c \<and> c \<notin> set [CHR ''.'', CHR ''_'', CHR ''-''])"

definition is_safe_hf_repo_component :: "string \<Rightarrow> bool" where
  "is_safe_hf_repo_component v = (v \<noteq> [] \<and> length v \<le> 96 \<and> ascii_alnum (hd v) \<and> ascii_alnum (last v)
     \<and> list_all suffix_char v \<and> \<not> py_in ''..'' v \<and> \<not> py_in ''--'' v)"

definition candidate_hf_repo_ids :: "string \<Rightarrow> string list" where
  "candidate_hf_repo_ids model_hint =
    (let hint = py_strip model_hint; sanitized = strip_hint_suffix hint;
         org = before_slash sanitized; repo = after_slash sanitized
     in if hint = [] \<or> CHR ''/'' \<notin> set hint then []
        else if count_if (\<lambda>c. c = CHR ''/'') sanitized \<noteq> 1 \<or> CHR 0x5C \<in> set sanitized then []
        else if \<not> is_safe_hf_repo_component org \<or> \<not> is_safe_hf_repo_component repo then []
        else dedup_on (\<lambda>x. x) []
          (filter (\<lambda>c. CHR ''/'' \<in> set c) (map py_strip [sanitized, canonicalize_repo_id sanitized])
           @ filter (\<lambda>c. c \<noteq> []) (concat (map (\<lambda>o'. map (\<lambda>r. py_strip (o' @ ''/'' @ r)) (candidate_repo_names o' repo))
               (candidate_org_names org)))))"

definition hf_endpoint_is_trusted :: "string option \<Rightarrow> bool" where
  "hf_endpoint_is_trusted endpoint = (case endpoint of None \<Rightarrow> True
     | Some e \<Rightarrow> py_rstrip_char (CHR ''/'') e = ''https://huggingface.co'')"

section \<open>The cache and its jobs\<close>

record hub_env =
  he_tok :: tok_env
  he_available :: bool
  he_endpoint :: "string option"
  he_from_pretrained :: "string \<Rightarrow> tokenizer option"

datatype job_phase = Queued | Running | Loaded "tokenizer option" | Cancelled

record hub_job =
  hj_hint :: string
  hj_pool :: nat
  hj_phase :: job_phase

record hub =
  hb_cache :: "(string, tokenizer) dict"
  hb_futures :: "(string, nat) dict"
  hb_jobs :: "hub_job list"
  hb_pool :: "nat option"
  hb_pools :: nat
  hb_requested :: "string list"

definition hub_init :: hub where
  "hub_init = \<lparr>hb_cache = [], hb_futures = [], hb_jobs = [], hb_pool = None, hb_pools = 0, hb_requested = []\<rparr>"

definition job_done :: "hub_job \<Rightarrow> bool" where
  "job_done j = (case hj_phase j of Queued \<Rightarrow> False | Running \<Rightarrow> False | _ \<Rightarrow> True)"

definition ensure_hf_tokenizer_executor :: "hub \<Rightarrow> nat \<times> hub" where
  "ensure_hf_tokenizer_executor hb = (case hb_pool hb of
       Some p \<Rightarrow> (p, hb)
     | None \<Rightarrow> (hb_pools hb, hb\<lparr>hb_pool := Some (hb_pools hb), hb_pools := hb_pools hb + 1\<rparr>))"

definition schedule_tokenizer_preload :: "hub_env \<Rightarrow> string \<Rightarrow> hub \<Rightarrow> bool \<times> hub" where
  "schedule_tokenizer_preload he model_hint hb =
    (let hint = py_strip model_hint in
     if hint = [] \<or> \<not> he_available he \<or> \<not> hf_endpoint_is_trusted (he_endpoint he) then (False, hb)
     else case resolve_tiktoken_encoding (he_tok he) None (Some hint) of Some enc \<Rightarrow> (False, hb)
     | None \<Rightarrow>
       if candidate_hf_repo_ids hint = [] \<or> has_key (hb_cache hb) hint then (False, hb)
       else if (case map_of (hb_futures hb) hint of None \<Rightarrow> False | Some i \<Rightarrow> \<not> job_done (hb_jobs hb ! i)) then (False, hb)
       else let (pool, hb1) = ensure_hf_tokenizer_executor hb in
         (True, hb1\<lparr>hb_futures := AList.update hint (length (hb_jobs hb1)) (hb_futures hb1),
           hb_jobs := hb_jobs hb1 @ [\<lparr>hj_hint = hint, hj_pool = pool, hj_phase = Queued\<rparr>]\<rparr>))"

text \<open>The candidates in turn, up to the first that loads, and the names asked for.\<close>

fun first_loaded :: "(string \<Rightarrow> tokenizer option) \<Rightarrow> string list \<Rightarrow> tokenizer option \<times> string list" where
  "first_loaded f [] = (None, [])"
| "first_loaded f (r # rs) = (case f r of Some tok \<Rightarrow> (Some tok, [r])
     | None \<Rightarrow> (case first_loaded f rs of (res, asked) \<Rightarrow> (res, r # asked)))"

definition set_phase :: "nat \<Rightarrow> job_phase \<Rightarrow> hub \<Rightarrow> hub" where
  "set_phase i ph hb = hb\<lparr>hb_jobs := (hb_jobs hb)[i := (hb_jobs hb ! i)\<lparr>hj_phase := ph\<rparr>]\<rparr>"

definition load_hf_tokenizer_blocking :: "hub_env \<Rightarrow> nat \<Rightarrow> hub \<Rightarrow> hub" where
  "load_hf_tokenizer_blocking he i hb =
    (let hint = hj_hint (hb_jobs hb ! i) in
     if \<not> he_available he \<or> \<not> hf_endpoint_is_trusted (he_endpoint he) then set_phase i (Loaded None) hb
     else case first_loaded (he_from_pretrained he) (candidate_hf_repo_ids hint) of
       (res, asked) \<Rightarrow>
         (set_phase i (Loaded res) hb)\<lparr>hb_requested := hb_requested hb @ asked,
           hb_cache := (case res of None \<Rightarrow> hb_cache hb | Some tok \<Rightarrow> AList.update hint tok (hb_cache hb))\<rparr>)"

text \<open>The callback of a job that is done; a cancelled job has no tokenizer.\<close>

definition tokenizer_future_done :: "nat \<Rightarrow> hub \<Rightarrow> hub" where
  "tokenizer_future_done i hb =
    (let j = hb_jobs hb ! i; hint = hj_hint j in
     if map_of (hb_futures hb) hint \<noteq> Some i then hb
     else (hb\<lparr>hb_futures := AList.delete hint (hb_futures hb)\<rparr>)\<lparr>hb_cache :=
       (case hj_phase j of Loaded (Some tok) \<Rightarrow> AList.update hint tok (hb_cache hb) | _ \<Rightarrow> hb_cache hb)\<rparr>)"

text \<open>Cancelling the jobs of a pool that have not started.\<close>

definition cancel_queued :: "(nat \<Rightarrow> hub_job \<Rightarrow> bool) \<Rightarrow> hub \<Rightarrow> hub" where
  "cancel_queued p hb = hb\<lparr>hb_jobs := map (\<lambda>(i, j).
     if hj_phase j = Queued \<and> p i j then j\<lparr>hj_phase := Cancelled\<rparr> else j) (enumerate 0 (hb_jobs hb))\<rparr>"

definition clear_hf_tokenizer_cache :: "hub \<Rightarrow> hub" where
  "clear_hf_tokenizer_cache hb =
    (let pool = hb_pool hb; pending = map snd (hb_futures hb);
         cleared = hb\<lparr>hb_cache := [], hb_futures := [], hb_pool := None\<rparr>
     in cancel_queued (\<lambda>i j. pool = Some (hj_pool j) \<or> i \<in> set pending) cleared)"

definition shutdown_tokenizer_preloads :: "hub \<Rightarrow> hub" where
  "shutdown_tokenizer_preloads hb = (case hb_pool hb of
       None \<Rightarrow> hb
     | Some pool \<Rightarrow> cancel_queued (\<lambda>i j. hj_pool j = pool) (hb\<lparr>hb_pool := None\<rparr>))"

text \<open>A request looks in the cache, never waits, and starts a job when there is none.\<close>

definition load_hf_tokenizer :: "hub_env \<Rightarrow> string \<Rightarrow> hub \<Rightarrow> tokenizer option \<times> hub" where
  "load_hf_tokenizer he model_hint hb =
    (if \<not> he_available he then (None, hb)
     else case map_of (hb_cache hb) model_hint of Some tok \<Rightarrow> (Some tok, hb)
     | None \<Rightarrow>
       if (case map_of (hb_futures hb) model_hint of None \<Rightarrow> False | Some i \<Rightarrow> \<not> job_done (hb_jobs hb ! i)) then (None, hb)
       else (None, snd (schedule_tokenizer_preload he model_hint hb)))"

text \<open>Steps of the program and of the threads of the pool, at most two of which run.\<close>

inductive hub_step :: "hub_env \<Rightarrow> hub \<Rightarrow> hub \<Rightarrow> bool" for he where
  schedule: "hub_step he hb (snd (schedule_tokenizer_preload he hint hb))"
| lookup: "hub_step he hb (snd (load_hf_tokenizer he hint hb))"
| start: "i < length (hb_jobs hb) \<Longrightarrow> hj_phase (hb_jobs hb ! i) = Queued \<Longrightarrow>
    length (filter (\<lambda>j. hj_phase j = Running \<and> hj_pool j = hj_pool (hb_jobs hb ! i)) (hb_jobs hb)) < 2 \<Longrightarrow>
    hub_step he hb (set_phase i Running hb)"
| load: "i < length (hb_jobs hb) \<Longrightarrow> hj_phase (hb_jobs hb ! i) = Running \<Longrightarrow>
    hub_step he hb (load_hf_tokenizer_blocking he i hb)"
| report: "i < length (hb_jobs hb) \<Longrightarrow> job_done (hb_jobs hb ! i) \<Longrightarrow> hub_step he hb (tokenizer_future_done i hb)"
| clear: "hub_step he hb (clear_hf_tokenizer_cache hb)"
| shutdown: "hub_step he hb (shutdown_tokenizer_preloads hb)"

inductive hub_reach :: "hub_env \<Rightarrow> hub \<Rightarrow> bool" for he where
  init: "hub_reach he hub_init"
| step: "hub_reach he hb \<Longrightarrow> hub_step he hb hb' \<Longrightarrow> hub_reach he hb'"

section \<open>Only safe names are asked for\<close>

definition dotless :: "string \<Rightarrow> bool" where
  "dotless s = successively (\<lambda>x y. x \<noteq> CHR ''.'' \<or> y \<noteq> CHR ''.'') s"

text \<open>A path segment of the hub: letters, digits, dots, underscores and hyphens, and no two dots in a row.\<close>

definition safe_segment :: "string \<Rightarrow> bool" where
  "safe_segment s = (s \<noteq> [] \<and> list_all suffix_char s \<and> dotless s)"

lemma dotless_in: "\<not> py_in ''..'' s \<longleftrightarrow> dotless s"
proof (induction s)
  case (Cons c cs)
  then show ?case by (cases cs) (auto simp: dotless_def py_startswith_def)
qed (simp add: dotless_def)

lemma suffix_char_lower [simp]: "suffix_char (chr_lower c) = suffix_char c"
proof -
  have "code (CHR ''.'') = 46" "code (CHR ''_'') = 95" "code (CHR ''-'') = 45" by (simp_all add: code_def)
  then have eq: "suffix_char d \<longleftrightarrow> 65 \<le> code d \<and> code d \<le> 90 \<or> 97 \<le> code d \<and> code d \<le> 122 \<or> 48 \<le> code d \<and> code d \<le> 57
      \<or> code d = 46 \<or> code d = 95 \<or> code d = 45" for d
    by (metis (no_types, lifting) char_of_code suffix_char_def)
  show ?thesis by (auto simp: eq chr_lower_def Let_def code_char_of)
qed

lemma lower_dot [simp]: "chr_lower c = CHR ''.'' \<longleftrightarrow> c = CHR ''.''"
proof
  assume l: "chr_lower c = CHR ''.''"
  have "code (CHR ''.'') = 46" by (simp add: code_def)
  with l have "code (chr_lower c) = 46" by simp
  then have "\<not> (65 \<le> code c \<and> code c \<le> 90 \<or> 192 \<le> code c \<and> code c \<le> 222 \<and> code c \<noteq> 215)"
    by (auto simp: chr_lower_def Let_def code_char_of split: if_splits)
  with l show "c = CHR ''.''" by (simp add: chr_lower_def Let_def)
qed (simp add: chr_lower_def code_def)

lemma safe_lower: "safe_segment (py_lower s) = safe_segment s"
  by (simp add: safe_segment_def dotless_def py_lower_def successively_map list_all_iff)

lemma same_letters: "py_lower s = py_lower t \<Longrightarrow> safe_segment s = safe_segment t"
  by (metis safe_lower)

lemma lower_upper [simp]: "chr_lower (chr_upper c) = chr_lower c"
proof (cases "97 \<le> code c \<and> code c \<le> 122 \<or> 224 \<le> code c \<and> code c \<le> 254 \<and> code c \<noteq> 247")
  case True
  then have "code (chr_upper c) = code c - 32" by (auto simp: chr_upper_def Let_def code_char_of)
  with True have "chr_lower (chr_upper c) = char_of (code c)" by (auto simp: chr_lower_def Let_def)
  moreover have "chr_lower c = c" using True by (auto simp: chr_lower_def Let_def)
  ultimately show ?thesis by simp
qed (auto simp: chr_upper_def Let_def)

lemma lower_uppers: "py_lower (a @ map chr_upper b) = py_lower (a @ b)" "py_lower (chr_upper c # cs) = py_lower (c # cs)"
  by (simp_all add: py_lower_def)

lemma lower_regrouped:
  "py_lower (takeWhile p l @ map chr_upper (dropWhile p l)) = py_lower l"
  "l \<noteq> [] \<Longrightarrow> py_lower (chr_upper (hd l) # takeWhile p (drop 1 l) @ map chr_upper (dropWhile p (drop 1 l))) = py_lower l"
  "l \<noteq> [] \<Longrightarrow> py_lower (chr_upper (hd l) # drop 1 l) = py_lower l"
proof -
  have "py_lower (chr_upper c # takeWhile p xs @ map chr_upper (dropWhile p xs)) = py_lower (c # xs)" for c xs
    using lower_uppers(1) [of "chr_upper c # takeWhile p xs" "dropWhile p xs"] lower_uppers(2) [of c xs] by simp
  then show "l \<noteq> [] \<Longrightarrow> py_lower (chr_upper (hd l) # takeWhile p (drop 1 l) @ map chr_upper (dropWhile p (drop 1 l))) = py_lower l"
    by (cases l) simp_all
qed (simp_all add: lower_uppers, cases l, simp_all)

lemma known_token_case: "map_of KNOWN_REPO_TOKEN_CASE k = Some v \<Longrightarrow> py_lower v = k"
proof -
  have "list_all (\<lambda>(k, v). py_lower v = k) KNOWN_REPO_TOKEN_CASE" by code_simp
  then show "map_of KNOWN_REPO_TOKEN_CASE k = Some v \<Longrightarrow> py_lower v = k"
    by (auto simp: list_all_iff dest!: map_of_SomeD)
qed

lemma lower_repo_token: "py_lower (normalize_repo_token t) = py_lower t"
proof (cases t)
  case (Cons c cs)
  have ne: "py_lower (c # cs) \<noteq> []" by (simp add: py_lower_def)
  have idem: "py_lower (py_lower s) = py_lower s" for s by simp
  show ?thesis
  proof (cases "map_of KNOWN_REPO_TOKEN_CASE (py_lower (c # cs))")
    case (Some v)
    with Cons show ?thesis by (simp add: normalize_repo_token_def known_token_case)
  next
    case None
    show ?thesis
      unfolding normalize_repo_token_def Let_def Cons list.case None option.case if_distrib [of py_lower]
      unfolding lower_regrouped(1) lower_regrouped(2,3) [OF ne]
      unfolding lower_uppers idem by (simp only: if_cancel)
  qed
qed (simp add: normalize_repo_token_def)

lemma split_char_nonempty: "split_char c ys \<noteq> []"
  by (induction ys) (auto split: list.split)

lemma join_Cons: "xs \<noteq> [] \<Longrightarrow> join sep (x # xs) = x @ sep @ join sep xs"
  by (cases xs) simp_all

lemma join_split: "join ''-'' (split_char (CHR ''-'') s) = s"
proof (induction s)
  case (Cons x xs)
  obtain p ps where p: "split_char (CHR ''-'') xs = p # ps" using split_char_nonempty by (meson neq_Nil_conv)
  with Cons have "join ''-'' (p # ps) = xs" by simp
  with p show ?case by (cases ps) (auto simp: join_Cons)
qed simp

lemma lower_join_dash: "py_lower (join ''-'' xs) = join ''-'' (map py_lower xs)"
proof (induction xs)
  case (Cons x xs)
  have "chr_lower (CHR ''-'') = CHR ''-''" by (simp add: chr_lower_def code_def)
  with Cons show ?case by (cases "xs = []") (simp_all add: join_Cons py_lower_def)
qed (simp add: py_lower_def)

text \<open>Canonical names differ from what the provider sent in letter case only.\<close>

lemma lower_canonical: "py_lower (canonical_repo repo) = py_lower repo"
proof -
  have "py_lower (canonical_repo repo) = join ''-'' (map py_lower (split_char (CHR ''-'') repo))"
    by (simp add: canonical_repo_def lower_join_dash comp_def lower_repo_token)
  then show ?thesis by (metis join_split lower_join_dash)
qed

lemma safe_append: "safe_segment a \<Longrightarrow> list_all suffix_char b \<Longrightarrow> dotless b \<Longrightarrow> b = [] \<or> hd b \<noteq> CHR ''.'' \<Longrightarrow> safe_segment (a @ b)"
  by (auto simp: safe_segment_def dotless_def successively_append_iff)

lemma safe_prepend:
  "safe_segment a \<Longrightarrow> last a \<noteq> CHR ''.'' \<Longrightarrow> list_all suffix_char b \<Longrightarrow> dotless b \<Longrightarrow> safe_segment (a @ b)"
  by (auto simp: safe_segment_def dotless_def successively_append_iff)

lemma safe_parts:
  assumes "safe_segment s"
  shows "list_all suffix_char (take n s)" "dotless (take n s)" "list_all suffix_char (drop n s)" "dotless (drop n s)"
proof -
  from assms have "list_all suffix_char (take n s @ drop n s)" "dotless (take n s @ drop n s)"
    by (simp_all add: safe_segment_def)
  then show "list_all suffix_char (take n s)" "dotless (take n s)" "list_all suffix_char (drop n s)" "dotless (drop n s)"
    unfolding dotless_def successively_append_iff list_all_append by blast+
qed

lemma known_suffixes:
  "list_all (\<lambda>b. list_all suffix_char b \<and> dotless b \<and> hd b \<noteq> CHR ''.'')
     [''-FP8'', ''-BF16'', ''-2503'', ''-NVFP4'', ''-Base'']"
  "list_all (\<lambda>a. safe_segment a \<and> last a \<noteq> CHR ''.'') [''Meta-'', ''NVIDIA-'', ''NVIDIA-Nemotron-Nano-VL-'', ''c4ai-'']"
  unfolding dotless_def safe_segment_def by code_simp+

lemma safe_suffixed [simp]:
  "safe_segment a \<Longrightarrow> safe_segment (a @ ''-FP8'')" "safe_segment a \<Longrightarrow> safe_segment (a @ ''-BF16'')"
  "safe_segment a \<Longrightarrow> safe_segment (a @ ''-2503'')" "safe_segment a \<Longrightarrow> safe_segment (a @ ''-NVFP4'')"
  "safe_segment a \<Longrightarrow> safe_segment (a @ ''-Base'')"
  using known_suffixes(1) by (auto intro: safe_append)

lemma safe_prefixed:
  assumes "list_all suffix_char b" and "dotless b"
  shows "safe_segment (''Meta-'' @ b)" "safe_segment (''NVIDIA-'' @ b)" "safe_segment (''NVIDIA-Nemotron-Nano-VL-'' @ b)"
    "safe_segment (''c4ai-'' @ b)"
  by (rule safe_prepend; use assms known_suffixes(2) in simp)+

lemma strip_safe: "list_all suffix_char s \<Longrightarrow> py_strip s = s"
proof -
  assume safe: "list_all suffix_char s"
  have nonspace: "\<not> chr_isspace c" if "suffix_char c" for c
  proof -
    have "code (CHR ''.'') = 46" "code (CHR ''_'') = 95" "code (CHR ''-'') = 45" by (simp_all add: code_def)
    with that show ?thesis by (auto simp: suffix_char_def chr_isspace_def Let_def)
  qed
  have drop: "py_lstrip t = t" if "list_all suffix_char t" for t
    using that nonspace by (cases t) (auto simp: py_lstrip_def)
  show ?thesis using drop [of s] drop [of "rev s"] safe by (simp add: py_strip_def)
qed

lemma in_distinct_names: "x \<in> set (distinct_names xs) \<Longrightarrow> x \<in> set xs \<and> x \<noteq> []"
  using dedup_on_subset unfolding distinct_names_def by fastforce

lemma safe_names:
  assumes "list_all (\<lambda>x. x = [] \<or> safe_segment x) xs" and "x \<in> set (distinct_names xs)"
  shows "safe_segment x"
  using in_distinct_names [OF assms(2)] assms(1) by (auto simp: list_all_iff)

lemma safe_strip: "safe_segment s \<Longrightarrow> safe_segment (py_strip s)"
  by (simp add: strip_safe safe_segment_def)

lemma safe_org_names:
  assumes "safe_segment org" and "o' \<in> set (candidate_org_names org)"
  shows "safe_segment o'"
proof -
  have tables: "list_all (\<lambda>(k, v). safe_segment v) KNOWN_ORG_CASE"
    "list_all (\<lambda>(k, vs). list_all safe_segment vs) KNOWN_ORG_ALIASES"
    unfolding safe_segment_def dotless_def by code_simp+
  have "safe_segment (dict_get KNOWN_ORG_CASE k org)" for k
  proof (cases "map_of KNOWN_ORG_CASE k")
    case (Some v)
    with tables(1) map_of_SomeD [OF Some] show ?thesis by (auto simp: dict_get_def list_all_iff)
  qed (simp add: dict_get_def assms(1))
  moreover have "list_all safe_segment (dict_get KNOWN_ORG_ALIASES k [])" for k
  proof (cases "map_of KNOWN_ORG_ALIASES k")
    case (Some vs)
    with tables(2) map_of_SomeD [OF Some] show ?thesis by (auto simp: dict_get_def list_all_iff)
  qed (simp add: dict_get_def)
  ultimately have "list_all (\<lambda>x. x = [] \<or> safe_segment x) (map py_strip
      ([org, dict_get KNOWN_ORG_CASE (py_lower org) org] @ dict_get KNOWN_ORG_ALIASES (py_lower org) []))"
    using assms(1) by (auto simp: list_all_iff intro: safe_strip)
  from safe_names [OF this] assms(2) show ?thesis by (simp add: candidate_org_names_def Let_def)
qed

lemma safe_nemotron: "safe_segment c \<Longrightarrow> list_all safe_segment (nemotron_names c)"
proof -
  assume c: "safe_segment c"
  then have "safe_segment (''NVIDIA-'' @ c)" using safe_prefixed(2) [of c] by (simp add: safe_segment_def)
  moreover have "safe_segment (''NVIDIA-Nemotron-Nano-VL-'' @ py_removesuffix (drop 14 c) ''-VL'')"
  proof (rule safe_prefixed(3))
    have d: "list_all suffix_char (drop 14 c)" "dotless (drop 14 c)" by (rule safe_parts [OF c])+
    then show "list_all suffix_char (py_removesuffix (drop 14 c) ''-VL'')"
      by (auto simp: py_removesuffix_def list_all_iff dest: in_set_takeD)
    have "dotless (take n (drop 14 c))" for n
      using d(2) unfolding dotless_def by (metis append_take_drop_id successively_append_iff)
    with d(2) show "dotless (py_removesuffix (drop 14 c) ''-VL'')" by (simp add: py_removesuffix_def)
  qed
  ultimately show ?thesis unfolding nemotron_names_def Let_def by (simp del: append.simps append_assoc)
qed

lemma list_all_if: "list_all p xs \<Longrightarrow> list_all p (if b then xs else [])"
  by simp

lemma safe_repo_names:
  assumes "safe_segment repo" and "r \<in> set (candidate_repo_names o' repo)"
  shows "safe_segment r"
proof -
  let ?c = "canonical_repo repo"
  have c: "safe_segment ?c" using assms(1) same_letters [OF lower_canonical] by blast
  have l: "safe_segment (py_lower repo)" using assms(1) by (simp add: safe_lower)
  have more: "safe_segment (''Meta-'' @ ?c)" "safe_segment (''c4ai-'' @ py_lower repo)"
    using safe_prefixed(1) [of ?c] safe_prefixed(4) [of "py_lower repo"] c [unfolded safe_segment_def] l [unfolded safe_segment_def]
    by (simp_all del: append.simps append_Cons)
  let ?names = "map py_strip [repo, ?c]
       @ (if py_lower o' = ''meta-llama'' \<and> py_startswith ?c ''Llama-'' then [''Meta-'' @ ?c] else [])
       @ (if py_lower o' = ''stepfun-ai'' \<and> py_startswith ?c ''Step-'' \<and> \<not> py_endswith ?c ''-FP8'' \<and> \<not> py_endswith ?c ''-BF16''
          then [?c @ ''-FP8'', ?c @ ''-BF16''] else [])
       @ (if py_lower o' = ''mistralai'' \<and> ?c = ''Mistral-Small-3.1-24B-Instruct'' then [?c @ ''-2503''] else [])
       @ (if py_lower o' = ''nvidia'' \<and> py_startswith ?c ''Nemotron'' then nemotron_names ?c else [])
       @ (if py_lower o' = ''zai-org'' \<and> ?c = ''GLM-4.5-Air'' then [?c @ ''-FP8''] else [])
       @ (if py_lower o' \<in> set [''cohere'', ''coherelabs'', ''cohereforai''] \<and> py_startswith (py_lower repo) ''command-''
          then [''c4ai-'' @ py_lower repo] else [])"
  have "list_all safe_segment ?names"
    using assms(1) c more safe_nemotron [OF c]
    unfolding list_all_append
    by (intro conjI list_all_if) (simp_all add: safe_strip del: append.simps append_Cons append_assoc)
  then have "list_all (\<lambda>x. x = [] \<or> safe_segment x) ?names" by (auto simp: list_all_iff)
  from safe_names [OF this] assms(2) show ?thesis unfolding candidate_repo_names_def Let_def by blast
qed

lemma safe_component: "is_safe_hf_repo_component v \<Longrightarrow> safe_segment v"
  by (simp add: is_safe_hf_repo_component_def safe_segment_def dotless_in)

lemma split_at_slash: "CHR ''/'' \<in> set s \<Longrightarrow> s = before_slash s @ ''/'' @ after_slash s"
  by (induction s) (auto simp: before_slash_def after_slash_def)

definition safe_repo_id :: "string \<Rightarrow> bool" where
  "safe_repo_id i = (\<exists>org repo. i = org @ ''/'' @ repo \<and> safe_segment org \<and> safe_segment repo)"

lemma strip_repo_id:
  assumes "safe_segment org" and "safe_segment repo"
  shows "py_strip (org @ ''/'' @ repo) = org @ ''/'' @ repo"
proof -
  have "\<not> chr_isspace (hd org)" "\<not> chr_isspace (hd (rev repo))"
    using strip_safe [of org] strip_safe [of repo] assms
  proof -
    have nonspace: "\<not> chr_isspace c" if "suffix_char c" for c
    proof -
      have "py_strip [c] = [c]" using strip_safe [of "[c]"] that by simp
      then show ?thesis by (auto simp: py_strip_def py_lstrip_def split: if_splits)
    qed
    show "\<not> chr_isspace (hd org)" "\<not> chr_isspace (hd (rev repo))"
      using assms nonspace by (auto simp: safe_segment_def list_all_iff hd_rev)
  qed
  then have "py_lstrip (org @ ''/'' @ repo) = org @ ''/'' @ repo"
    "py_lstrip (rev (org @ ''/'' @ repo)) = rev (org @ ''/'' @ repo)"
    using assms by (cases org; cases "rev repo"; simp add: py_lstrip_def safe_segment_def)+
  then show ?thesis by (simp add: py_strip_def)
qed

lemma candidates_safe: "i \<in> set (candidate_hf_repo_ids hint) \<Longrightarrow> safe_repo_id i"
proof -
  assume i: "i \<in> set (candidate_hf_repo_ids hint)"
  let ?s = "strip_hint_suffix (py_strip hint)"
  let ?org = "before_slash ?s" and ?repo = "after_slash ?s"
  let ?ids = "filter (\<lambda>c. CHR ''/'' \<in> set c) (map py_strip [?s, canonicalize_repo_id ?s])
     @ filter (\<lambda>c. c \<noteq> []) (concat (map (\<lambda>o'. map (\<lambda>r. py_strip (o' @ ''/'' @ r)) (candidate_repo_names o' ?repo))
         (candidate_org_names ?org)))"
  from i have one: "count_if (\<lambda>c. c = CHR ''/'') ?s = 1" and org: "safe_segment ?org" and repo: "safe_segment ?repo"
    and mem: "i \<in> set (dedup_on (\<lambda>x. x) [] ?ids)"
    unfolding candidate_hf_repo_ids_def Let_def by (auto split: if_splits dest: safe_component)
  have slash: "CHR ''/'' \<in> set ?s"
  proof (rule ccontr)
    assume "CHR ''/'' \<notin> set ?s"
    then have "filter (\<lambda>c. c = CHR ''/'') ?s = []" by (auto simp: filter_empty_conv)
    with one show False by (simp add: count_if_def)
  qed
  have canonical: "safe_segment (canonical_repo ?repo)" using repo same_letters [OF lower_canonical] by blast
  have known: "safe_segment (dict_get KNOWN_ORG_CASE k ?org)" for k
  proof (cases "map_of KNOWN_ORG_CASE k")
    case (Some v)
    have "list_all (\<lambda>(k, v). safe_segment v) KNOWN_ORG_CASE" unfolding safe_segment_def dotless_def by code_simp
    with map_of_SomeD [OF Some] Some show ?thesis by (auto simp: dict_get_def list_all_iff)
  qed (simp add: dict_get_def org)
  have "i \<in> set ?ids" by (rule subsetD [OF dedup_on_subset mem])
  then consider "i = py_strip ?s" | "i = py_strip (canonicalize_repo_id ?s)"
    | o' r where "o' \<in> set (candidate_org_names ?org)" "r \<in> set (candidate_repo_names o' ?repo)" "i = py_strip (o' @ ''/'' @ r)"
    by (auto split: if_splits)
  then show ?thesis
  proof cases
    case 1
    with split_at_slash [OF slash] strip_repo_id [OF org repo] org repo show ?thesis unfolding safe_repo_id_def by metis
  next
    case 2
    have "canonicalize_repo_id ?s = dict_get KNOWN_ORG_CASE (py_lower ?org) ?org @ ''/'' @ canonical_repo ?repo"
      using slash by (simp add: canonicalize_repo_id_def Let_def)
    with 2 strip_repo_id [OF known canonical] known canonical show ?thesis unfolding safe_repo_id_def by metis
  next
    case 3
    from safe_org_names [OF org 3(1)] safe_repo_names [OF repo 3(2)] 3(3) strip_repo_id show ?thesis
      unfolding safe_repo_id_def by metis
  qed
qed

section \<open>What the cache holds\<close>

definition loaded_for :: "hub_env \<Rightarrow> string \<Rightarrow> tokenizer \<Rightarrow> bool" where
  "loaded_for he hint tok = (\<exists>i \<in> set (candidate_hf_repo_ids hint). he_from_pretrained he i = Some tok)"

definition hub_inv :: "hub_env \<Rightarrow> hub \<Rightarrow> bool" where
  "hub_inv he hb =
     ((\<forall>i \<in> set (hb_requested hb). safe_repo_id i \<and> he_available he \<and> hf_endpoint_is_trusted (he_endpoint he))
      \<and> (\<forall>(hint, tok) \<in> set (hb_cache hb). loaded_for he hint tok)
      \<and> (\<forall>j \<in> set (hb_jobs hb). case hj_phase j of Loaded (Some tok) \<Rightarrow> loaded_for he (hj_hint j) tok | _ \<Rightarrow> True)
      \<and> (\<forall>(hint, i) \<in> set (hb_futures hb). i < length (hb_jobs hb) \<and> hj_hint (hb_jobs hb ! i) = hint))"

lemma first_loaded_result:
  "first_loaded f ids = (res, asked) \<Longrightarrow> set asked \<subseteq> set ids \<and> (\<forall>tok. res = Some tok \<longrightarrow> (\<exists>i \<in> set ids. f i = Some tok))"
  by (induction ids arbitrary: res asked) (auto split: option.splits prod.splits)

lemma in_update_dict: "x \<in> set (AList.update k v d) \<Longrightarrow> x = (k, v) \<or> x \<in> set d"
  by (induction d) (auto split: if_splits)

lemma in_delete_dict: "x \<in> set (AList.delete k d) \<Longrightarrow> x \<in> set d"
  by (auto simp: AList.delete_eq)

lemma inv_submit:
  "hub_inv he hb \<Longrightarrow> hub_inv he (hb\<lparr>hb_futures := AList.update h (length (hb_jobs hb)) (hb_futures hb),
     hb_jobs := hb_jobs hb @ [\<lparr>hj_hint = h, hj_pool = q, hj_phase = Queued\<rparr>]\<rparr>)"
  by (auto simp: hub_inv_def nth_append dest!: in_update_dict)

lemma inv_executor: "hub_inv he hb \<Longrightarrow> hub_inv he (snd (ensure_hf_tokenizer_executor hb))"
  by (auto simp: hub_inv_def ensure_hf_tokenizer_executor_def split: option.split)

lemma inv_schedule: "hub_inv he hb \<Longrightarrow> hub_inv he (snd (schedule_tokenizer_preload he hint hb))"
  using inv_executor [of he hb] inv_submit
  by (auto simp: schedule_tokenizer_preload_def Let_def case_prod_beta split: option.split)

lemma inv_phase:
  assumes "hub_inv he hb" and "i < length (hb_jobs hb)"
    and "\<And>tok. ph = Loaded (Some tok) \<Longrightarrow> loaded_for he (hj_hint (hb_jobs hb ! i)) tok"
  shows "hub_inv he (set_phase i ph hb)"
proof -
  have "\<forall>j \<in> set ((hb_jobs hb)[i := (hb_jobs hb ! i)\<lparr>hj_phase := ph\<rparr>]).
      case hj_phase j of Loaded (Some tok) \<Rightarrow> loaded_for he (hj_hint j) tok | _ \<Rightarrow> True"
    using assms unfolding hub_inv_def
    by (auto dest!: set_update_subset_insert [THEN subsetD] split: job_phase.split option.split)
  moreover have "hj_hint ((hb_jobs hb)[i := (hb_jobs hb ! i)\<lparr>hj_phase := ph\<rparr>] ! k) = hj_hint (hb_jobs hb ! k)" for k
    using assms(2) by (cases "i = k") simp_all
  ultimately show ?thesis using assms(1) by (simp add: hub_inv_def set_phase_def)
qed

lemma inv_load:
  assumes "hub_inv he hb" and "i < length (hb_jobs hb)"
  shows "hub_inv he (load_hf_tokenizer_blocking he i hb)"
proof (cases "he_available he \<and> hf_endpoint_is_trusted (he_endpoint he)")
  case False
  have "hub_inv he (set_phase i (Loaded None) hb)" by (rule inv_phase [OF assms]) simp
  with False show ?thesis by (auto simp: load_hf_tokenizer_blocking_def Let_def)
next
  case True
  let ?hint = "hj_hint (hb_jobs hb ! i)"
  obtain res asked where f: "first_loaded (he_from_pretrained he) (candidate_hf_repo_ids ?hint) = (res, asked)" by fastforce
  note r = first_loaded_result [OF f]
  have ph: "hub_inv he (set_phase i (Loaded res) hb)" by (rule inv_phase [OF assms]) (use r in \<open>auto simp: loaded_for_def\<close>)
  have cache: "\<forall>(hint, tok) \<in> set (case res of None \<Rightarrow> hb_cache hb | Some tok \<Rightarrow> AList.update ?hint tok (hb_cache hb)). loaded_for he hint tok"
    using assms(1) r by (auto simp: hub_inv_def loaded_for_def dest!: in_update_dict split: option.split)
  have "\<forall>i \<in> set (hb_requested hb @ asked). safe_repo_id i" using assms(1) r candidates_safe by (auto simp: hub_inv_def)
  with ph cache True f show ?thesis by (simp add: load_hf_tokenizer_blocking_def Let_def hub_inv_def)
qed

lemma inv_report:
  assumes "hub_inv he hb" and "i < length (hb_jobs hb)"
  shows "hub_inv he (tokenizer_future_done i hb)"
proof -
  have "hb_jobs hb ! i \<in> set (hb_jobs hb)" using assms(2) by simp
  with assms(1) have "case hj_phase (hb_jobs hb ! i) of Loaded (Some tok) \<Rightarrow> loaded_for he (hj_hint (hb_jobs hb ! i)) tok | _ \<Rightarrow> True"
    unfolding hub_inv_def by blast
  with assms(1) show ?thesis
    by (auto simp: tokenizer_future_done_def hub_inv_def Let_def dest!: in_update_dict in_delete_dict
        split: job_phase.splits option.splits)
qed

lemma inv_cancel: "hub_inv he hb \<Longrightarrow> hub_inv he (cancel_queued p hb)"
proof -
  assume inv: "hub_inv he hb"
  let ?f = "\<lambda>(i, j). if hj_phase j = Queued \<and> p i j then j\<lparr>hj_phase := Cancelled\<rparr> else j"
  have jobs: "\<forall>j \<in> set (map ?f (enumerate 0 (hb_jobs hb))).
      case hj_phase j of Loaded (Some tok) \<Rightarrow> loaded_for he (hj_hint j) tok | _ \<Rightarrow> True"
    using inv by (auto simp: hub_inv_def in_set_enumerate_eq split: if_splits)
  have "hj_hint (map ?f (enumerate 0 (hb_jobs hb)) ! k) = hj_hint (hb_jobs hb ! k)" if "k < length (hb_jobs hb)" for k
    using that by (simp add: nth_enumerate_eq)
  with inv jobs show ?thesis by (auto simp: hub_inv_def cancel_queued_def)
qed

lemma inv_hub_step: "hub_step he hb hb' \<Longrightarrow> hub_inv he hb \<Longrightarrow> hub_inv he hb'"
proof (induction rule: hub_step.induct)
  case (start i hb)
  then show ?case by (intro inv_phase) simp_all
next
  case (lookup hb hint)
  then show ?case using inv_schedule by (auto simp: load_hf_tokenizer_def split: option.split)
next
  case (clear hb)
  then have "hub_inv he (hb\<lparr>hb_cache := [], hb_futures := [], hb_pool := None\<rparr>)" by (simp add: hub_inv_def)
  then show ?case by (simp add: clear_hf_tokenizer_cache_def Let_def inv_cancel)
next
  case (shutdown hb)
  then have "hub_inv he (hb\<lparr>hb_pool := None\<rparr>)" by (simp add: hub_inv_def)
  with shutdown show ?case by (simp add: shutdown_tokenizer_preloads_def inv_cancel split: option.split)
qed (simp_all add: inv_schedule inv_load inv_report)

lemma inv_hub_reach: "hub_reach he hb \<Longrightarrow> hub_inv he hb"
proof (induction rule: hub_reach.induct)
  case init
  show ?case by (simp add: hub_init_def hub_inv_def)
qed (rule inv_hub_step)

text \<open>
  C19 (safety). A model name sent by a provider cannot make the gateway load from anywhere but the official
  hub: however requests, preloads, the threads of the pool and shutdowns interleave, the tokenizer
  library is asked only for names of one organisation and one repository, each of letters, digits,
  dots, underscores and hyphens without two dots in a row, and only with a trusted endpoint. What a
  request finds in the cache was loaded from such a candidate for its own model name.
\<close>

theorem hub_requests_confined:
  assumes "hub_reach he hb"
  shows "list_all (\<lambda>i. safe_repo_id i \<and> he_available he \<and> hf_endpoint_is_trusted (he_endpoint he)) (hb_requested hb)
    \<and> (case fst (load_hf_tokenizer he hint hb) of None \<Rightarrow> True | Some tok \<Rightarrow> loaded_for he hint tok)"
proof -
  note inv = inv_hub_reach [OF assms]
  have "loaded_for he hint tok" if "map_of (hb_cache hb) hint = Some tok" for tok
    using inv map_of_SomeD [OF that] by (auto simp: hub_inv_def)
  with inv show ?thesis by (auto simp: hub_inv_def list_all_iff load_hf_tokenizer_def split: option.split)
qed

definition demo_hub_env :: hub_env where
  "demo_hub_env = \<lparr>he_tok = no_tokenizers, he_available = True, he_endpoint = None,
     he_from_pretrained = (\<lambda>i. if i = ''Qwen/Qwen3-8B'' then Some (\<lambda>s. Some (length s)) else None)\<rparr>"

definition demo_queued :: hub where
  "demo_queued = snd (schedule_tokenizer_preload demo_hub_env ''qwen/qwen3-8b:free'' hub_init)"

definition demo_loaded :: hub where
  "demo_loaded = load_hf_tokenizer_blocking demo_hub_env 0 (set_phase 0 Running demo_queued)"

lemma demo_jobs: "hb_jobs demo_queued = [\<lparr>hj_hint = ''qwen/qwen3-8b:free'', hj_pool = 0, hj_phase = Queued\<rparr>]"
proof -
  have h: "py_strip ''qwen/qwen3-8b:free'' = ''qwen/qwen3-8b:free''" "candidate_hf_repo_ids ''qwen/qwen3-8b:free'' \<noteq> []"
    "hf_endpoint_is_trusted None" by code_simp+
  have "case resolve_tiktoken_encoding no_tokenizers None (Some ''qwen/qwen3-8b:free'') of None \<Rightarrow> True | Some enc \<Rightarrow> False"
    by code_simp
  with h show ?thesis
    by (simp add: demo_queued_def schedule_tokenizer_preload_def demo_hub_env_def hub_init_def has_key_def
        ensure_hf_tokenizer_executor_def Let_def split: option.splits)
qed

theorem hub_requests_confined_witness:
  "hb_requested demo_loaded = [''qwen/qwen3-8b'', ''Qwen/Qwen3-8B'']
   \<and> list_all (\<lambda>i. safe_repo_id i \<and> he_available demo_hub_env \<and> hf_endpoint_is_trusted (he_endpoint demo_hub_env))
       (hb_requested demo_loaded)
   \<and> fst (load_hf_tokenizer demo_hub_env ''qwen/qwen3-8b:free'' demo_loaded) \<noteq> None"
proof -
  have "hub_reach demo_hub_env demo_queued"
    unfolding demo_queued_def by (rule hub_reach.step [OF hub_reach.init hub_step.schedule])
  moreover have "hub_step demo_hub_env demo_queued (set_phase 0 Running demo_queued)"
    by (rule hub_step.start) (simp_all add: demo_jobs)
  moreover have "hub_step demo_hub_env (set_phase 0 Running demo_queued) demo_loaded"
    unfolding demo_loaded_def by (rule hub_step.load) (simp_all add: demo_jobs set_phase_def)
  ultimately have "hub_reach demo_hub_env demo_loaded" by (blast intro: hub_reach.step)
  from hub_requests_confined [OF this] have
    "list_all (\<lambda>i. safe_repo_id i \<and> he_available demo_hub_env \<and> hf_endpoint_is_trusted (he_endpoint demo_hub_env))
       (hb_requested demo_loaded)" by blast
  moreover have "hb_requested demo_loaded = [''qwen/qwen3-8b'', ''Qwen/Qwen3-8B'']" by code_simp
  moreover have "map fst (hb_cache demo_loaded) = [''qwen/qwen3-8b:free'']" by code_simp
  then have "map_of (hb_cache demo_loaded) ''qwen/qwen3-8b:free'' \<noteq> None" by (cases "hb_cache demo_loaded") auto
  then have "fst (load_hf_tokenizer demo_hub_env ''qwen/qwen3-8b:free'' demo_loaded) \<noteq> None"
    by (auto simp: load_hf_tokenizer_def demo_hub_env_def)
  ultimately show ?thesis by blast
qed

end
