(* ===== verification/FL_Review.thy ===== *)
theory FL_Review
  imports FL_Health
begin

text \<open>
  The review of the token estimates (\<open>get_token_estimation_review_summary\<close> of \<open>src/health.py\<close>):
  which tokenizer families and provider models overflow their context too often, which requests
  were saved by a model with a larger window, and how far the estimates are from the billed tokens.

  The columns present in \<open>request_log\<close> are an argument, as the code asks the database for them.
  A column declared \<open>INTEGER\<close> stores a text that reads as a number as that number; \<open>sql_number\<close> is
  this reading. Floats are exact rationals.
\<close>

section \<open>Expressions of the queries\<close>

definition sql_trim :: "string \<Rightarrow> string" where
  "sql_trim s = rev (dropWhile (\<lambda>c. c = CHR '' '') (rev (dropWhile (\<lambda>c. c = CHR '' '') s)))"

text \<open>\<open>NULLIF(TRIM(x), '')\<close>\<close>

definition trimmed :: "string option \<Rightarrow> string option" where
  "trimmed x = (case x of None \<Rightarrow> None | Some s \<Rightarrow> if sql_trim s = [] then None else Some (sql_trim s))"

text \<open>A row of the log joined with its model, if the model is still in the table.\<close>

type_synonym joined = "log_row \<times> model_row option"

definition joined_rows :: "tables \<Rightarrow> timestamp \<Rightarrow> joined list" where
  "joined_rows t since = map (\<lambda>l. (l, find_model t (l_selected_model_id l)))
     (filter (\<lambda>l. l_request_source l = ''client'' \<and> since \<le> l_timestamp l) (t_log t))"

definition tokenizer_expr :: "string list \<Rightarrow> joined \<Rightarrow> string" where
  "tokenizer_expr cols j = (case j of (l, m) \<Rightarrow>
     let model_family = trimmed (Option.bind m m_tokenizer_family) in
     case coalesce (if ''selected_tokenizer_family'' \<in> set cols then trimmed (l_selected_tokenizer_family l) else None)
            model_family of None \<Rightarrow> ''unknown'' | Some f \<Rightarrow> f)"

definition provider_model_expr :: "string list \<Rightarrow> joined \<Rightarrow> string" where
  "provider_model_expr cols j = (case j of (l, m) \<Rightarrow>
     let model_name = trimmed (map_option m_provider_model_id m) in
     case coalesce (if ''selected_provider_model_id'' \<in> set cols then trimmed (l_selected_provider_model_id l) else None)
            model_name of None \<Rightarrow> l_selected_model_id l | Some p \<Rightarrow> p)"

definition context_window_expr :: "string list \<Rightarrow> joined \<Rightarrow> int" where
  "context_window_expr cols j = (case j of (l, m) \<Rightarrow>
     case coalesce (if ''selected_context_window'' \<in> set cols then l_selected_context_window l else None)
            (Option.bind m m_context_window) of None \<Rightarrow> 0 | Some w \<Rightarrow> w)"

definition context_failure :: "joined \<Rightarrow> bool" where
  "context_failure j = (l_gateway_error_category (fst j) = Some ''CONTEXT_EXCEEDED'')"

definition tokenizer_family_label :: "string \<Rightarrow> string" where
  "tokenizer_family_label v = (if py_strip v = [] then ''unknown'' else py_strip v)"

definition provider_model_label :: "string \<Rightarrow> string option \<Rightarrow> string" where
  "provider_model_label provider_model_id selected_model_id =
    (if py_strip provider_model_id \<noteq> [] then py_strip provider_model_id
     else case selected_model_id of None \<Rightarrow> ''unknown''
       | Some s \<Rightarrow> if py_strip s \<noteq> [] then py_strip s else ''unknown'')"

section \<open>Thresholds\<close>

definition TOKEN_REVIEW_WINDOW_DAYS :: int where "TOKEN_REVIEW_WINDOW_DAYS = 7"
definition TOKEN_CONTEXT_FAILURE_MIN_COUNT :: int where "TOKEN_CONTEXT_FAILURE_MIN_COUNT = 5"
definition TOKEN_CONTEXT_FAILURE_RATE_THRESHOLD :: rat where "TOKEN_CONTEXT_FAILURE_RATE_THRESHOLD = 1 / 10"
definition TOKEN_MISMATCH_MIN_SAMPLES :: nat where "TOKEN_MISMATCH_MIN_SAMPLES = 20"
definition TOKEN_MISMATCH_MEDIAN_RATIO_THRESHOLD :: rat where "TOKEN_MISMATCH_MEDIAN_RATIO_THRESHOLD = 5 / 4"
definition TOKEN_FAILOVER_RECOVERY_MIN_COUNT :: nat where "TOKEN_FAILOVER_RECOVERY_MIN_COUNT = 3"

definition review_since_iso :: "timestamp \<Rightarrow> int \<Rightarrow> timestamp" where
  "review_since_iso now review_days = now - 86400 * max review_days 1"

section \<open>Overflows by family and by model\<close>

record context_entry =
  ce_provider_model_id :: "string option"
  ce_tokenizer_family :: string
  ce_total_requests :: int
  ce_context_exceeded_failures :: int
  ce_failure_rate :: rat
  ce_flagged :: bool

definition context_entry_of :: "string option \<Rightarrow> string \<Rightarrow> joined list \<Rightarrow> context_entry" where
  "context_entry_of model family rows =
    (let total_requests = count_if (\<lambda>j. True) rows;
         failures = count_if context_failure rows;
         rate = (if 0 < total_requests then of_int failures / of_int total_requests else 0)
     in \<lparr>ce_provider_model_id = model, ce_tokenizer_family = family, ce_total_requests = total_requests,
         ce_context_exceeded_failures = failures, ce_failure_rate = rate,
         ce_flagged = (TOKEN_CONTEXT_FAILURE_MIN_COUNT \<le> failures \<and> TOKEN_CONTEXT_FAILURE_RATE_THRESHOLD \<le> rate)\<rparr>)"

text \<open>\<open>ORDER BY context_exceeded_failures DESC, total_requests DESC, ...\<close>\<close>

definition by_failures :: "joined list \<Rightarrow> int \<times> int" where
  "by_failures rows = (- count_if context_failure rows, - count_if (\<lambda>j. True) rows)"

definition context_by_family :: "string list \<Rightarrow> joined list \<Rightarrow> context_entry list" where
  "context_by_family cols rows = map (\<lambda>(f, g). context_entry_of None (tokenizer_family_label f) g)
     (sort_key (\<lambda>(f, g). (by_failures g, f)) (group_by (tokenizer_expr cols) rows))"

definition context_by_model :: "string list \<Rightarrow> joined list \<Rightarrow> context_entry list" where
  "context_by_model cols rows = map (\<lambda>((p, f), g).
       context_entry_of (Some (provider_model_label p None)) (tokenizer_family_label f) g)
     (sort_key (\<lambda>((p, f), g). (by_failures g, p)) (group_by (\<lambda>j. (provider_model_expr cols j, tokenizer_expr cols j)) rows))"

section \<open>Requests saved by a larger window\<close>

text \<open>\<open>_flush_request\<close>: the labels of the failed rows a later success with a larger window made good.\<close>

definition recovered_rows :: "string list \<Rightarrow> joined list \<Rightarrow> joined list" where
  "recovered_rows cols rows = filter (\<lambda>failed.
     \<not> l_success (fst failed) \<and> context_failure failed
     \<and> list_ex (\<lambda>ok. l_success (fst ok) \<and> l_attempt_index (fst failed) < l_attempt_index (fst ok)
          \<and> context_window_expr cols failed < context_window_expr cols ok) rows) rows"

definition recovered_families :: "string list \<Rightarrow> joined list \<Rightarrow> string list" where
  "recovered_families cols rows =
     remdups (map (\<lambda>j. tokenizer_family_label (tokenizer_expr cols j)) (recovered_rows cols rows))"

definition recovered_models :: "string list \<Rightarrow> joined list \<Rightarrow> (string \<times> string) list" where
  "recovered_models cols rows = remdups (map (\<lambda>j.
     (provider_model_label (provider_model_expr cols j) (Some (l_selected_model_id (fst j))),
      tokenizer_family_label (tokenizer_expr cols j))) (recovered_rows cols rows))"

definition requests_of :: "joined list \<Rightarrow> joined list list" where
  "requests_of rows = map snd (group_by (\<lambda>j. case l_request_id (fst j) of None \<Rightarrow> [] | Some r \<Rightarrow> r)
     (filter (\<lambda>j. l_request_id (fst j) \<noteq> None) rows))"

text \<open>The counts of a \<open>defaultdict\<close>, sorted by count, the larger first, then by key.\<close>

definition counted :: "('k::linorder) list \<Rightarrow> ('k \<times> nat) list" where
  "counted ks = sort_key (\<lambda>(k, n). (- int n, k)) (map (\<lambda>(k, g). (k, length g)) (group_by id ks))"

record failover_entry =
  fe_provider_model_id :: "string option"
  fe_tokenizer_family :: string
  fe_recovered_requests :: nat
  fe_flagged :: bool

definition failover_by_family :: "string list \<Rightarrow> joined list \<Rightarrow> failover_entry list" where
  "failover_by_family cols rows = map (\<lambda>(f, n). \<lparr>fe_provider_model_id = None, fe_tokenizer_family = f,
       fe_recovered_requests = n, fe_flagged = (TOKEN_FAILOVER_RECOVERY_MIN_COUNT \<le> n)\<rparr>)
     (counted (concat (map (recovered_families cols) (requests_of rows))))"

definition failover_by_model :: "string list \<Rightarrow> joined list \<Rightarrow> failover_entry list" where
  "failover_by_model cols rows = map (\<lambda>((p, f), n). \<lparr>fe_provider_model_id = Some p, fe_tokenizer_family = f,
       fe_recovered_requests = n, fe_flagged = (TOKEN_FAILOVER_RECOVERY_MIN_COUNT \<le> n)\<rparr>)
     (counted (concat (map (recovered_models cols) (requests_of rows))))"

definition recovered_request_ids :: "string list \<Rightarrow> joined list \<Rightarrow> nat" where
  "recovered_request_ids cols rows = length (filter (\<lambda>r. recovered_rows cols r \<noteq> []) (requests_of rows))"

section \<open>Estimates against billed tokens\<close>

definition median :: "rat list \<Rightarrow> rat" where
  "median xs = (let s = sort xs; n = length s in
     if n = 0 then 0 else if odd n then s ! (n div 2) else (s ! (n div 2 - 1) + s ! (n div 2)) / 2)"

record mismatch_entry =
  me_tokenizer_family :: string
  me_sample_count :: nat
  me_median_ratio :: rat
  me_flagged :: bool

text \<open>\<open>int(row["prompt_tokens"] or 0)\<close> of a cell of an integer column.\<close>

definition stored_int :: "(string \<Rightarrow> rat option) \<Rightarrow> json \<Rightarrow> py_error + int" where
  "stored_int sql_number cell = py_int_of (py_or
     (case cell of JStr s \<Rightarrow> (case sql_number s of None \<Rightarrow> JStr s | Some r \<Rightarrow> JFloat r) | v \<Rightarrow> v) (JInt 0))"

fun ratios :: "(string \<Rightarrow> rat option) \<Rightarrow> string list \<Rightarrow> joined list \<Rightarrow> py_error + (string \<times> rat) list" where
  "ratios sql_number cols [] = Inr []"
| "ratios sql_number cols (j # js) =
    (case l_estimated_prompt_tokens (fst j) of
       None \<Rightarrow> ratios sql_number cols js
     | Some estimated \<Rightarrow>
         if estimated \<le> 0 \<or> l_prompt_tokens (fst j) = JNull then ratios sql_number cols js
         else sbind (stored_int sql_number (l_prompt_tokens (fst j))) (\<lambda>prompt_tokens.
              sbind (ratios sql_number cols js) (\<lambda>rest.
              Inr ((tokenizer_family_label (tokenizer_expr cols j), of_int prompt_tokens / of_int estimated) # rest))))"

definition mismatch_entries :: "(string \<times> rat) list \<Rightarrow> mismatch_entry list" where
  "mismatch_entries rs = map (\<lambda>(f, g). let m = median (map snd g) in
       \<lparr>me_tokenizer_family = f, me_sample_count = length g, me_median_ratio = m,
        me_flagged = (TOKEN_MISMATCH_MIN_SAMPLES \<le> length g \<and> TOKEN_MISMATCH_MEDIAN_RATIO_THRESHOLD \<le> m)\<rparr>)
     (sort_key (\<lambda>(f, g). (- int (length g), f)) (group_by fst rs))"

section \<open>The review\<close>

text \<open>Labels with their reasons, both sorted.\<close>

definition review_flags :: "(string \<times> string) list \<Rightarrow> (string \<times> string list) list" where
  "review_flags fs = map (\<lambda>(label, g). (label, sort (remdups (map snd g)))) (group_by fst fs)"

record token_review =
  tr_review_window_days :: int
  tr_since :: timestamp
  tr_by_family :: "context_entry list"
  tr_by_model :: "context_entry list"
  tr_recovered_requests :: nat
  tr_failover_by_family :: "failover_entry list"
  tr_failover_by_model :: "failover_entry list"
  tr_mismatch_available :: bool
  tr_mismatch :: "mismatch_entry list"
  tr_flagged_families :: "(string \<times> string list) list"
  tr_flagged_models :: "(string \<times> string list) list"

definition get_token_estimation_review_summary ::
  "(string \<Rightarrow> rat option) \<Rightarrow> string list \<Rightarrow> tables \<Rightarrow> timestamp \<Rightarrow> int \<Rightarrow> py_error + token_review" where
  "get_token_estimation_review_summary sql_number cols t now review_days =
    (let since = review_since_iso now review_days;
         rows = joined_rows t since;
         available = (''estimated_prompt_tokens'' \<in> set cols);
         families = context_by_family cols rows;
         models = context_by_model cols rows;
         saved_families = failover_by_family cols rows;
         saved_models = failover_by_model cols rows;
         text_of = (\<lambda>p. case p of None \<Rightarrow> [] | Some s \<Rightarrow> s)
     in sbind (if available then ratios sql_number cols rows else Inr []) (\<lambda>rs.
     let mismatches = mismatch_entries rs in
     Inr \<lparr>tr_review_window_days = max review_days 1, tr_since = since,
          tr_by_family = families, tr_by_model = models,
          tr_recovered_requests = recovered_request_ids cols rows,
          tr_failover_by_family = saved_families, tr_failover_by_model = saved_models,
          tr_mismatch_available = available, tr_mismatch = mismatches,
          tr_flagged_families = review_flags
            (map (\<lambda>e. (ce_tokenizer_family e, ''context_exceeded_rate'')) (filter ce_flagged families)
             @ map (\<lambda>e. (fe_tokenizer_family e, ''context_failover_recoveries'')) (filter fe_flagged saved_families)
             @ map (\<lambda>e. (me_tokenizer_family e, ''prompt_token_median_ratio'')) (filter me_flagged mismatches)),
          tr_flagged_models = review_flags
            (map (\<lambda>e. (text_of (ce_provider_model_id e), ''context_exceeded_rate'')) (filter ce_flagged models)
             @ map (\<lambda>e. (text_of (fe_provider_model_id e), ''context_failover_recoveries''))
                 (filter fe_flagged saved_models))\<rparr>))"

section \<open>What the review guarantees\<close>

lemma sum_list_sort_key [simp]: "sum_list (map f (sort_key k xs)) = (sum_list (map f xs) :: int)"
proof -
  have "sum_list (map f ys) = sum_mset (image_mset f (mset ys))" for ys by (metis mset_map sum_mset_sum_list)
  then show ?thesis by (metis mset_sort)
qed

lemma context_entry_counts [simp]:
  "ce_total_requests (context_entry_of m f g) = count_if (\<lambda>j. True) g"
  "ce_context_exceeded_failures (context_entry_of m f g) = count_if context_failure g"
  by (simp_all add: context_entry_of_def Let_def)

lemma entry_sums:
  "sum_list (map (\<lambda>x. count_if p (snd x)) (sort_key h (group_by key rows))) = count_if p rows"
  using group_by_counts [of p key rows] by (simp add: case_prod_unfold)

lemma family_sums:
  "sum_list (map ce_total_requests (context_by_family cols rows)) = count_if (\<lambda>j. True) rows"
  "sum_list (map ce_context_exceeded_failures (context_by_family cols rows)) = count_if context_failure rows"
  using entry_sums [where key = "tokenizer_expr cols"]
  by (simp_all add: context_by_family_def comp_def case_prod_unfold del: sum_list_sort_key)

lemma model_sums:
  "sum_list (map ce_total_requests (context_by_model cols rows)) = count_if (\<lambda>j. True) rows"
  "sum_list (map ce_context_exceeded_failures (context_by_model cols rows)) = count_if context_failure rows"
  using entry_sums [where key = "\<lambda>j. (provider_model_expr cols j, tokenizer_expr cols j)"]
  by (simp_all add: context_by_model_def comp_def case_prod_unfold del: sum_list_sort_key)

lemma flagged_iff:
  "e \<in> set (context_by_family cols rows) \<union> set (context_by_model cols rows) \<Longrightarrow>
   ce_flagged e \<longleftrightarrow> 5 \<le> ce_context_exceeded_failures e \<and> ce_total_requests e \<le> 10 * ce_context_exceeded_failures e"
proof -
  assume "e \<in> set (context_by_family cols rows) \<union> set (context_by_model cols rows)"
  then obtain m f g where e: "e = context_entry_of m f g" by (auto simp: context_by_family_def context_by_model_def)
  let ?n = "count_if (\<lambda>j. True) g" and ?k = "count_if context_failure g"
  have le: "?k \<le> ?n" by (rule count_if_mono) simp
  have "1 / 10 \<le> (of_int ?k / of_int ?n :: rat) \<longleftrightarrow> ?n \<le> 10 * ?k" if "0 < ?n"
  proof -
    have "1 / 10 \<le> (of_int ?k / of_int ?n :: rat) \<longleftrightarrow> (of_int ?n :: rat) \<le> of_int (10 * ?k)"
      using that by (simp add: field_simps)
    then show ?thesis by (simp only: of_int_le_iff)
  qed
  with le show ?thesis
    by (auto simp: e context_entry_of_def Let_def TOKEN_CONTEXT_FAILURE_MIN_COUNT_def TOKEN_CONTEXT_FAILURE_RATE_THRESHOLD_def)
qed

text \<open>A request is counted once, and only when a row of it is a failure that was made good.\<close>

lemma recovered_bound: "recovered_request_ids cols rows \<le> length (requests_of rows)"
  by (simp add: recovered_request_ids_def)

text \<open>
  C25 (functional). The review is consistent: the totals of its families and of its models each add up to
  the client requests of the window, their overflows to the context failures of the window, and an
  entry is flagged exactly with at least five overflows that are a tenth or more of its requests.
\<close>

theorem review_counts_client_requests:
  assumes "get_token_estimation_review_summary sql_number cols t now days = Inr r"
  defines "rows \<equiv> joined_rows t (now - 86400 * max days 1)"
  shows "sum_list (map ce_total_requests (tr_by_family r)) = count_if (\<lambda>j. True) rows
    \<and> sum_list (map ce_total_requests (tr_by_model r)) = count_if (\<lambda>j. True) rows
    \<and> sum_list (map ce_context_exceeded_failures (tr_by_family r)) = count_if context_failure rows
    \<and> sum_list (map ce_context_exceeded_failures (tr_by_model r)) = count_if context_failure rows
    \<and> list_all (\<lambda>e. ce_flagged e \<longleftrightarrow> 5 \<le> ce_context_exceeded_failures e
         \<and> ce_total_requests e \<le> 10 * ce_context_exceeded_failures e) (tr_by_family r @ tr_by_model r)
    \<and> tr_recovered_requests r \<le> length (requests_of rows)"
proof -
  from assms(1) have "tr_by_family r = context_by_family cols rows" "tr_by_model r = context_by_model cols rows"
    "tr_recovered_requests r = recovered_request_ids cols rows"
    by (auto simp: get_token_estimation_review_summary_def Let_def sbind_Inr review_since_iso_def rows_def)
  then show ?thesis
    using flagged_iff [of _ cols rows] by (simp add: family_sums model_sums recovered_bound list_all_iff Ball_def)
qed

definition reviewed_log :: "string option \<Rightarrow> json \<Rightarrow> int \<Rightarrow> bool \<Rightarrow> log_row" where
  "reviewed_log category billed attempt ok =
     \<lparr>l_request_id = Some ''r'', l_timestamp = 100, l_request_source = ''client'', l_selected_model_id = ''m1'',
      l_provider_id = ''openrouter'', l_selected_provider_model_id = None, l_selected_tokenizer_family = Some ''qwen'',
      l_client_requested_model = JStr ''auto'', l_attempt_index = attempt, l_was_fallback = False,
      l_estimated_prompt_tokens = Some 10, l_selected_context_window = None, l_prompt_tokens = billed,
      l_completion_tokens = JNull, l_total_tokens = JNull, l_latency_ms = None, l_ttfb_ms = None, l_success = ok,
      l_gateway_error_category = category, l_error_code = None, l_error_message = None, l_was_streaming = False,
      l_had_tools = False, l_had_vision = False\<rparr>"

definition review_columns :: "string list" where
  "review_columns = [''selected_tokenizer_family'', ''selected_provider_model_id'', ''selected_context_window'',
     ''estimated_prompt_tokens'']"

theorem review_counts_client_requests_witness:
  "\<exists>r. get_token_estimation_review_summary (\<lambda>s. None) review_columns
       (healthy_tables\<lparr>t_log := [reviewed_log (Some ''CONTEXT_EXCEEDED'') JNull 0 False, reviewed_log None (JInt 20) 1 True]\<rparr>)
       200 7 = Inr r
     \<and> sum_list (map ce_total_requests (tr_by_family r)) = 2
     \<and> sum_list (map ce_context_exceeded_failures (tr_by_model r)) = 1"
proof -
  let ?t = "healthy_tables\<lparr>t_log := [reviewed_log (Some ''CONTEXT_EXCEEDED'') JNull 0 False,
    reviewed_log None (JInt 20) 1 True]\<rparr>"
  have "case get_token_estimation_review_summary (\<lambda>s. None) review_columns ?t 200 7 of Inr r \<Rightarrow> True | Inl e \<Rightarrow> False"
    by code_simp
  then obtain r where r: "get_token_estimation_review_summary (\<lambda>s. None) review_columns ?t 200 7 = Inr r"
    by (auto split: sum.splits)
  have "count_if (\<lambda>j. True) (joined_rows ?t (200 - 86400 * max 7 1)) = 2"
    "count_if context_failure (joined_rows ?t (200 - 86400 * max 7 1)) = 1" by code_simp+
  with review_counts_client_requests [OF r] r show ?thesis by simp
qed

lemma ratios_fail_iff:
  "(\<exists>e. ratios sql_number cols js = Inl e) \<longleftrightarrow>
   (\<exists>j \<in> set js. (\<exists>n > 0. l_estimated_prompt_tokens (fst j) = Some n) \<and> l_prompt_tokens (fst j) \<noteq> JNull
      \<and> (\<exists>e. stored_int sql_number (l_prompt_tokens (fst j)) = Inl e))"
proof (induction js)
  case (Cons j js)
  let ?bad = "\<lambda>j. (\<exists>n > 0. l_estimated_prompt_tokens (fst j) = Some n) \<and> l_prompt_tokens (fst j) \<noteq> JNull
      \<and> (\<exists>e. stored_int sql_number (l_prompt_tokens (fst j)) = Inl e)"
  show ?case
  proof (cases "l_estimated_prompt_tokens (fst j)")
    case None
    with Cons.IH show ?thesis by simp
  next
    case (Some n)
    show ?thesis
    proof (cases "n \<le> 0 \<or> l_prompt_tokens (fst j) = JNull")
      case True
      with Some Cons.IH show ?thesis by auto
    next
      case False
      with Some Cons.IH show ?thesis
        by (cases "stored_int sql_number (l_prompt_tokens (fst j))"; cases "ratios sql_number cols js") auto
    qed
  qed
qed simp

text \<open>
  When the review, and with it the health page, fails: exactly when a client request of the
  window with a positive estimate was billed a number of tokens the provider reported as something
  that is not a number. The row stays in the window for a week.
\<close>

theorem review_fails_iff:
  "(\<exists>e. get_token_estimation_review_summary sql_number cols t now days = Inl e) \<longleftrightarrow>
   ''estimated_prompt_tokens'' \<in> set cols
   \<and> (\<exists>j \<in> set (joined_rows t (now - 86400 * max days 1)).
        (\<exists>n > 0. l_estimated_prompt_tokens (fst j) = Some n) \<and> l_prompt_tokens (fst j) \<noteq> JNull
        \<and> (\<exists>e. stored_int sql_number (l_prompt_tokens (fst j)) = Inl e))"
proof -
  let ?rows = "joined_rows t (now - 86400 * max days 1)"
  have "(\<exists>e. get_token_estimation_review_summary sql_number cols t now days = Inl e) \<longleftrightarrow>
     ''estimated_prompt_tokens'' \<in> set cols \<and> (\<exists>e. ratios sql_number cols ?rows = Inl e)"
    by (cases "ratios sql_number cols ?rows")
      (simp_all add: get_token_estimation_review_summary_def Let_def review_since_iso_def)
  then show ?thesis by (simp only: ratios_fail_iff)
qed

lemma reported_text_breaks_review:
  "\<exists>e. get_token_estimation_review_summary (\<lambda>s. None) review_columns
     (healthy_tables\<lparr>t_log := [reviewed_log None (JStr ''n/a'') 0 True]\<rparr>) 200 7 = Inl e"
proof -
  have "case get_token_estimation_review_summary (\<lambda>s. None) review_columns
     (healthy_tables\<lparr>t_log := [reviewed_log None (JStr ''n/a'') 0 True]\<rparr>) 200 7 of Inl e \<Rightarrow> True | Inr r \<Rightarrow> False"
    by code_simp
  then show ?thesis by (auto split: sum.splits)
qed

end
