(* ===== verification/FL_RuntimeLog.thy ===== *)
theory FL_RuntimeLog
  imports FL_Config
begin

text \<open>
  The runtime logger (\<open>src/runtime_logging.py\<close>): a bounded queue between the code that logs and the
  listener thread that writes, with a verbosity and a counter of dropped records. A record is its
  level, verbosity and text. What reached the stream is a list, in the order of writing; the lines
  of the listener and the direct lines of the fallback handler go to the same stream. The methods
  hold the lock of the manager, so each is one step; the listener takes one record per step.
\<close>

definition WARNING :: int where "WARNING = 30"

definition RUNTIME_VERBOSITY_ORDER :: "(string, int) dict" where
  "RUNTIME_VERBOSITY_ORDER = [(''concise'', 0), (''verbose'', 1), (''debug'', 2)]"

definition normalize_runtime_verbosity :: "(json \<Rightarrow> string) \<Rightarrow> json \<Rightarrow> string" where
  "normalize_runtime_verbosity py_repr v =
    (let normalized = py_lower (py_strip (py_str py_repr (py_or v (JStr []))))
     in if has_key RUNTIME_VERBOSITY_ORDER normalized then normalized else ''concise'')"

record log_record =
  lr_level :: int
  lr_verbosity :: string
  lr_text :: string

record log_manager =
  lm_queue :: "log_record list option"
  lm_enabled :: bool
  lm_verbosity :: string
  lm_queue_size :: int
  lm_dropped_records :: nat
  lm_written :: "log_record list"

definition manager_init :: log_manager where
  "manager_init = \<lparr>lm_queue = None, lm_enabled = False, lm_verbosity = ''concise'', lm_queue_size = 1000,
     lm_dropped_records = 0, lm_written = []\<rparr>"

text \<open>
  \<open>_stop_locked\<close>: the end marker is queued, taking out the oldest record first when the queue is full,
  and the listener writes what is in front of it before it ends.
\<close>

definition stop_locked :: "log_manager \<Rightarrow> log_manager" where
  "stop_locked lm = (case lm_queue lm of
       None \<Rightarrow> lm
     | Some q \<Rightarrow> lm\<lparr>lm_queue := None,
         lm_written := lm_written lm @ (if lm_queue_size lm \<le> int (length q) then tl q else q)\<rparr>)"

definition configure_logger :: "(json \<Rightarrow> string) \<Rightarrow> bool \<Rightarrow> json \<Rightarrow> int \<Rightarrow> log_manager \<Rightarrow> log_manager" where
  "configure_logger py_repr enabled verbosity queue_size lm =
    (let stopped = stop_locked lm in
     stopped\<lparr>lm_enabled := enabled, lm_verbosity := normalize_runtime_verbosity py_repr verbosity,
       lm_queue_size := max queue_size 1, lm_dropped_records := 0, lm_queue := (if enabled then Some [] else None)\<rparr>)"

definition logger_stop :: "log_manager \<Rightarrow> log_manager" where
  "logger_stop lm = (stop_locked lm)\<lparr>lm_enabled := False\<rparr>"

definition should_emit :: "(json \<Rightarrow> string) \<Rightarrow> json \<Rightarrow> int \<Rightarrow> log_manager \<Rightarrow> bool" where
  "should_emit py_repr verbosity level lm =
    (lm_enabled lm
     \<and> (WARNING \<le> level
        \<or> dict_get RUNTIME_VERBOSITY_ORDER (normalize_runtime_verbosity py_repr verbosity) 0
            \<le> dict_get RUNTIME_VERBOSITY_ORDER (lm_verbosity lm) 0))"

text \<open>The fallback handler exists as long as the queue does.\<close>

definition handle_overflow_record :: "log_record \<Rightarrow> log_manager \<Rightarrow> log_manager" where
  "handle_overflow_record r lm =
    (let counted = lm\<lparr>lm_dropped_records := lm_dropped_records lm + 1\<rparr> in
     if lr_level r < WARNING then counted
     else if lm_queue lm = None then counted
     else counted\<lparr>lm_written := lm_written lm @ [r]\<rparr>)"

definition enqueue_record :: "log_record \<Rightarrow> log_manager \<Rightarrow> log_manager" where
  "enqueue_record r lm = (case lm_queue lm of
       None \<Rightarrow> lm
     | Some q \<Rightarrow> if int (length q) < lm_queue_size lm then lm\<lparr>lm_queue := Some (q @ [r])\<rparr> else handle_overflow_record r lm)"

definition runtime_log :: "(json \<Rightarrow> string) \<Rightarrow> json \<Rightarrow> int \<Rightarrow> string \<Rightarrow> log_manager \<Rightarrow> log_manager" where
  "runtime_log py_repr verbosity level text lm =
    (if \<not> should_emit py_repr verbosity level lm then lm
     else enqueue_record \<lparr>lr_level = level, lr_verbosity = normalize_runtime_verbosity py_repr verbosity, lr_text = text\<rparr> lm)"

text \<open>One step of the listener thread.\<close>

definition listener_step :: "log_manager \<Rightarrow> log_manager" where
  "listener_step lm = (case lm_queue lm of
       Some (r # q) \<Rightarrow> lm\<lparr>lm_queue := Some q, lm_written := lm_written lm @ [r]\<rparr>
     | _ \<Rightarrow> lm)"

record logging_status =
  lg_enabled :: bool
  lg_verbosity :: string
  lg_queue_size :: int
  lg_queue_depth :: nat
  lg_dropped_records :: nat

definition logger_status :: "log_manager \<Rightarrow> logging_status" where
  "logger_status lm = \<lparr>lg_enabled = lm_enabled lm, lg_verbosity = lm_verbosity lm, lg_queue_size = lm_queue_size lm,
     lg_queue_depth = (case lm_queue lm of None \<Rightarrow> 0 | Some q \<Rightarrow> length q), lg_dropped_records = lm_dropped_records lm\<rparr>"

definition get_logger_name :: "string \<Rightarrow> string" where
  "get_logger_name name = (let normalized = (if py_strip name = [] then ''app'' else py_strip name) in
     if py_startswith normalized ''freelunch'' then normalized
     else ''freelunch.'' @ (if py_startswith normalized ''src.'' then drop 4 normalized else normalized))"

section \<open>Nothing important is lost while the logger runs\<close>

datatype log_event = Emit json int string | ListenerStep

fun log_step :: "(json \<Rightarrow> string) \<Rightarrow> log_event \<Rightarrow> log_manager \<Rightarrow> log_manager" where
  "log_step py_repr (Emit v l t) lm = runtime_log py_repr v l t lm"
| "log_step py_repr ListenerStep lm = listener_step lm"

definition logger_inv :: "log_manager \<Rightarrow> bool" where
  "logger_inv lm = (1 \<le> lm_queue_size lm \<and> has_key RUNTIME_VERBOSITY_ORDER (lm_verbosity lm)
     \<and> (lm_enabled lm \<longleftrightarrow> lm_queue lm \<noteq> None)
     \<and> (case lm_queue lm of None \<Rightarrow> True | Some q \<Rightarrow> int (length q) \<le> lm_queue_size lm))"

text \<open>The records on their way or written.\<close>

definition accounted :: "log_manager \<Rightarrow> log_record list" where
  "accounted lm = lm_written lm @ (case lm_queue lm of None \<Rightarrow> [] | Some q \<Rightarrow> q)"

definition emitted :: "(json \<Rightarrow> string) \<Rightarrow> log_manager \<Rightarrow> log_event \<Rightarrow> log_record list" where
  "emitted py_repr lm e = (case e of
       Emit v l t \<Rightarrow> if should_emit py_repr v l lm
         then [\<lparr>lr_level = l, lr_verbosity = normalize_runtime_verbosity py_repr v, lr_text = t\<rparr>] else []
     | ListenerStep \<Rightarrow> [])"

lemma logger_inv_configure: "logger_inv (configure_logger py_repr e v n lm)"
  by (simp add: logger_inv_def configure_logger_def Let_def stop_locked_def normalize_runtime_verbosity_def
      RUNTIME_VERBOSITY_ORDER_def has_key_def max_def split: option.split)

lemma logger_step_keeps:
  assumes "logger_inv lm" and "lm_enabled lm"
  shows "logger_inv (log_step py_repr e lm) \<and> lm_enabled (log_step py_repr e lm)
    \<and> lm_verbosity (log_step py_repr e lm) = lm_verbosity lm"
  using assms
  by (cases e) (auto simp: runtime_log_def enqueue_record_def handle_overflow_record_def listener_step_def logger_inv_def Let_def
      split: option.splits list.splits)

lemma logger_step_accounts:
  assumes "logger_inv lm" and "lm_enabled lm"
  shows "mset (accounted (log_step py_repr e lm)) \<subseteq># mset (accounted lm) + mset (emitted py_repr lm e)
    \<and> length (accounted (log_step py_repr e lm)) + lm_dropped_records (log_step py_repr e lm)
        \<ge> length (accounted lm) + lm_dropped_records lm + length (emitted py_repr lm e)
    \<and> mset (filter (\<lambda>r. WARNING \<le> lr_level r) (accounted (log_step py_repr e lm)))
        = mset (filter (\<lambda>r. WARNING \<le> lr_level r) (accounted lm @ emitted py_repr lm e))"
  using assms
  by (cases e) (auto simp: runtime_log_def enqueue_record_def handle_overflow_record_def listener_step_def logger_inv_def Let_def
      accounted_def emitted_def split: option.splits list.splits)

fun run_log :: "(json \<Rightarrow> string) \<Rightarrow> log_event list \<Rightarrow> log_manager \<Rightarrow> log_manager" where
  "run_log py_repr [] lm = lm"
| "run_log py_repr (e # es) lm = run_log py_repr es (log_step py_repr e lm)"

text \<open>The warnings among the events: they pass every verbosity.\<close>

definition warnings_of :: "(json \<Rightarrow> string) \<Rightarrow> log_event list \<Rightarrow> log_record list" where
  "warnings_of py_repr es = concat (map (\<lambda>e. case e of
     Emit v l t \<Rightarrow> if WARNING \<le> l then [\<lparr>lr_level = l, lr_verbosity = normalize_runtime_verbosity py_repr v, lr_text = t\<rparr>] else []
   | ListenerStep \<Rightarrow> []) es)"

lemma emitted_warnings:
  "lm_enabled lm \<Longrightarrow> filter (\<lambda>r. WARNING \<le> lr_level r) (emitted py_repr lm e) = warnings_of py_repr [e]"
  by (cases e) (auto simp: emitted_def warnings_of_def should_emit_def)

text \<open>
  C26 (safety). While the logger is enabled its queue never exceeds the configured size, and no warning or
  error is lost: however the logging code and the listener interleave, every record of level
  \<open>WARNING\<close> or above is written, once, or waits in the queue; only records below may be dropped.
\<close>

theorem warnings_never_dropped:
  assumes "logger_inv lm" and "lm_enabled lm"
  shows "logger_inv (run_log py_repr es lm)
    \<and> mset (filter (\<lambda>r. WARNING \<le> lr_level r) (accounted (run_log py_repr es lm)))
      = mset (filter (\<lambda>r. WARNING \<le> lr_level r) (accounted lm)) + mset (warnings_of py_repr es)"
  using assms
proof (induction es arbitrary: lm)
  case Nil
  then show ?case by (simp add: warnings_of_def)
next
  case (Cons e es)
  let ?lm = "log_step py_repr e lm"
  from logger_step_keeps [OF Cons.prems, of py_repr e] have "logger_inv ?lm" "lm_enabled ?lm" by simp_all
  note IH = Cons.IH [OF this]
  have "mset (filter (\<lambda>r. WARNING \<le> lr_level r) (accounted ?lm))
      = mset (filter (\<lambda>r. WARNING \<le> lr_level r) (accounted lm)) + mset (warnings_of py_repr [e])"
    using logger_step_accounts [OF Cons.prems, of py_repr e] Cons.prems(2) by (simp add: emitted_warnings)
  with IH show ?case by (simp add: warnings_of_def)
qed

theorem warnings_never_dropped_witness:
  "mset (filter (\<lambda>r. WARNING \<le> lr_level r) (accounted (run_log (\<lambda>v. [])
      [Emit (JStr ''concise'') 20 ''a'', Emit (JStr ''debug'') 40 ''b'', ListenerStep, Emit JNull 30 ''c'']
      (configure_logger (\<lambda>v. []) True (JStr ''verbose'') 1 manager_init))))
   = {#\<lparr>lr_level = 40, lr_verbosity = ''debug'', lr_text = ''b''\<rparr>, \<lparr>lr_level = 30, lr_verbosity = ''concise'', lr_text = ''c''\<rparr>#}"
proof -
  let ?lm = "configure_logger (\<lambda>v. []) True (JStr ''verbose'') 1 manager_init"
  have "lm_enabled ?lm" "accounted ?lm = []"
    by (simp_all add: configure_logger_def Let_def accounted_def manager_init_def stop_locked_def)
  moreover have "warnings_of (\<lambda>v. [])
      [Emit (JStr ''concise'') 20 ''a'', Emit (JStr ''debug'') 40 ''b'', ListenerStep, Emit JNull 30 ''c'']
    = [\<lparr>lr_level = 40, lr_verbosity = ''debug'', lr_text = ''b''\<rparr>, \<lparr>lr_level = 30, lr_verbosity = ''concise'', lr_text = ''c''\<rparr>]"
    by code_simp
  ultimately show ?thesis
    using warnings_never_dropped [OF logger_inv_configure, of "\<lambda>v. []" True "JStr ''verbose''" 1 manager_init "\<lambda>v. []"
        "[Emit (JStr ''concise'') 20 ''a'', Emit (JStr ''debug'') 40 ''b'', ListenerStep, Emit JNull 30 ''c'']"] by simp
qed

end
