(* ===== verification/FL_Admin.thy ===== *)
theory FL_Admin
  imports FL_Lifecycle FL_Proxy FL_Review FL_RuntimeLog
begin

text \<open>
  The administration endpoints of \<open>src/proxy.py\<close> and the views they return. A handler is an action
  on the application state; a JSON object with fixed keys is a record. Every handler starts with the
  check of the gateway credential, and every change is a statement, a flush and then a reload or a
  recomputation of readiness, in the order of the code.

  The body of a request is a JSON object, decoded by the framework, which also answers bodies of
  another type. Paths are given decoded.
\<close>

record admin_env =
  an_world :: world
  an_started_at :: string
  an_logger :: log_manager
  an_sql_number :: "string \<Rightarrow> rat option"

record admin_request =
  rq_host :: "string option"
  rq_authorization :: "string option"

definition auth_env_of :: "world \<Rightarrow> app_state \<Rightarrow> auth_env" where
  "auth_env_of w a = \<lparr>ae_crypto = wd_crypto w, ae_digest = wd_digest w, ae_settings = st_settings a,
     ae_state = st_gateway_auth a\<rparr>"

definition with_throttles :: "(auth_env \<Rightarrow> throttles \<Rightarrow> (raised + unit) \<times> throttles) \<Rightarrow> world \<Rightarrow> unit action" where
  "with_throttles check w a = (case check (auth_env_of w a) (st_throttles a) of
       (Inl e, ths) \<Rightarrow> Raised e (a\<lparr>st_throttles := ths\<rparr>)
     | (Inr u, ths) \<Rightarrow> Returned () (a\<lparr>st_throttles := ths\<rparr>))"

definition admin_check :: "world \<Rightarrow> admin_request \<Rightarrow> unit action" where
  "admin_check w rq = with_throttles (\<lambda>ae. check_gateway_auth ae (wd_clock w) (rq_host rq) (rq_authorization rq)) w"

definition require :: "bool \<Rightarrow> int \<Rightarrow> string \<Rightarrow> unit action" where
  "require ok status detail = (if ok then act_return () else act_raise (Http status detail None))"

definition act_get :: "(app_state \<Rightarrow> 'a) \<Rightarrow> 'a action" where
  "act_get f a = Returned (f a) a"

section \<open>Views\<close>

record model_view =
  mv_id :: model_id
  mv_name :: string
  mv_provider_id :: provider_id
  mv_provider_model_id :: string
  mv_composite_score :: rat
  mv_provider_rank :: "int option"
  mv_is_healthy :: bool
  mv_is_active :: bool
  mv_supports_tools :: bool
  mv_supports_streaming :: bool
  mv_supports_vision :: bool
  mv_supports_structured_output :: bool
  mv_supports_system_messages :: bool
  mv_context_window :: "int option"
  mv_max_output_tokens :: "int option"
  mv_tokenizer_family :: "string option"
  mv_avg_latency_ms :: "rat option"
  mv_avg_ttfb_ms :: "rat option"
  mv_last_error :: "string option"
  mv_last_success_at :: "timestamp option"
  mv_last_failure_at :: "timestamp option"
  mv_last_routed_at :: "timestamp option"
  mv_cooldown_until :: "timestamp option"

definition serialize_model_row :: "model_row \<Rightarrow> model_view" where
  "serialize_model_row m =
     \<lparr>mv_id = m_id m, mv_name = m_name m, mv_provider_id = m_provider_id m,
      mv_provider_model_id = m_provider_model_id m, mv_composite_score = m_composite_score m,
      mv_provider_rank = m_provider_rank m, mv_is_healthy = m_is_healthy m, mv_is_active = m_is_active m,
      mv_supports_tools = m_supports_tools m, mv_supports_streaming = m_supports_streaming m,
      mv_supports_vision = m_supports_vision m, mv_supports_structured_output = m_supports_structured_output m,
      mv_supports_system_messages = m_supports_system_messages m, mv_context_window = m_context_window m,
      mv_max_output_tokens = m_max_output_tokens m, mv_tokenizer_family = m_tokenizer_family m,
      mv_avg_latency_ms = m_avg_latency_ms m, mv_avg_ttfb_ms = m_avg_ttfb_ms m, mv_last_error = m_last_error m,
      mv_last_success_at = m_last_success_at m, mv_last_failure_at = m_last_failure_at m,
      mv_last_routed_at = m_last_routed_at m, mv_cooldown_until = m_cooldown_until m\<rparr>"

text \<open>A model of the public list: its name and its owner.\<close>

definition build_public_model_list :: "(provider_id \<times> string) list \<Rightarrow> (string \<times> string) list" where
  "build_public_model_list rows = (let models = map (\<lambda>(provider, model_name). (model_name, provider)) rows in
     if models \<noteq> [] then (''auto'', ''gateway'') # models else models)"

record slot_provider =
  sp_provider_id :: provider_id
  sp_enabled :: bool
  sp_discovery_enabled :: bool
  sp_inference_enabled :: bool

record secret_slot =
  sl_key :: string
  sl_label :: string
  sl_kind :: string
  sl_env_var :: string
  sl_configured :: bool
  sl_source :: string
  sl_managed :: bool
  sl_updated_at :: "timestamp option"
  sl_provider :: "slot_provider option"

definition secret_slot_status ::
  "cfg_env \<Rightarrow> settings \<Rightarrow> string \<Rightarrow> string \<Rightarrow> string \<Rightarrow> string \<Rightarrow> (string, secret_row) dict \<Rightarrow> bool \<Rightarrow> provider_id option \<Rightarrow> secret_slot" where
  "secret_slot_status ce s secret_key label kind env_var managed_secret_rows configured_in_config provider_id =
    (let managed_row = map_of managed_secret_rows secret_key;
         env_value = (case ce_getenv ce env_var of None \<Rightarrow> [] | Some v \<Rightarrow> v);
         source = (if managed_row \<noteq> None then ''managed'' else if py_strip env_value \<noteq> [] then ''env''
           else if configured_in_config then ''config'' else ''missing'')
     in \<lparr>sl_key = secret_key, sl_label = label, sl_kind = kind, sl_env_var = env_var,
         sl_configured = (source \<noteq> ''missing''), sl_source = source, sl_managed = (managed_row \<noteq> None),
         sl_updated_at = map_option s_updated_at managed_row,
         sl_provider = map_option (\<lambda>p. \<lparr>sp_provider_id = p, sp_enabled = is_provider_enabled s p,
           sp_discovery_enabled = is_provider_discovery_enabled s p,
           sp_inference_enabled = is_provider_inference_enabled s p\<rparr>) provider_id\<rparr>)"

definition list_secret_slots :: "cfg_env \<Rightarrow> settings \<Rightarrow> tables \<Rightarrow> secret_slot list" where
  "list_secret_slots ce s t =
    secret_slot_status ce s ''openrouter_api_key'' ''OpenRouter API key'' ''provider'' ''OPENROUTER_API_KEY''
      (t_secrets t) False (Some ''openrouter'')
    # map (\<lambda>p. secret_slot_status ce s (''providers.'' @ p @ ''.api_key'') (p @ '' API key'') ''provider''
        (get_provider_api_key_env (ce_repr ce) s p) (t_secrets t)
        (py_strip (py_str (ce_repr ce) (dict_get (get_provider_bootstrap_config s p) ''api_key'' (JStr []))) \<noteq> [])
        (Some p))
      (filter (\<lambda>p. p \<noteq> ''openrouter'') (supported_provider_ids s))"

definition require_secret_management_unlocked :: "secret_store action" where
  "require_secret_management_unlocked = act_with (\<lambda>a.
     if st_vault_config a = None then act_raise (Http 409 ''secret vault is not configured'' None)
     else case st_secret_store a of
       None \<Rightarrow> act_raise (Http 423 ''secret vault is locked'' None)
     | Some store \<Rightarrow> act_return store)"

text \<open>\<open>str(payload.get(key, "")).strip()\<close>\<close>

definition body_text :: "world \<Rightarrow> (string \<times> json) list \<Rightarrow> string \<Rightarrow> string" where
  "body_text w payload key = py_strip (py_str (env_repr (wd_py w)) (dict_get payload key (JStr [])))"

definition parse_secret_password :: "world \<Rightarrow> (string \<times> json) list \<Rightarrow> raised + string" where
  "parse_secret_password w payload = (let password = body_text w payload ''password'' in
     if password = [] then Inl (Http 400 ''vault password cannot be empty'' None) else Inr password)"

record uninstall_view =
  ui_available :: bool
  ui_reason :: string
  ui_admin_ui_url :: string
  ui_commands :: "(string \<times> string) list"

definition uninstall_info :: "settings \<Rightarrow> uninstall_view" where
  "uninstall_info s =
     \<lparr>ui_available = False,
      ui_reason = ''FreeLunch runs inside Docker without host-level uninstall control from the web UI.'',
      ui_admin_ui_url = ''http://localhost:'' @ show_int (gateway_port s) @ ''/admin/ui'',
      ui_commands = [(''PowerShell'', ''powershell -ExecutionPolicy Bypass -File .'' @ [CHR 0x5C] @ ''uninstall.ps1''),
        (''Shell'', ''./uninstall.sh'')]\<rparr>"

fun type_name :: "json \<Rightarrow> string" where
  "type_name (JBool b) = ''bool''"
| "type_name (JInt i) = ''int''"
| "type_name (JFloat r) = ''float''"
| "type_name (JList xs) = ''list''"
| "type_name (JObj d) = ''dict''"
| "type_name v = ''str''"

record setting_view =
  sv_key :: string
  sv_value :: json
  sv_type :: string
  sv_overridable :: bool
  sv_section :: string

definition serialize_public_settings :: "settings \<Rightarrow> setting_view list" where
  "serialize_public_settings s = map (\<lambda>(key, v).
     \<lparr>sv_key = key, sv_value = v, sv_type = type_name v, sv_overridable = is_overridable key,
      sv_section = takeWhile (\<lambda>c. c \<noteq> CHR ''.'') key\<rparr>) (sort_key fst (public_settings s))"

record auth_status =
  gs_mode :: string
  gs_enabled :: bool
  gs_source :: string
  gs_env_configured :: bool
  gs_updated_at :: "timestamp option"

definition gateway_auth_status :: "app_state \<Rightarrow> auth_status" where
  "gateway_auth_status a = (let st = st_gateway_auth a in
     \<lparr>gs_mode = au_mode st, gs_enabled = au_enabled st, gs_source = au_source st,
      gs_env_configured = au_env_configured st, gs_updated_at = au_updated_at st\<rparr>)"

record health_report =
  hr_started_at :: string
  hr_ready :: bool
  hr_force_discovery :: bool
  hr_writer_queue_depth :: int
  hr_runtime_logging :: logging_status
  hr_total :: int
  hr_active :: int
  hr_healthy :: int
  hr_routable :: int
  hr_providers :: "(provider_id \<times> int \<times> int) list"
  hr_jobs :: "(string, job_status) dict"
  hr_probe_budgets :: "budget_summary list"
  hr_probe_state :: probe_runtime_summary
  hr_recent_probe_activity :: probe_activity
  hr_token_estimation_review :: token_review
  hr_secret_management :: secret_status
  hr_recent_model_errors :: "(model_id \<times> string option \<times> int) list"

record config_report =
  cf_overrides :: "(string \<times> string \<times> timestamp) list"
  cf_effective_values :: "setting_view list"
  cf_overridable_keys :: "string list"
  cf_effective :: "(string, json) dict"
  cf_gateway_auth :: auth_status

record log_view =
  lv_request_id :: "string option"
  lv_timestamp :: timestamp
  lv_request_source :: string
  lv_selected_model_id :: model_id
  lv_provider_id :: provider_id
  lv_selected_provider_model_id :: "string option"
  lv_selected_tokenizer_family :: "string option"
  lv_attempt_index :: int
  lv_was_fallback :: bool
  lv_estimated_prompt_tokens :: "int option"
  lv_selected_context_window :: "int option"
  lv_prompt_tokens :: json
  lv_completion_tokens :: json
  lv_total_tokens :: json
  lv_latency_ms :: "rat option"
  lv_ttfb_ms :: "rat option"
  lv_success :: bool
  lv_gateway_error_category :: "string option"
  lv_error_code :: "string option"
  lv_error_message :: "string option"
  lv_was_streaming :: bool
  lv_had_tools :: bool
  lv_had_vision :: bool

record log_filters =
  lf_success_only :: "bool option"
  lf_provider_id :: "string option"
  lf_request_source :: "string option"
  lf_model_id :: "string option"

datatype admin_reply =
    PublicModels "(string \<times> string) list"
  | ModelsReply "model_view list"
  | ModelReply model_view
  | ModelSwitched string model_id
  | HealthReply health_report
  | ConfigReply config_report
  | AuthReply auth_status
  | SecretsReply secret_status "secret_slot list"
  | VaultReply string secret_status "secret_slot list"
  | SecretChanged string string "secret_slot list"
  | UninstallReply uninstall_view
  | ConfigChanged string string "json option" "(string, json) dict"
  | RefreshReply pipeline_outcome
  | LogsReply "log_view list" int log_filters

section \<open>Models\<close>

definition healthz :: string where "healthz = ''ok''"

definition readyz :: "app_state \<Rightarrow> raised + string" where
  "readyz a = sbind (readiness_guard (st_ready a)) (\<lambda>u. Inr ''ready'')"

definition list_models :: "world \<Rightarrow> admin_request \<Rightarrow> admin_reply action" where
  "list_models w rq = act_then (admin_check w rq)
     (act_then (act_with (\<lambda>a. act_lift (readiness_guard (st_ready a))))
     (act_get (\<lambda>a. PublicModels (build_public_model_list (map (\<lambda>m. (m_provider_id m, m_provider_model_id m))
        (sort_desc m_composite_score (filter (\<lambda>m. m_is_healthy m \<and> m_is_active m) (t_models (committed a)))))))))"

definition admin_models :: "world \<Rightarrow> admin_request \<Rightarrow> admin_reply action" where
  "admin_models w rq = act_then (admin_check w rq)
     (act_get (\<lambda>a. ModelsReply (map serialize_model_row (sort_desc m_composite_score (t_models (committed a))))))"

definition admin_model_detail :: "world \<Rightarrow> admin_request \<Rightarrow> model_id \<Rightarrow> admin_reply action" where
  "admin_model_detail w rq i = act_then (admin_check w rq) (act_with (\<lambda>a. case find_model (committed a) i of
       None \<Rightarrow> act_raise (Http 404 ''model not found'' None)
     | Some m \<Rightarrow> act_return (ModelReply (serialize_model_row m))))"

definition switch_model :: "bool \<Rightarrow> world \<Rightarrow> admin_request \<Rightarrow> model_id \<Rightarrow> unit action" where
  "switch_model active w rq i =
     act_then (admin_check w rq)
     (act_then (act_with (\<lambda>a. require (find_model (committed a) i \<noteq> None) 404 ''model not found''))
     (act_then (db_write (SetModelActive i active)) (act_then db_flush (act_then recompute_readiness (act_return ())))))"

definition admin_disable_model :: "world \<Rightarrow> admin_request \<Rightarrow> model_id \<Rightarrow> admin_reply action" where
  "admin_disable_model w rq i = act_then (switch_model False w rq i) (act_return (ModelSwitched ''disabled'' i))"

definition admin_enable_model :: "world \<Rightarrow> admin_request \<Rightarrow> model_id \<Rightarrow> admin_reply action" where
  "admin_enable_model w rq i = act_then (switch_model True w rq i) (act_return (ModelSwitched ''enabled'' i))"

section \<open>Health\<close>

text \<open>What \<open>PRAGMA table_info\<close> names in a migrated database.\<close>

definition request_log_column_names :: "string list" where
  "request_log_column_names = [''id'', ''request_id'', ''timestamp'', ''request_source'', ''selected_model_id'', ''provider_id'',
     ''selected_provider_model_id'', ''selected_tokenizer_family'', ''client_requested_model'', ''attempt_index'',
     ''was_fallback'', ''estimated_prompt_tokens'', ''selected_context_window'', ''prompt_tokens'', ''completion_tokens'',
     ''total_tokens'', ''latency_ms'', ''ttfb_ms'', ''success'', ''gateway_error_category'', ''error_code'', ''error_message'',
     ''was_streaming'', ''had_tools'', ''had_vision'']"

text \<open>\<open>ORDER BY last_failure_at DESC\<close>: no time stamp comes last.\<close>

definition recent_model_errors :: "tables \<Rightarrow> (model_id \<times> string option \<times> int) list" where
  "recent_model_errors t = map (\<lambda>m. (m_id m, m_last_error m, m_consecutive_failures m))
     (sql_limit 20 (sort_desc (\<lambda>m. case m_last_failure_at m of None \<Rightarrow> (0, 0) | Some s \<Rightarrow> (1 :: int, s))
        (filter (\<lambda>m. m_last_error m \<noteq> None) (t_models t))))"

definition admin_health :: "admin_env \<Rightarrow> admin_request \<Rightarrow> admin_reply action" where
  "admin_health an rq = act_then (admin_check (an_world an) rq) (act_with (\<lambda>a.
    let t = committed a; ms = t_models t; now = wd_now (an_world an) in
    act_bind (act_py (get_token_estimation_review_summary (an_sql_number an) request_log_column_names t now
        TOKEN_REVIEW_WINDOW_DAYS)) (\<lambda>review.
    act_return (HealthReply
     \<lparr>hr_started_at = an_started_at an, hr_ready = st_ready a, hr_force_discovery = st_force_discovery a,
      hr_writer_queue_depth = queue_depth (st_db a), hr_runtime_logging = logger_status (an_logger an),
      hr_total = count_if (\<lambda>m. True) ms, hr_active = count_if m_is_active ms, hr_healthy = count_if m_is_healthy ms,
      hr_routable = count_if (\<lambda>m. m_is_active m \<and> m_is_healthy m) ms,
      hr_providers = map (\<lambda>(p, g). (p, count_if (\<lambda>m. True) g, count_if (\<lambda>m. m_is_active m \<and> m_is_healthy m) g))
        (group_by m_provider_id ms),
      hr_jobs = st_job_status a,
      hr_probe_budgets = get_probe_budget_summary t (st_settings a) now,
      hr_probe_state = get_probe_runtime_summary t (st_settings a) now,
      hr_recent_probe_activity = get_recent_probe_activity t now 24,
      hr_token_estimation_review = review,
      hr_secret_management = st_secret_status a,
      hr_recent_model_errors = recent_model_errors t\<rparr>))))"

section \<open>Configuration\<close>

definition admin_config :: "world \<Rightarrow> admin_request \<Rightarrow> admin_reply action" where
  "admin_config w rq = act_then (admin_check w rq) (act_get (\<lambda>a. ConfigReply
     \<lparr>cf_overrides = list_overrides (committed a),
      cf_effective_values = serialize_public_settings (st_settings a),
      cf_overridable_keys = sort (filter is_overridable (map fst (public_settings (st_settings a)))),
      cf_effective = public_settings (st_settings a),
      cf_gateway_auth = gateway_auth_status a\<rparr>))"

definition override_text :: "world \<Rightarrow> json \<Rightarrow> string" where
  "override_text w v = (case v of JStr s \<Rightarrow> s | _ \<Rightarrow> json_dumps_spaced (env_repr (wd_py w)) v)"

definition set_override :: "world \<Rightarrow> string \<Rightarrow> json \<Rightarrow> unit action" where
  "set_override w key v = db_write (SetOverride key (override_text w v) (wd_now w))"

text \<open>The tail every change of the configuration ends with.\<close>

definition flush_and_reload :: "world \<Rightarrow> unit action" where
  "flush_and_reload w = act_then db_flush (act_then (reload_settings w) (act_return ()))"

definition admin_set_config :: "world \<Rightarrow> admin_request \<Rightarrow> string \<Rightarrow> (string \<times> json) list \<Rightarrow> admin_reply action" where
  "admin_set_config w rq key payload =
     act_then (admin_check w rq)
     (case map_of payload ''value'' of
        None \<Rightarrow> act_raise (Http 400 ''missing value'' None)
      | Some v \<Rightarrow>
          act_then (require (is_overridable key) 400 ''override key not allowed'')
          (act_then (set_override w key v)
          (act_then (flush_and_reload w)
          (act_get (\<lambda>a. ConfigChanged ''updated'' key (Some v) (public_settings (st_settings a)))))))"

definition admin_delete_config :: "world \<Rightarrow> admin_request \<Rightarrow> string \<Rightarrow> admin_reply action" where
  "admin_delete_config w rq key =
     act_then (admin_check w rq)
     (act_then (db_write (DeleteOverride key))
     (act_then (flush_and_reload w)
     (act_get (\<lambda>a. ConfigChanged ''deleted'' key None (public_settings (st_settings a))))))"

section \<open>Gateway authentication\<close>

definition admin_gateway_auth :: "world \<Rightarrow> admin_request \<Rightarrow> admin_reply action" where
  "admin_gateway_auth w rq = act_then (admin_check w rq) (act_get (\<lambda>a. AuthReply (gateway_auth_status a)))"

definition store_gateway_auth :: "world \<Rightarrow> string \<Rightarrow> string option \<Rightarrow> string option \<Rightarrow> admin_reply action" where
  "store_gateway_auth w mode salt hash =
     act_then (db_write (SetGatewayAuthConfig mode salt hash (wd_now w)))
     (act_then (flush_and_reload w) (act_get (\<lambda>a. AuthReply (gateway_auth_status a))))"

definition admin_set_gateway_auth :: "world \<Rightarrow> admin_request \<Rightarrow> (string \<times> json) list \<Rightarrow> admin_reply action" where
  "admin_set_gateway_auth w rq payload =
    (let key = body_text w payload ''key'' in
     act_then (admin_check w rq)
     (act_then (require (key \<noteq> []) 400 ''gateway auth key cannot be empty'')
     (act_bind (act_py (create_gateway_auth_config (wd_crypto w) (wd_salt w) key)) (\<lambda>config.
      store_gateway_auth w ''enabled'' (Some (ga_token_salt_b64 config)) (Some (ga_token_hash_b64 config))))))"

definition admin_disable_gateway_auth :: "world \<Rightarrow> admin_request \<Rightarrow> admin_reply action" where
  "admin_disable_gateway_auth w rq = act_then (admin_check w rq) (store_gateway_auth w ''disabled'' None None)"

definition admin_inherit_gateway_auth :: "world \<Rightarrow> admin_request \<Rightarrow> admin_reply action" where
  "admin_inherit_gateway_auth w rq = act_then (admin_check w rq) (store_gateway_auth w ''inherit'' None None)"

section \<open>Secrets\<close>

definition slots_now :: "world \<Rightarrow> app_state \<Rightarrow> secret_slot list" where
  "slots_now w a = list_secret_slots (wd_cfg w) (st_settings a) (committed a)"

definition admin_secrets :: "world \<Rightarrow> admin_request \<Rightarrow> admin_reply action" where
  "admin_secrets w rq = act_then (admin_check w rq) (act_get (\<lambda>a. SecretsReply (st_secret_status a) (slots_now w a)))"

text \<open>Installing a store, or none, and what the reply shows.\<close>

definition install_store :: "world \<Rightarrow> secret_store option \<Rightarrow> string \<Rightarrow> admin_reply action" where
  "install_store w store status =
     act_then (act_modify (\<lambda>a. a\<lparr>st_secret_store := store\<rparr>))
     (act_then (reload_settings w) (act_get (\<lambda>a. VaultReply status (st_secret_status a) (slots_now w a))))"

definition admin_setup_secret_vault :: "world \<Rightarrow> admin_request \<Rightarrow> (string \<times> json) list \<Rightarrow> admin_reply action" where
  "admin_setup_secret_vault w rq payload =
     act_then (admin_check w rq)
     (act_then (act_with (\<lambda>a. require (st_vault_config a = None) 409 ''secret vault is already configured''))
     (act_bind (act_lift (parse_secret_password w payload)) (\<lambda>password.
      case create_vault_config (wd_crypto w) (wd_salt w) (wd_nonce w) password of
        Inl e \<Rightarrow> act_raise (case e of PyRaise ValueError \<Rightarrow> Http 400 (wd_error_text w (Unhandled ValueError)) None
                              | _ \<Rightarrow> secret_raised e)
      | Inr (vault_config, store) \<Rightarrow>
          act_then (db_write (SetSecretVaultConfig (vc_salt_b64 vault_config) (vc_verifier_encrypted vault_config) (wd_now w)))
          (act_then db_flush (install_store w (Some store) ''configured'')))))"

definition vault_throttle :: "world \<Rightarrow> admin_request \<Rightarrow> unit action" where
  "vault_throttle w rq =
     with_throttles (\<lambda>ae. check_auth_throttle ae (wd_clock w) ''vault'' (client_key (rq_host rq))) w"

definition admin_unlock_secret_vault :: "world \<Rightarrow> admin_request \<Rightarrow> (string \<times> json) list \<Rightarrow> admin_reply action" where
  "admin_unlock_secret_vault w rq payload =
     act_then (admin_check w rq)
     (act_with (\<lambda>a. case st_vault_config a of
        None \<Rightarrow> act_raise (Http 409 ''secret vault is not configured'' None)
      | Some vault_config \<Rightarrow>
          act_then (vault_throttle w rq)
          (act_bind (act_lift (parse_secret_password w payload)) (\<lambda>password.
           case unlock_vault (wd_crypto w) password vault_config of
             Inl (SecretStorePasswordError message) \<Rightarrow>
               act_bind (with_throttles (\<lambda>ae. record_auth_failure ae (wd_clock w) ''vault'' (client_key (rq_host rq))
                 (Http 401 message None)) w) (\<lambda>u. act_raise (Http 401 message None))
           | Inl e \<Rightarrow> act_raise (secret_raised e)
           | Inr store \<Rightarrow>
               act_then (act_modify (\<lambda>b. b\<lparr>st_throttles :=
                   auth_reset (auth_env_of w b) ''vault'' (client_key (rq_host rq)) (st_throttles b)\<rparr>))
                 (install_store w (Some store) ''unlocked'')))))"

definition admin_lock_secret_vault :: "world \<Rightarrow> admin_request \<Rightarrow> admin_reply action" where
  "admin_lock_secret_vault w rq =
     act_then (admin_check w rq)
     (act_then (act_with (\<lambda>a. require (st_vault_config a \<noteq> None) 409 ''secret vault is not configured''))
     (install_store w None ''locked''))"

definition secret_value :: "world \<Rightarrow> (string \<times> json) list \<Rightarrow> raised + string" where
  "secret_value w payload = (case map_of payload ''value'' of
       None \<Rightarrow> Inl (Http 400 ''missing value'' None)
     | Some v \<Rightarrow> (let value = py_strip (py_str (env_repr (wd_py w)) v) in
         if value = [] then Inl (Http 400 ''secret value cannot be empty'' None) else Inr value))"

definition change_secret :: "world \<Rightarrow> string \<Rightarrow> string \<Rightarrow> stmt \<Rightarrow> admin_reply action" where
  "change_secret w status key st =
     act_then (db_write st) (act_then (flush_and_reload w) (act_get (\<lambda>a. SecretChanged status key (slots_now w a))))"

definition admin_set_secret :: "world \<Rightarrow> admin_request \<Rightarrow> string \<Rightarrow> (string \<times> json) list \<Rightarrow> admin_reply action" where
  "admin_set_secret w rq secret_key payload =
    (let key = py_strip secret_key in
     act_then (admin_check w rq)
     (act_then (require (is_managed_secret_key key) 400 ''secret key not allowed'')
     (act_bind (act_lift (secret_value w payload)) (\<lambda>v.
      act_bind require_secret_management_unlocked (\<lambda>store.
      change_secret w ''updated'' key
        (SetManagedSecret key (store_encrypt (wd_crypto w) store (wd_nonce w) v) (wd_now w)))))))"

definition admin_delete_secret :: "world \<Rightarrow> admin_request \<Rightarrow> string \<Rightarrow> admin_reply action" where
  "admin_delete_secret w rq secret_key =
    (let key = py_strip secret_key in
     act_then (admin_check w rq)
     (act_then (require (is_managed_secret_key key) 400 ''secret key not allowed'')
     (act_bind require_secret_management_unlocked (\<lambda>store.
      change_secret w ''deleted'' key (DeleteManagedSecret key)))))"

section \<open>The rest\<close>

definition admin_uninstall_info :: "world \<Rightarrow> admin_request \<Rightarrow> admin_reply action" where
  "admin_uninstall_info w rq = act_then (admin_check w rq) (act_get (\<lambda>a. UninstallReply (uninstall_info (st_settings a))))"

text \<open>\<open>register_jobs\<close> installs the runner together with the entries of the jobs.\<close>

definition admin_refresh :: "world \<Rightarrow> admin_request \<Rightarrow> admin_reply action" where
  "admin_refresh w rq =
     act_then (admin_check w rq)
     (act_then (act_with (\<lambda>a. require (has_key (st_job_status a) ''discovery'') 503 ''discovery runner unavailable''))
     (act_then (reload_settings w)
     (act_then (act_modify (\<lambda>a. a\<lparr>st_force_discovery := True\<rparr>))
     (act_bind (discovery_runner w) (\<lambda>outcome. act_return (RefreshReply outcome))))))"

definition serialize_log_row :: "log_row \<Rightarrow> log_view" where
  "serialize_log_row l =
     \<lparr>lv_request_id = l_request_id l, lv_timestamp = l_timestamp l, lv_request_source = l_request_source l,
      lv_selected_model_id = l_selected_model_id l, lv_provider_id = l_provider_id l,
      lv_selected_provider_model_id = l_selected_provider_model_id l,
      lv_selected_tokenizer_family = l_selected_tokenizer_family l, lv_attempt_index = l_attempt_index l,
      lv_was_fallback = l_was_fallback l, lv_estimated_prompt_tokens = l_estimated_prompt_tokens l,
      lv_selected_context_window = l_selected_context_window l, lv_prompt_tokens = l_prompt_tokens l,
      lv_completion_tokens = l_completion_tokens l, lv_total_tokens = l_total_tokens l, lv_latency_ms = l_latency_ms l,
      lv_ttfb_ms = l_ttfb_ms l, lv_success = l_success l, lv_gateway_error_category = l_gateway_error_category l,
      lv_error_code = l_error_code l, lv_error_message = l_error_message l, lv_was_streaming = l_was_streaming l,
      lv_had_tools = l_had_tools l, lv_had_vision = l_had_vision l\<rparr>"

text \<open>A filter given as an empty text is no filter.\<close>

definition text_matches :: "string option \<Rightarrow> string \<Rightarrow> bool" where
  "text_matches given v = (case given of None \<Rightarrow> True | Some g \<Rightarrow> g = [] \<or> v = py_strip g)"

definition log_selected :: "log_filters \<Rightarrow> log_row \<Rightarrow> bool" where
  "log_selected f l =
    ((case lf_success_only f of None \<Rightarrow> True | Some b \<Rightarrow> l_success l = b)
     \<and> text_matches (lf_provider_id f) (l_provider_id l)
     \<and> text_matches (lf_request_source f) (l_request_source l)
     \<and> text_matches (lf_model_id f) (l_selected_model_id l))"

text \<open>Row ids grow with insertion, so the newest of equal time stamps is the last inserted.\<close>

definition newest_logs :: "log_filters \<Rightarrow> int \<Rightarrow> tables \<Rightarrow> log_row list" where
  "newest_logs f capped_limit t =
     sql_limit capped_limit (sort_desc l_timestamp (rev (filter (log_selected f) (t_log t))))"

definition admin_logs :: "world \<Rightarrow> admin_request \<Rightarrow> int \<Rightarrow> log_filters \<Rightarrow> admin_reply action" where
  "admin_logs w rq limit f =
    (let capped_limit = min (max limit 1) 500 in
     act_then (admin_check w rq)
     (act_then db_flush
     (act_get (\<lambda>a. LogsReply (map serialize_log_row (newest_logs f capped_limit (committed a))) capped_limit f))))"

section \<open>The routes\<close>

datatype admin_call =
    ListModels | AdminModels | ModelDetail model_id | DisableModel model_id | EnableModel model_id | AdminHealth
  | AdminConfig | SetConfig string "(string \<times> json) list" | DeleteConfig string
  | GatewayAuth | SetGatewayAuth "(string \<times> json) list" | DisableGatewayAuth | InheritGatewayAuth
  | AdminSecrets | SetupVault "(string \<times> json) list" | UnlockVault "(string \<times> json) list" | LockVault
  | SetSecret string "(string \<times> json) list" | DeleteSecret string
  | UninstallInfo | AdminRefresh | AdminLogs int log_filters

fun admin_route :: "admin_env \<Rightarrow> admin_request \<Rightarrow> admin_call \<Rightarrow> admin_reply action" where
  "admin_route an rq ListModels = list_models (an_world an) rq"
| "admin_route an rq AdminModels = admin_models (an_world an) rq"
| "admin_route an rq (ModelDetail i) = admin_model_detail (an_world an) rq i"
| "admin_route an rq (DisableModel i) = admin_disable_model (an_world an) rq i"
| "admin_route an rq (EnableModel i) = admin_enable_model (an_world an) rq i"
| "admin_route an rq AdminHealth = admin_health an rq"
| "admin_route an rq AdminConfig = admin_config (an_world an) rq"
| "admin_route an rq (SetConfig k p) = admin_set_config (an_world an) rq k p"
| "admin_route an rq (DeleteConfig k) = admin_delete_config (an_world an) rq k"
| "admin_route an rq GatewayAuth = admin_gateway_auth (an_world an) rq"
| "admin_route an rq (SetGatewayAuth p) = admin_set_gateway_auth (an_world an) rq p"
| "admin_route an rq DisableGatewayAuth = admin_disable_gateway_auth (an_world an) rq"
| "admin_route an rq InheritGatewayAuth = admin_inherit_gateway_auth (an_world an) rq"
| "admin_route an rq AdminSecrets = admin_secrets (an_world an) rq"
| "admin_route an rq (SetupVault p) = admin_setup_secret_vault (an_world an) rq p"
| "admin_route an rq (UnlockVault p) = admin_unlock_secret_vault (an_world an) rq p"
| "admin_route an rq LockVault = admin_lock_secret_vault (an_world an) rq"
| "admin_route an rq (SetSecret k p) = admin_set_secret (an_world an) rq k p"
| "admin_route an rq (DeleteSecret k) = admin_delete_secret (an_world an) rq k"
| "admin_route an rq UninstallInfo = admin_uninstall_info (an_world an) rq"
| "admin_route an rq AdminRefresh = admin_refresh (an_world an) rq"
| "admin_route an rq (AdminLogs n f) = admin_logs (an_world an) rq n f"

section \<open>Running handlers\<close>

lemma then_assoc: "act_then (act_then m n) k = act_then m (act_then n k)"
  by (auto simp: fun_eq_iff act_then_def act_bind_def split: outcome.split)

named_theorems returned_iff \<open>when a composed action returns\<close>

lemma returned_basic [returned_iff]:
  "act_then m k a = Returned x b \<longleftrightarrow> (\<exists>u c. m a = Returned u c \<and> k c = Returned x b)"
  "act_bind n f a = Returned x b \<longleftrightarrow> (\<exists>u c. n a = Returned u c \<and> f u c = Returned x b)"
  "act_return y a = Returned x b \<longleftrightarrow> x = y \<and> b = a"
  "act_raise e a = Returned x b \<longleftrightarrow> False"
  "act_get g a = Returned x b \<longleftrightarrow> x = g a \<and> b = a"
  "act_modify u a = Returned z b \<longleftrightarrow> b = u a"
  "act_with h a = Returned x b \<longleftrightarrow> h a a = Returned x b"
  "act_lift r a = Returned x b \<longleftrightarrow> r = Inr x \<and> b = a"
  "act_py q a = Returned x b \<longleftrightarrow> q = Inr x \<and> b = a"
  "require ok st d a = Returned z b \<longleftrightarrow> ok \<and> b = a"
  by (auto simp: act_then_def act_bind_def act_return_def act_raise_def act_get_def act_modify_def act_with_def act_lift_def
      act_py_def require_def split: outcome.splits sum.splits)

lemma check_returned: "admin_check w rq a = Returned u c \<Longrightarrow> \<exists>ths. c = a\<lparr>st_throttles := ths\<rparr>"
  by (auto simp: admin_check_def with_throttles_def split: prod.splits sum.splits)

lemma quiet_rest [simp]:
  "quiet (a\<lparr>st_throttles := th\<rparr>) = quiet a" "quiet (a\<lparr>st_secret_store := s\<rparr>) = quiet a"
  "committed (a\<lparr>st_throttles := th\<rparr>) = committed a" "committed (a\<lparr>st_secret_store := s\<rparr>) = committed a"
  by (simp_all add: quiet_def committed_def)

text \<open>A statement and a flush, on a quiet gateway.\<close>

lemma written_through:
  assumes "quiet a" and "exec_stmt st (committed a) = Some t"
  shows "\<exists>db. (\<forall>k :: 'b action. act_then (db_write st) (act_then db_flush k) a = k (a\<lparr>st_db := db\<rparr>))
    \<and> quiet (a\<lparr>st_db := db\<rparr>) \<and> committed (a\<lparr>st_db := db\<rparr>) = t"
proof -
  have "exec_stmts [st] (committed a) = Some t" using assms(2) by simp
  from write_and_flush [OF assms(1) this] obtain db where
    db: "act_then (db_writes [st]) db_flush a = Returned () (a\<lparr>st_db := db\<rparr>)" "running db" "w_queue db = []" "db_tables db = t"
    by blast
  have "act_then (db_write st) (act_then db_flush k) a = k (a\<lparr>st_db := db\<rparr>)" for k :: "'b action"
    using db(1) by (auto simp: act_then_def act_bind_def act_return_def split: outcome.splits)
  with db show ?thesis by (auto simp: quiet_def committed_def)
qed

text \<open>What follows a reload that returned; the tables of the reload are those it found.\<close>

definition reloaded :: "world \<Rightarrow> app_state \<Rightarrow> settings \<Rightarrow> app_state \<Rightarrow> bool" where
  "reloaded w a s b = (in_force w s b
     \<and> (\<exists>loaded secrets status. load_settings w (committed a) = Inr loaded
          \<and> load_managed_secrets (wd_crypto w) (committed a) (st_secret_store a) (get_secret_vault_config (committed a))
              = Inr (secrets, status)
          \<and> s = apply_managed_secrets secrets loaded)
     \<and> st_gateway_auth b = resolve_gateway_auth_state s (committed a)
     \<and> st_vault_config b = get_secret_vault_config (committed a) \<and> st_secret_store b = st_secret_store a
     \<and> (\<exists>tb. committed b = (committed a)\<lparr>t_models := tb\<rparr>))"

lemma reload_returned: "quiet a \<Longrightarrow> reload_settings w a = Returned s b \<Longrightarrow> reloaded w a s b"
  using reload_result [of a w] by (auto simp: reloaded_def)

lemma in_forceD: "in_force w s b \<Longrightarrow> quiet b \<and> st_settings b = s"
  by (simp add: in_force_def)

lemma changed_and_reloaded:
  assumes "quiet a" and "exec_stmt st (committed a) = Some t"
    and "act_then (db_write st) (act_then (flush_and_reload w) k) a = Returned x b"
  shows "\<exists>db s c. quiet (a\<lparr>st_db := db\<rparr>) \<and> committed (a\<lparr>st_db := db\<rparr>) = t \<and> reloaded w (a\<lparr>st_db := db\<rparr>) s c
    \<and> k c = Returned x b"
proof -
  from written_through [OF assms(1,2)] obtain db where
    db: "act_then (db_write st) (act_then db_flush (act_then (act_then (reload_settings w) (act_return ())) k)) a
      = act_then (act_then (reload_settings w) (act_return ())) k (a\<lparr>st_db := db\<rparr>)"
    "quiet (a\<lparr>st_db := db\<rparr>)" "committed (a\<lparr>st_db := db\<rparr>) = t" by blast
  from assms(3) have "act_then (act_then (reload_settings w) (act_return ())) k (a\<lparr>st_db := db\<rparr>) = Returned x b"
    by (simp add: flush_and_reload_def then_assoc db(1) [unfolded then_assoc])
  then obtain s c where "reload_settings w (a\<lparr>st_db := db\<rparr>) = Returned s c" "k c = Returned x b"
    by (auto simp: returned_iff)
  with reload_returned [OF db(2)] db(2,3) show ?thesis by blast
qed

lemma change_returns:
  assumes "quiet a" and "exec_stmt st (committed a) = Some t" and "loads w t (st_secret_store a)"
  shows "\<exists>x b. act_then (db_write st) (act_then (flush_and_reload w) (act_get f)) a = Returned x b"
proof -
  from written_through [OF assms(1,2)] obtain db where
    db: "act_then (db_write st) (act_then db_flush (act_then (act_then (reload_settings w) (act_return ())) (act_get f))) a
      = act_then (act_then (reload_settings w) (act_return ())) (act_get f) (a\<lparr>st_db := db\<rparr>)"
    "quiet (a\<lparr>st_db := db\<rparr>)" "committed (a\<lparr>st_db := db\<rparr>) = t" by blast
  from loads_reload [OF db(2), of w] db(3) assms(3) obtain s b where "reload_settings w (a\<lparr>st_db := db\<rparr>) = Returned s b"
    by auto
  then have "act_then (act_then (reload_settings w) (act_return ())) (act_get f) (a\<lparr>st_db := db\<rparr>) = Returned (f b) b"
    by (simp add: returned_iff)
  with db(1) show ?thesis by (simp add: flush_and_reload_def then_assoc)
qed

lemma open_check: "\<not> au_enabled (st_gateway_auth a) \<Longrightarrow> admin_check w rq a = Returned () a"
  by (simp add: admin_check_def with_throttles_def check_gateway_auth_def auth_env_of_def)

section \<open>Refusal\<close>

lemma refused_check:
  assumes "au_enabled (st_gateway_auth a)"
    and "\<not> (\<exists>token. rq_authorization rq = Some (''Bearer '' @ token) \<and> credentials_match (auth_env_of w a) token = Inr True)
      \<or> locked (wd_digest w) (auth_throttle (st_settings a) ''gateway'' (st_throttles a)) (wd_clock w) (client_key (rq_host rq))"
  shows "\<exists>e ths. admin_check w rq a = Raised e (a\<lparr>st_throttles := ths\<rparr>)"
proof -
  let ?c = "check_gateway_auth (auth_env_of w a) (wd_clock w) (rq_host rq) (rq_authorization rq) (st_throttles a)"
  obtain r ths where c: "?c = (r, ths)" by fastforce
  have sels: "ae_state (auth_env_of w a) = st_gateway_auth a" "ae_digest (auth_env_of w a) = wd_digest w"
    "ae_settings (auth_env_of w a) = st_settings a" by (simp_all add: auth_env_of_def)
  have "r \<noteq> Inr ()"
  proof
    assume "r = Inr ()"
    with c have "?c = (Inr (), ths)" by simp
    from accepted_facts [OF _ this] assms show False unfolding sels by blast
  qed
  then obtain e where "r = Inl e" by (cases r) auto
  with c show ?thesis by (auto simp: admin_check_def with_throttles_def)
qed

lemma route_starts_with_check:
  "admin_check (an_world an) rq a = Raised e b \<Longrightarrow> admin_route an rq call a = Raised e b"
  by (cases call)
    (simp_all add: act_then_def act_bind_def list_models_def admin_models_def admin_model_detail_def admin_disable_model_def
      admin_enable_model_def switch_model_def admin_health_def admin_config_def admin_set_config_def admin_delete_config_def
      admin_gateway_auth_def admin_set_gateway_auth_def admin_disable_gateway_auth_def admin_inherit_gateway_auth_def
      admin_secrets_def admin_setup_secret_vault_def admin_unlock_secret_vault_def admin_lock_secret_vault_def
      admin_set_secret_def admin_delete_secret_def admin_uninstall_info_def admin_refresh_def admin_logs_def Let_def)

text \<open>
  C20 (safety). While the credential check is on, an administration call without the credential in force, or
  from a client that is locked out, is refused whatever it asks for, and leaves every part of the
  state as it was but the throttle: no table, no setting, no secret, no job is touched.
\<close>

theorem refused_admin_call_changes_nothing:
  assumes "au_enabled (st_gateway_auth a)"
    and "\<not> (\<exists>token. rq_authorization rq = Some (''Bearer '' @ token)
          \<and> credentials_match (auth_env_of (an_world an) a) token = Inr True)
      \<or> locked (wd_digest (an_world an)) (auth_throttle (st_settings a) ''gateway'' (st_throttles a))
          (wd_clock (an_world an)) (client_key (rq_host rq))"
  shows "\<exists>e ths. admin_route an rq call a = Raised e (a\<lparr>st_throttles := ths\<rparr>)"
  using refused_check [OF assms] route_starts_with_check by blast

definition anonymous :: admin_request where
  "anonymous = \<lparr>rq_host = None, rq_authorization = None\<rparr>"

definition idle_admin :: admin_env where
  "idle_admin = \<lparr>an_world = idle_world, an_started_at = [], an_logger = manager_init, an_sql_number = (\<lambda>s. None)\<rparr>"

definition guarded_app :: app_state where
  "guarded_app = app_init (default_settings\<lparr>gateway_api_key := ''k3y''\<rparr>) healthy_tables no_secrets []"

theorem refused_admin_call_changes_nothing_witness:
  "\<exists>e ths. admin_route idle_admin anonymous (SetConfig ''routing.max_attempts'' [(''value'', JInt 9)]) guarded_app
     = Raised e (guarded_app\<lparr>st_throttles := ths\<rparr>)"
proof (rule refused_admin_call_changes_nothing)
  show "au_enabled (st_gateway_auth guarded_app)" by code_simp
qed (simp add: anonymous_def)

section \<open>Overrides\<close>

text \<open>
  C22 (error). The endpoint stores an override before it is tried: a value the settings reject is answered
  with an unhandled exception, yet it is committed. From then on every reload raises, with the
  settings frozen, and the gateway cannot be started again.
\<close>

theorem rejected_override_is_stored:
  assumes "quiet a" and "admin_check w rq a = Returned () c"
    and "map_of payload ''value'' = Some v" and "is_overridable key"
    and "load_settings w ((committed a)\<lparr>t_overrides :=
           AList.update key (override_text w v, wd_now w) (t_overrides (committed a))\<rparr>) = Inl e"
  shows "\<exists>b. admin_set_config w rq key payload a = Raised (Unhandled e) b \<and> quiet b
    \<and> t_overrides (committed b) = AList.update key (override_text w v, wd_now w) (t_overrides (committed a))
    \<and> st_settings b = st_settings a
    \<and> reload_settings w b = Raised (Unhandled e) b \<and> boot w (committed b) = Inl (Unhandled e)"
proof -
  from check_returned [OF assms(2)] obtain ths where c: "c = a\<lparr>st_throttles := ths\<rparr>" by blast
  let ?t = "(committed a)\<lparr>t_overrides := AList.update key (override_text w v, wd_now w) (t_overrides (committed a))\<rparr>"
  have "quiet c" "exec_stmt (SetOverride key (override_text w v) (wd_now w)) (committed c) = Some ?t"
    using assms(1) c by simp_all
  from written_through [OF this] obtain db where
    db: "\<And>k :: admin_reply action. act_then (db_write (SetOverride key (override_text w v) (wd_now w))) (act_then db_flush k) c
      = k (c\<lparr>st_db := db\<rparr>)" "quiet (c\<lparr>st_db := db\<rparr>)" "committed (c\<lparr>st_db := db\<rparr>) = ?t" by blast
  let ?b = "c\<lparr>st_db := db\<rparr>"
  have r: "reload_settings w ?b = Raised (Unhandled e) ?b"
    using assms(5) db(3) by (simp add: reload_settings_def act_bind_def act_with_def act_py_def act_raise_def)
  then have fail: "act_then (act_then (reload_settings w) m) k ?b = Raised (Unhandled e) ?b"
    for m :: "unit action" and k :: "admin_reply action"
    by (simp add: act_then_def act_bind_def)
  have "admin_set_config w rq key payload a
      = act_then (db_write (SetOverride key (override_text w v) (wd_now w))) (act_then db_flush
          (act_then (act_then (reload_settings w) (act_return ()))
            (act_get (\<lambda>a. ConfigChanged ''updated'' key (Some v) (public_settings (st_settings a)))))) c"
    using assms(2-4)
    by (simp add: admin_set_config_def act_then_def [where m = "admin_check w rq"] act_bind_def [where m = "admin_check w rq"]
        require_def act_then_def [where m = "act_return ()"] act_bind_def [where m = "act_return ()"] act_return_def
        set_override_def flush_and_reload_def then_assoc)
  then have run: "admin_set_config w rq key payload a = Raised (Unhandled e) ?b" by (simp only: db(1) fail)
  have boot: "boot w (committed ?b) = Inl (Unhandled e)" using assms(5) db(3) by (simp add: boot_def)
  show ?thesis using run r boot db(2,3) c by auto
qed

theorem rejected_override_is_stored_witness:
  "\<exists>e b. admin_set_config idle_world anonymous ''routing.max_attempts'' [(''value'', JStr ''many'')] example_app
       = Raised (Unhandled e) b \<and> boot idle_world (committed b) = Inl (Unhandled e)"
proof -
  let ?t = "(committed example_app)\<lparr>t_overrides := AList.update ''routing.max_attempts''
    (override_text idle_world (JStr ''many''), wd_now idle_world) (t_overrides (committed example_app))\<rparr>"
  have "case load_settings idle_world ?t of Inl e \<Rightarrow> True | Inr s \<Rightarrow> False" by code_simp
  then obtain e where e: "load_settings idle_world ?t = Inl e" by (auto split: sum.splits)
  have "\<not> au_enabled (st_gateway_auth example_app)" by code_simp
  then have "admin_check idle_world anonymous example_app = Returned () (example_app\<lparr>st_throttles := st_throttles example_app\<rparr>)"
    by (simp add: admin_check_def with_throttles_def check_gateway_auth_def auth_env_of_def)
  moreover have "is_overridable ''routing.max_attempts''" by code_simp
  ultimately show ?thesis
    using rejected_override_is_stored [OF example_app_quiet _ _ _ e, of anonymous _ "[(''value'', JStr ''many'')]"] by auto
qed

section \<open>Rotating the gateway key\<close>

lemma b64_nonempty: "xs \<noteq> [] \<Longrightarrow> urlsafe_b64encode xs \<noteq> []"
  by (cases xs rule: urlsafe_b64encode.cases) simp_all

lemma stored_key_in_force:
  assumes "create_gateway_auth_config cr salt key = Inr config" and "salt \<noteq> []" and "\<And>p. cr_pbkdf2 cr p salt \<noteq> []"
    and "t_auth t = Some row" and "a_mode row = ''enabled''"
    and "a_token_salt_b64 row = Some (ga_token_salt_b64 config)" "a_token_hash_b64 row = Some (ga_token_hash_b64 config)"
  shows "au_enabled (resolve_gateway_auth_state s t) \<and> au_source (resolve_gateway_auth_state s t) = ''managed''
    \<and> au_config (resolve_gateway_auth_state s t) = Some config"
proof -
  have "ga_token_salt_b64 config \<noteq> []" "ga_token_hash_b64 config \<noteq> []"
    using assms(1,2,3) by (auto simp: create_gateway_auth_config_def Let_def b64_nonempty split: if_splits)
  then have "au_config (get_gateway_auth_config t) = Some config"
    using assms(4-7) by (simp add: get_gateway_auth_config_def Let_def)
  with effective_auth_state [of t s] show ?thesis by simp
qed

text \<open>
  C23 (functional). Rotating the gateway key takes effect at once and for good: once the endpoint has
  answered, the check is on, the key in force is the new one, the environment key no longer counts,
  and a token is accepted exactly when it hashes like the new key.
\<close>

theorem gateway_key_rotation:
  assumes "quiet a" and "wd_salt w \<noteq> []" and "\<And>p. cr_pbkdf2 (wd_crypto w) p (wd_salt w) \<noteq> []"
    and "admin_set_gateway_auth w rq payload a = Returned r b"
  shows "au_enabled (st_gateway_auth b) \<and> au_source (st_gateway_auth b) = ''managed''
    \<and> (\<forall>token. credentials_match (auth_env_of w b) token = Inr (py_strip token \<noteq> []
         \<and> cr_pbkdf2 (wd_crypto w) (utf8_encode (py_strip token)) (wd_salt w)
           = cr_pbkdf2 (wd_crypto w) (utf8_encode (py_strip (body_text w payload ''key''))) (wd_salt w)))"
proof -
  let ?key = "body_text w payload ''key''"
  from assms(4) obtain c config where chk: "admin_check w rq a = Returned () c"
    and config: "create_gateway_auth_config (wd_crypto w) (wd_salt w) ?key = Inr config"
    and store: "store_gateway_auth w ''enabled'' (Some (ga_token_salt_b64 config)) (Some (ga_token_hash_b64 config)) c
        = Returned r b"
    by (auto simp: admin_set_gateway_auth_def Let_def returned_iff)
  from check_returned [OF chk] assms(1) have q: "quiet c" by auto
  let ?st = "SetGatewayAuthConfig ''enabled'' (Some (ga_token_salt_b64 config)) (Some (ga_token_hash_b64 config)) (wd_now w)"
  let ?t = "set_auth ''enabled'' (Some (ga_token_salt_b64 config)) (Some (ga_token_hash_b64 config)) (wd_now w) (committed c)"
  have "exec_stmt ?st (committed c) = Some ?t" by simp
  from changed_and_reloaded [OF q this store [unfolded store_gateway_auth_def]] obtain db s d where
    d: "committed (c\<lparr>st_db := db\<rparr>) = ?t" "reloaded w (c\<lparr>st_db := db\<rparr>) s d" "b = d"
    by (auto simp: returned_iff)
  then have auth: "st_gateway_auth b = resolve_gateway_auth_state s ?t" by (simp add: reloaded_def)
  obtain row where row: "t_auth ?t = Some row" "a_mode row = ''enabled''"
    "a_token_salt_b64 row = Some (ga_token_salt_b64 config)" "a_token_hash_b64 row = Some (ga_token_hash_b64 config)"
    by (cases "t_auth (committed c)") (simp_all add: set_auth_def)
  from stored_key_in_force [OF config assms(2,3) row, of s] auth
  have f: "au_enabled (st_gateway_auth b)" "au_source (st_gateway_auth b) = ''managed''"
    "au_config (st_gateway_auth b) = Some config" by simp_all
  have "credentials_match (auth_env_of w b) token = verify_gateway_auth_token (wd_crypto w) token config" for token
    using f by (simp add: credentials_match_def auth_env_of_def Let_def)
  with f gateway_token_accepted_iff [OF config] show ?thesis by simp
qed

theorem gateway_key_rotation_witness:
  "\<exists>r b. admin_set_gateway_auth idle_world anonymous [(''key'', JStr '' new '')] example_app = Returned r b
     \<and> credentials_match (auth_env_of idle_world b) ''new'' = Inr True"
proof -
  have key: "body_text idle_world [(''key'', JStr '' new '')] ''key'' = ''new''" by code_simp
  have "case create_gateway_auth_config (wd_crypto idle_world) (wd_salt idle_world) ''new'' of Inl e \<Rightarrow> False
    | Inr config \<Rightarrow> loads idle_world (set_auth ''enabled'' (Some (ga_token_salt_b64 config)) (Some (ga_token_hash_b64 config))
        (wd_now idle_world) (committed example_app)) (st_secret_store example_app)" by code_simp
  then obtain config where config: "create_gateway_auth_config (wd_crypto idle_world) (wd_salt idle_world) ''new'' = Inr config"
    and l: "loads idle_world (set_auth ''enabled'' (Some (ga_token_salt_b64 config)) (Some (ga_token_hash_b64 config))
        (wd_now idle_world) (committed example_app)) (st_secret_store example_app)" by (auto split: sum.splits)
  have "exec_stmt (SetGatewayAuthConfig ''enabled'' (Some (ga_token_salt_b64 config)) (Some (ga_token_hash_b64 config))
      (wd_now idle_world)) (committed example_app) = Some (set_auth ''enabled'' (Some (ga_token_salt_b64 config))
      (Some (ga_token_hash_b64 config)) (wd_now idle_world) (committed example_app))" by simp
  from change_returns [OF example_app_quiet this l, of "\<lambda>a. AuthReply (gateway_auth_status a)"] obtain r b where
    st: "store_gateway_auth idle_world ''enabled'' (Some (ga_token_salt_b64 config)) (Some (ga_token_hash_b64 config)) example_app
      = Returned r b" unfolding store_gateway_auth_def by blast
  have "\<not> au_enabled (st_gateway_auth example_app)" by code_simp
  then have run: "admin_set_gateway_auth idle_world anonymous [(''key'', JStr '' new '')] example_app = Returned r b"
    using config st by (simp add: admin_set_gateway_auth_def key Let_def returned_iff open_check)
  have salt: "wd_salt idle_world \<noteq> []" "cr_pbkdf2 (wd_crypto idle_world) p (wd_salt idle_world) \<noteq> []" for p
    by (simp_all add: idle_world_def toy_crypto_def)
  have "py_strip ''new'' = ''new''" by code_simp
  with gateway_key_rotation [OF example_app_quiet salt run] run show ?thesis by (auto simp: key)
qed

section \<open>Storing a secret\<close>

lemma decrypted_lookup:
  "decrypt_mapping cr store enc = Inr (secrets, failures) \<Longrightarrow> map_of enc k = Some v \<Longrightarrow>
   store_decrypt cr store (Some k) v = Inr plain \<Longrightarrow> map_of secrets k = Some plain"
proof (induction enc arbitrary: secrets failures)
  case (Cons x rest)
  obtain k' v' where x: "x = (k', v')" by fastforce
  with Cons show ?case by (auto simp: sbind_Inr split: sum.splits secret_error.splits if_splits)
qed simp

lemma encrypt_decrypt:
  "(\<And>k n p. cr_fernet_decrypt cr k (cr_fernet_encrypt cr k n p) = Some p) \<Longrightarrow>
   store_decrypt cr store key (store_encrypt cr store nonce v) = Inr v"
  by (simp add: store_decrypt_def store_encrypt_def utf8_roundtrip)

lemma openrouter_key_kept: "openrouter_api_key (fold (managed_secret_step secrets) ps s) = openrouter_api_key s"
  by (induction ps arbitrary: s) (simp_all add: managed_secret_step_def split: option.split)

text \<open>
  C24 (roundtrip). On a gateway with a running writer and an empty queue, a secret stored under one of the
  keys the settings read is in force when the endpoint answers: the text of the request, encrypted
  into the table, decrypts with the open vault into the settings the gateway now runs with, whatever
  the environment and the file say. Those keys are \<open>openrouter_api_key\<close>, the key of OpenRouter, and
  \<open>providers.<p>.api_key\<close>, the configured key of \<open>p\<close>, for the built-in providers \<open>p\<close> other than OpenRouter,
  written without blanks around \<open>p\<close>. The endpoint accepts more keys than these; see below.
\<close>

theorem stored_secret_takes_effect:
  assumes "quiet a" and fernet: "\<And>k n p. cr_fernet_decrypt (wd_crypto w) k (cr_fernet_encrypt (wd_crypto w) k n p) = Some p"
    and "admin_set_secret w rq key payload a = Returned r b"
  shows "\<exists>v. secret_value w payload = Inr v
    \<and> (py_strip key = ''openrouter_api_key'' \<longrightarrow> openrouter_api_key (st_settings b) = v)
    \<and> (\<forall>p. p \<in> fst ` set PROVIDER_DEFAULT_API_KEY_ENVS \<and> p \<noteq> ''openrouter'' \<and> py_strip p = p \<and> p \<noteq> []
          \<and> py_strip key = ''providers.'' @ p @ ''.api_key''
        \<longrightarrow> dict_get (get_provider_bootstrap_config (st_settings b) p) ''api_key'' JNull = JStr v)"
proof -
  let ?key = "py_strip key"
  from assms(3) obtain c v store where chk: "admin_check w rq a = Returned () c"
    and v: "secret_value w payload = Inr v"
    and unlocked: "require_secret_management_unlocked c = Returned store c"
    and run: "change_secret w ''updated'' ?key
        (SetManagedSecret ?key (store_encrypt (wd_crypto w) store (wd_nonce w) v) (wd_now w)) c = Returned r b"
    by (auto simp: admin_set_secret_def Let_def returned_iff require_secret_management_unlocked_def split: if_splits option.splits)
  let ?enc = "store_encrypt (wd_crypto w) store (wd_nonce w) v"
  from check_returned [OF chk] assms(1) have q: "quiet c" by auto
  have open_vault: "st_secret_store c = Some store"
    using unlocked by (auto simp: require_secret_management_unlocked_def returned_iff split: if_splits option.splits)
  have "exec_stmt (SetManagedSecret ?key ?enc (wd_now w)) (committed c) = Some (set_secret ?key ?enc (wd_now w) (committed c))"
    by simp
  from changed_and_reloaded [OF q this run [unfolded change_secret_def]] obtain db s d where
    d: "committed (c\<lparr>st_db := db\<rparr>) = set_secret ?key ?enc (wd_now w) (committed c)" "reloaded w (c\<lparr>st_db := db\<rparr>) s d" "b = d"
    by (auto simp: returned_iff)
  let ?t = "set_secret ?key ?enc (wd_now w) (committed c)"
  from d open_vault obtain loaded secrets status where
    l: "load_managed_secrets (wd_crypto w) ?t (Some store) (get_secret_vault_config ?t) = Inr (secrets, status)"
    and s: "s = apply_managed_secrets secrets loaded" and sb: "st_settings b = s"
    by (auto simp: reloaded_def dest!: in_forceD)
  from l obtain failures where
    dec: "decrypt_mapping (wd_crypto w) store (get_managed_secret_values ?t) = Inr (secrets, failures)"
    by (auto simp: load_managed_secrets_def Let_def split: sum.splits)
  have "map_of (get_managed_secret_values ?t) ?key = Some ?enc"
    by (simp add: get_managed_secret_values_def map_of_map [unfolded comp_def] set_secret_def update_conv' split: option.split)
  from decrypted_lookup [OF dec this] encrypt_decrypt [OF fernet] have look: "map_of secrets ?key = Some v" by blast
  have "openrouter_api_key s = v" if "?key = ''openrouter_api_key''"
    using look that by (simp add: s apply_managed_secrets_def Let_def openrouter_key_kept)
  moreover have "dict_get (get_provider_bootstrap_config s p) ''api_key'' JNull = JStr v"
    if p: "p \<in> fst ` set PROVIDER_DEFAULT_API_KEY_ENVS" "p \<noteq> ''openrouter''" "py_strip p = p" "p \<noteq> []"
      "?key = ''providers.'' @ p @ ''.api_key''" for p
  proof -
    have "p \<in> set (supported_provider_ids loaded)" using p(1,4) by (auto simp: supported_provider_ids_def)
    moreover have "map_of secrets (''providers.'' @ p @ ''.api_key'') = Some v" using look p(5) by simp
    ultimately show ?thesis using managed_secret_reaches_provider [OF _ p(2,3)] by (simp add: s)
  qed
  ultimately show ?thesis using v sb by blast
qed

definition vault_app :: app_state where
  "vault_app = example_app\<lparr>st_vault_config := Some \<lparr>vc_salt_b64 = ''c2FsdA=='', vc_verifier_encrypted = ''x''\<rparr>,
     st_secret_store := Some ''k''\<rparr>"

theorem stored_secret_takes_effect_witness:
  "\<exists>r b. admin_set_secret idle_world anonymous ''openrouter_api_key'' [(''value'', JStr ''sk'')] vault_app = Returned r b
     \<and> openrouter_api_key (st_settings b) = ''sk''"
proof -
  let ?key = "''openrouter_api_key''" and ?payload = "[(''value'', JStr ''sk'')]"
  let ?st = "SetManagedSecret ?key (store_encrypt (wd_crypto idle_world) ''k'' (wd_nonce idle_world) ''sk'') (wd_now idle_world)"
  have q: "quiet vault_app" using example_app_quiet by (simp add: vault_app_def quiet_def)
  have key: "py_strip ?key = ?key" "is_managed_secret_key ?key" by code_simp+
  have v: "secret_value idle_world ?payload = Inr ''sk''" by code_simp
  have "case exec_stmt ?st (committed vault_app) of None \<Rightarrow> False | Some t \<Rightarrow> loads idle_world t (st_secret_store vault_app)"
    by code_simp
  then obtain t where t: "exec_stmt ?st (committed vault_app) = Some t" "loads idle_world t (st_secret_store vault_app)"
    by (auto split: option.splits)
  from change_returns [OF q t, of "\<lambda>a. SecretChanged ''updated'' ?key (slots_now idle_world a)"] obtain r b where
    st: "change_secret idle_world ''updated'' ?key ?st vault_app = Returned r b" unfolding change_secret_def by blast
  have "\<not> au_enabled (st_gateway_auth vault_app)" by code_simp
  then have chk: "admin_check idle_world anonymous vault_app = Returned () vault_app" by (rule open_check)
  have store: "require_secret_management_unlocked vault_app = Returned ''k'' vault_app"
    by (simp add: require_secret_management_unlocked_def returned_iff vault_app_def)
  have run: "admin_set_secret idle_world anonymous ?key ?payload vault_app = Returned r b"
    unfolding admin_set_secret_def Let_def key returned_iff using chk store st v key(2) by blast
  have fernet: "cr_fernet_decrypt (wd_crypto idle_world) k (cr_fernet_encrypt (wd_crypto idle_world) k n p) = Some p" for k n p
    by (simp add: idle_world_def toy_crypto_def)
  from stored_secret_takes_effect [OF q fernet run] run v key show ?thesis by auto
qed

text \<open>
  A key the endpoint accepts and the settings ignore: \<open>providers.openrouter.api_key\<close> is a managed secret
  key, but storing it changes no setting, whatever else is stored.
\<close>

theorem openrouter_provider_secret_ignored:
  "is_managed_secret_key ''providers.openrouter.api_key''
   \<and> apply_managed_secrets (AList.update ''providers.openrouter.api_key'' v secrets) s = apply_managed_secrets secrets s"
proof -
  let ?k = "''providers.openrouter.api_key''"
  have "managed_secret_step (AList.update ?k v secrets) p = managed_secret_step secrets p" for p
  proof (cases "p = ''openrouter''")
    case False
    have "?k = ''providers.'' @ ''openrouter'' @ ''.api_key''" by simp
    with False have "''providers.'' @ p @ ''.api_key'' \<noteq> ?k" by (simp only: same_append_eq append_same_eq not_False_eq_True)
    then show ?thesis by (intro ext) (simp add: managed_secret_step_def update_conv')
  qed (intro ext, simp add: managed_secret_step_def)
  then have "managed_secret_step (AList.update ?k v secrets) = managed_secret_step secrets" by (rule ext)
  moreover have "is_managed_secret_key ?k" by code_simp
  ultimately show ?thesis by (simp add: apply_managed_secrets_def update_conv')
qed

section \<open>The log page\<close>

lemma take_sorted_rest:
  assumes "sorted_wrt (\<lambda>x y. f y \<le> (f x :: int)) xs" and "y \<in> set (drop n xs)" and "x \<in> set (take n xs)"
  shows "f y \<le> f x"
proof -
  from assms(1) have "sorted_wrt (\<lambda>x y. f y \<le> f x) (take n xs @ drop n xs)" by simp
  with assms(2,3) show ?thesis unfolding sorted_wrt_append by blast
qed

lemma newest_logs_page:
  assumes "0 \<le> n"
  shows "\<exists>rest. mset (newest_logs f n t) + mset rest = mset (filter (log_selected f) (t_log t))
    \<and> int (length (newest_logs f n t)) = min n (count_if (log_selected f) (t_log t))
    \<and> sorted_wrt (\<lambda>x y. l_timestamp y \<le> l_timestamp x) (newest_logs f n t)
    \<and> list_all (\<lambda>old. list_all (\<lambda>new. l_timestamp old \<le> l_timestamp new) (newest_logs f n t)) rest"
proof -
  let ?all = "sort_desc l_timestamp (rev (filter (log_selected f) (t_log t)))"
  have page: "newest_logs f n t = take (nat n) ?all" using assms by (simp add: newest_logs_def sql_limit_def)
  have "mset (take (nat n) ?all) + mset (drop (nat n) ?all) = mset ?all"
    by (metis append_take_drop_id mset_append)
  then have part: "mset (newest_logs f n t) + mset (drop (nat n) ?all) = mset (filter (log_selected f) (t_log t))"
    by (simp add: page)
  have len: "int (length (newest_logs f n t)) = min n (count_if (log_selected f) (t_log t))"
    using assms by (auto simp: page count_if_def min_def)
  have "sorted_wrt (\<lambda>x y. l_timestamp y \<le> l_timestamp x) ?all" by (rule sort_desc_sorted)
  then have "sorted_wrt (\<lambda>x y. l_timestamp y \<le> l_timestamp x) (newest_logs f n t)"
    "list_all (\<lambda>old. list_all (\<lambda>new. l_timestamp old \<le> l_timestamp new) (newest_logs f n t)) (drop (nat n) ?all)"
    using take_sorted_rest [of l_timestamp ?all _ "nat n"] by (auto simp: page list_all_iff intro: sorted_wrt_take)
  with part len show ?thesis by blast
qed

text \<open>
  The log page is complete up to its limit. Whatever rows are still queued when an
  authorised request arrives, the page is computed from the table with all of them: it holds only rows
  that pass the filters, newest first, as many as there are up to a limit between 1 and 500, and no
  row that was left out is newer than one that is shown.
\<close>

theorem log_page_complete:
  assumes "running (st_db a)" and "settled (st_db a) = Some t" and "admin_check w rq a = Returned () c"
  shows "\<exists>rows rest b. admin_logs w rq limit f a
      = Returned (LogsReply (map serialize_log_row rows) (min (max limit 1) 500) f) b \<and> committed b = t
    \<and> mset rows + mset rest = mset (filter (log_selected f) (t_log t))
    \<and> int (length rows) = min (min (max limit 1) 500) (count_if (log_selected f) (t_log t))
    \<and> sorted_wrt (\<lambda>x y. l_timestamp y \<le> l_timestamp x) rows
    \<and> list_all (\<lambda>old. list_all (\<lambda>new. l_timestamp old \<le> l_timestamp new) rows) rest"
proof -
  let ?n = "min (max limit 1) 500"
  from check_returned [OF assms(3)] obtain ths where c: "c = a\<lparr>st_throttles := ths\<rparr>" by blast
  from flush_running [OF assms(1,2)] obtain db where db: "flush (st_db a) = Some db" "db_tables db = t" by blast
  let ?b = "c\<lparr>st_db := db\<rparr>"
  have "db_flush c = Returned () ?b" using db(1) c by (simp add: db_flush_def)
  moreover have tabs: "committed ?b = t" using db(2) by (simp add: committed_def)
  ultimately have run: "admin_logs w rq limit f a = Returned (LogsReply (map serialize_log_row (newest_logs f ?n t)) ?n f) ?b"
    using assms(3) by (simp add: admin_logs_def Let_def returned_iff)
  have "0 \<le> ?n" by simp
  from newest_logs_page [OF this, of f t] run tabs show ?thesis by blast
qed

theorem log_page_complete_witness:
  "\<exists>rows b. admin_logs idle_world anonymous 0 \<lparr>lf_success_only = None, lf_provider_id = Some ''openrouter'',
       lf_request_source = None, lf_model_id = None\<rparr>
       (example_app\<lparr>st_db := (st_db example_app)\<lparr>db_tables := healthy_tables\<lparr>t_log := [reviewed_log None JNull 0 True,
          reviewed_log None JNull 1 True]\<rparr>\<rparr>\<rparr>)
     = Returned (LogsReply (map serialize_log_row rows) 1 \<lparr>lf_success_only = None, lf_provider_id = Some ''openrouter'',
       lf_request_source = None, lf_model_id = None\<rparr>) b \<and> length rows = 1"
proof -
  let ?t = "healthy_tables\<lparr>t_log := [reviewed_log None JNull 0 True, reviewed_log None JNull 1 True]\<rparr>"
  let ?a = "example_app\<lparr>st_db := (st_db example_app)\<lparr>db_tables := ?t\<rparr>\<rparr>"
  let ?f = "\<lparr>lf_success_only = None, lf_provider_id = Some ''openrouter'', lf_request_source = None, lf_model_id = None\<rparr>"
  have q: "quiet ?a" using example_app_quiet by (simp add: quiet_def running_def writer_defs)
  then have r: "running (st_db ?a)" by (simp add: quiet_def)
  have s: "settled (st_db ?a) = Some ?t" using quiet_settled [OF q] by (simp add: committed_def)
  have "\<not> au_enabled (st_gateway_auth ?a)" by code_simp
  from log_page_complete [OF r s open_check [OF this], of idle_world anonymous 0 ?f] obtain rows b where
    rows: "admin_logs idle_world anonymous 0 ?f ?a = Returned (LogsReply (map serialize_log_row rows) (min (max 0 1) 500) ?f) b"
      "int (length rows) = min (min (max 0 1) 500) (count_if (log_selected ?f) (t_log ?t))" by blast
  have "count_if (log_selected ?f) (t_log ?t) = 2" by code_simp
  with rows show ?thesis by auto
qed

section \<open>Disabling a model\<close>

text \<open>
  C21 (safety). When the disable endpoint has answered, the model is out: no request that selects its
  candidates from the tables as they then are gets it, by name or automatically or as the fallback,
  and the readiness flag counts only other models.
\<close>

theorem disabled_model_not_routed:
  assumes "quiet a" and "registry_wf (st_registry a)" and "admin_disable_model w rq i a = Returned r b"
    and "pick_candidates (committed b) now te req prefs fb limit = Inr ps"
  shows "i \<notin> set (map p_id ps) \<and> quiet b
    \<and> (st_ready b \<longleftrightarrow> (\<exists>m \<in> set (t_models (committed b)). m_is_active m \<and> m_is_healthy m \<and> m_id m \<noteq> i))"
proof -
  from assms(3) obtain c d e u where chk: "admin_check w rq a = Returned () c"
    and wr: "act_then (db_write (SetModelActive i False)) (act_then db_flush (act_then recompute_readiness (act_return ()))) c
      = Returned () b"
    unfolding admin_disable_model_def switch_model_def returned_iff by auto
  from check_returned [OF chk] assms(1,2) have q: "quiet c" and reg: "registry_wf (st_registry c)" by auto
  let ?t = "update_models (\<lambda>m. m_id m = i) (\<lambda>m. m\<lparr>m_is_active := False\<rparr>) (committed c)"
  have "exec_stmt (SetModelActive i False) (committed c) = Some ?t" by simp
  from written_through [OF q this] obtain db where
    db: "act_then (db_write (SetModelActive i False)) (act_then db_flush (act_then recompute_readiness (act_return ()))) c
      = act_then recompute_readiness (act_return ()) (c\<lparr>st_db := db\<rparr>)"
    "quiet (c\<lparr>st_db := db\<rparr>)" "committed (c\<lparr>st_db := db\<rparr>) = ?t" by blast
  have "registry_wf (st_registry (c\<lparr>st_db := db\<rparr>))" using reg by simp
  from readiness_facts [OF db(2) this] obtain ready db' where
    rd: "recompute_readiness (c\<lparr>st_db := db\<rparr>) = Returned ready ((c\<lparr>st_db := db\<rparr>)\<lparr>st_db := db', st_ready := ready\<rparr>)"
    "running db'" "w_queue db' = []"
    "ready \<longleftrightarrow> (\<exists>m \<in> set (t_models (db_tables db')). m_is_active m \<and> m_is_healthy m)"
    "\<forall>m \<in> set (t_models (db_tables db')). m_is_active m \<longrightarrow> m \<in> set (t_models (committed (c\<lparr>st_db := db\<rparr>)))
       \<and> (py_strip (m_provider_id m) = [] \<or> routable (st_registry (c\<lparr>st_db := db\<rparr>)) (m_provider_id m))"
    by blast
  from wr have b: "b = c\<lparr>st_db := db', st_ready := ready\<rparr>" by (simp add: db(1) returned_iff rd(1))
  have off: "m_id m \<noteq> i" if "m \<in> set (t_models (committed b))" "m_is_active m" for m
  proof -
    from that rd(5) have "m \<in> set (t_models ?t)" unfolding db(3) by (simp add: b committed_def)
    then obtain m1 where "m1 \<in> set (t_models (committed c))" "m = (if m_id m1 = i then m1\<lparr>m_is_active := False\<rparr> else m1)"
      by (rule in_update_models)
    with that(2) show ?thesis by (auto split: if_splits)
  qed
  have "p_id p \<noteq> i" if "p \<in> set ps" for p
  proof -
    from pick_row [OF assms(4) that] obtain m where "m \<in> set (t_models (committed b))" "p = pick_of (serialize_candidate m)"
      "m_is_active m" by (auto simp: eligible_def)
    with off show ?thesis by (simp add: serialize_candidate_def)
  qed
  moreover have "st_ready b \<longleftrightarrow> (\<exists>m \<in> set (t_models (committed b)). m_is_active m \<and> m_is_healthy m \<and> m_id m \<noteq> i)"
    using rd(4) off by (auto simp: b committed_def)
  moreover have "quiet b" using rd(2,3) by (simp add: b quiet_def)
  ultimately show ?thesis by auto
qed

definition serving_app :: app_state where
  "serving_app = app_init default_settings healthy_tables no_secrets example_registry"

theorem disabled_model_not_routed_witness:
  "\<exists>b ps. admin_disable_model idle_world anonymous ''m2'' serving_app = Returned (ModelSwitched ''disabled'' ''m2'') b
     \<and> pick_candidates (committed b) 100 no_tokenizers (example_request ''auto'') None ''openrouter/openrouter/free'' 3 = Inr ps
     \<and> ''m2'' \<notin> set (map p_id ps)"
proof -
  have q: "quiet serving_app" by code_simp
  have reg: "registry_wf (st_registry serving_app)" by code_simp
  have ev: "case admin_disable_model idle_world anonymous ''m2'' serving_app of
      Returned r b \<Rightarrow> r = ModelSwitched ''disabled'' ''m2'' \<and> map m_is_active (t_models (committed b)) = [True, False]
    | _ \<Rightarrow> False" by code_simp
  then obtain b where b: "admin_disable_model idle_world anonymous ''m2'' serving_app = Returned (ModelSwitched ''disabled'' ''m2'') b"
    by (auto split: outcome.splits)
  have "case admin_disable_model idle_world anonymous ''m2'' serving_app of Returned r b \<Rightarrow>
      (case pick_candidates (committed b) 100 no_tokenizers (example_request ''auto'') None ''openrouter/openrouter/free'' 3 of
         Inl e \<Rightarrow> False | Inr ps \<Rightarrow> map p_id ps = [''m1'']) | _ \<Rightarrow> False" by code_simp
  with b obtain ps where ps:
    "pick_candidates (committed b) 100 no_tokenizers (example_request ''auto'') None ''openrouter/openrouter/free'' 3 = Inr ps"
    by (auto split: sum.splits)
  from disabled_model_not_routed [OF q reg b ps] b ps show ?thesis by blast
qed

end
