(* ===== verification/FL_System.thy ===== *)
theory FL_System
  imports FL_Admin FL_Endpoint
begin

text \<open>
  The gateway as one system. A state of the application changes by an administration call, a job of
  the scheduler, a chat request, the end of a relayed stream, a step of the writer thread, or the
  shutdown, in any order (\<open>gateway_step\<close>).

  What all of them keep is stated once: the locale \<open>gateway_property\<close> asks how a property of the
  database, the registry and the settings fares under the few elementary changes, and concludes
  that every handler and job keeps it. It is interpreted for the primary keys and the queue, for
  the bounds of the settings, and for the hosts that receive the keys.
\<close>

section \<open>Steps of the system\<close>

text \<open>What a request hands to the writer: statements wait for room, log rows are dropped without it.\<close>

fun submit :: "effect list \<Rightarrow> database \<Rightarrow> database option" where
  "submit [] db = Some db"
| "submit (EffWrite s # es) db = (case enqueue s db of None \<Rightarrow> None | Some db' \<Rightarrow> submit es db')"
| "submit (EffLog l # es) db = submit es (snd (enqueue_low (InsertLog l) db))"

datatype job = DiscoveryJob | RankJob | HealthJob | MaintenanceJob | ConfigRefreshJob | StartUp

definition ignoring :: "'a action \<Rightarrow> unit action" where
  "ignoring m = act_then m (act_return ())"

fun run_job :: "world \<Rightarrow> job \<Rightarrow> unit action" where
  "run_job w DiscoveryJob = ignoring (discovery_runner w)"
| "run_job w RankJob = rank_job w"
| "run_job w HealthJob = health_job w"
| "run_job w MaintenanceJob = ignoring (maintenance_job w)"
| "run_job w ConfigRefreshJob = ignoring (config_refresh_job w)"
| "run_job w StartUp = start_pipeline w"

text \<open>The state an action leaves, if it ends.\<close>

definition leaves :: "'a outcome \<Rightarrow> app_state option" where
  "leaves r = (case r of Returned x b \<Rightarrow> Some b | Raised e b \<Rightarrow> Some b | Blocked \<Rightarrow> None)"

definition chat_step :: "proxy_env \<Rightarrow> auth_env \<Rightarrow> chat_world \<Rightarrow> http_request \<Rightarrow> app_state \<Rightarrow> app_state option" where
  "chat_step px ae cw r a =
    (case chat_completions px ae (st_ready a) cw r (st_throttles a) of
       ((reply, es), ths) \<Rightarrow> map_option (\<lambda>db. a\<lparr>st_throttles := ths, st_db := db\<rparr>) (submit es (st_db a)))"

inductive gateway_step :: "(world \<Rightarrow> bool) \<Rightarrow> app_state \<Rightarrow> app_state \<Rightarrow> bool" for ok :: "world \<Rightarrow> bool" where
  admin: "ok (an_world an) \<Longrightarrow> leaves (admin_route an rq call a) = Some b \<Longrightarrow> gateway_step ok a b"
| job: "ok w \<Longrightarrow> leaves (run_job w j a) = Some b \<Longrightarrow> gateway_step ok a b"
| chat: "ok w \<Longrightarrow> px_settings px = st_settings a \<Longrightarrow> px_registry px = st_registry a
    \<Longrightarrow> chat_step px (auth_env_of w a) cw r a = Some b \<Longrightarrow> gateway_step ok a b"
| relay: "relay_stream env cat (st_settings a) cx rw first items = Inr (out, es) \<Longrightarrow> submit es (st_db a) = Some db
    \<Longrightarrow> gateway_step ok a (a\<lparr>st_db := db\<rparr>)"
| writer: "writer_step (st_db a) = Some db \<Longrightarrow> gateway_step ok a (a\<lparr>st_db := db\<rparr>)"
| shutdown: "leaves (lifespan_shutdown a) = Some b \<Longrightarrow> gateway_step ok a b"

inductive gateway_reach :: "(world \<Rightarrow> bool) \<Rightarrow> app_state \<Rightarrow> app_state \<Rightarrow> bool" for ok :: "world \<Rightarrow> bool" where
  refl: "gateway_reach ok a a"
| step: "gateway_reach ok a b \<Longrightarrow> gateway_step ok b c \<Longrightarrow> gateway_reach ok a c"

section \<open>Actions that keep a property\<close>

definition act_keeps :: "(app_state \<Rightarrow> bool) \<Rightarrow> 'a action \<Rightarrow> bool" where
  "act_keeps P m = (\<forall>a. P a \<longrightarrow> act_wp m (\<lambda>x. P) (\<lambda>e. P) a)"

named_theorems keeps_rules \<open>composition rules for actions that keep a property\<close>

lemma act_keepsI: "(\<And>a. P a \<Longrightarrow> act_wp m (\<lambda>x. P) (\<lambda>e. P) a) \<Longrightarrow> act_keeps P m"
  by (simp add: act_keeps_def)

lemma act_keeps_leaves: "act_keeps P m \<Longrightarrow> P a \<Longrightarrow> leaves (m a) = Some b \<Longrightarrow> P b"
  unfolding act_keeps_def by (drule spec [of _ a]) (cases "m a"; simp add: act_wp_def leaves_def)

lemma act_keeps_basic [keeps_rules]:
  "act_keeps P (act_return x)"
  "act_keeps P (act_raise e)"
  "act_keeps P (act_get g)"
  "act_keeps P (act_lift r)"
  "act_keeps P (act_py q)"
  "act_keeps P (require c st d)"
  by (simp_all add: act_keeps_def act_wp_def act_return_def act_raise_def act_get_def act_lift_def act_py_def require_def
      split: sum.split)

lemma act_keeps_bind [keeps_rules]:
  assumes "act_keeps P m" and "\<And>x. act_keeps P (f x)"
  shows "act_keeps P (act_bind m f)"
proof (rule act_keepsI)
  fix a assume "P a"
  with assms(1) have m: "act_wp m (\<lambda>x. P) (\<lambda>e. P) a" by (simp add: act_keeps_def)
  show "act_wp (act_bind m f) (\<lambda>x. P) (\<lambda>e. P) a"
  proof (cases "m a")
    case (Returned x b)
    with m have "P b" by (simp add: act_wp_def)
    with assms(2) [of x] Returned show ?thesis by (simp add: act_keeps_def act_wp_def act_bind_def)
  qed (use m in \<open>simp_all add: act_wp_def act_bind_def\<close>)
qed

lemma act_keeps_then [keeps_rules]: "act_keeps P m \<Longrightarrow> act_keeps P k \<Longrightarrow> act_keeps P (act_then m k)"
  unfolding act_then_def by (rule act_keeps_bind)

lemma act_keeps_with [keeps_rules]: "(\<And>a. act_keeps P (f a)) \<Longrightarrow> act_keeps P (act_with f)"
  by (simp add: act_keeps_def act_wp_def act_with_def)

lemma act_keeps_modify: "(\<And>a. P a \<Longrightarrow> P (f a)) \<Longrightarrow> act_keeps P (act_modify f)"
  by (simp add: act_keeps_def act_wp_def act_modify_def)

lemma act_keeps_cases [keeps_rules]:
  "\<lbrakk>c \<Longrightarrow> act_keeps P m; \<not> c \<Longrightarrow> act_keeps P n\<rbrakk> \<Longrightarrow> act_keeps P (if c then m else n)"
  "\<lbrakk>x = None \<Longrightarrow> act_keeps P m; \<And>y. x = Some y \<Longrightarrow> act_keeps P (f y)\<rbrakk> \<Longrightarrow> act_keeps P (case x of None \<Rightarrow> m | Some y \<Rightarrow> f y)"
  "\<lbrakk>\<And>e. s = Inl e \<Longrightarrow> act_keeps P (g e); \<And>y. s = Inr y \<Longrightarrow> act_keeps P (h y)\<rbrakk>
   \<Longrightarrow> act_keeps P (case s of Inl e \<Rightarrow> g e | Inr y \<Rightarrow> h y)"
  "(\<And>u v. p = (u, v) \<Longrightarrow> act_keeps P (k u v)) \<Longrightarrow> act_keeps P (case p of (u, v) \<Rightarrow> k u v)"
  by (auto split: option.split sum.split prod.split)

lemma act_keeps_ignoring [keeps_rules]: "act_keeps P m \<Longrightarrow> act_keeps P (ignoring m)"
  unfolding ignoring_def by (intro keeps_rules)

section \<open>Properties of the whole gateway\<close>

text \<open>The settings a world can load, whatever is stored in the tables and the vault.\<close>

definition may_load :: "world \<Rightarrow> settings \<Rightarrow> bool" where
  "may_load w s = (\<exists>t loaded secrets. load_settings w t = Inr loaded \<and> s = apply_managed_secrets secrets loaded)"

definition holds :: "(database \<Rightarrow> registry \<Rightarrow> settings \<Rightarrow> bool) \<Rightarrow> app_state \<Rightarrow> bool" where
  "holds safe a = safe (st_db a) (st_registry a) (st_settings a)"

locale gateway_property =
  fixes ok :: "world \<Rightarrow> bool"
    and safe :: "database \<Rightarrow> registry \<Rightarrow> settings \<Rightarrow> bool"
  assumes inv_db_step: "safe db reg s \<Longrightarrow> db_step ev db db' \<Longrightarrow> safe db' reg s"
    and inv_prune: "safe db reg s \<Longrightarrow> safe (db\<lparr>db_tables := (db_tables db)\<lparr>t_log := filter keep (t_log (db_tables db))\<rparr>\<rparr>) reg s"
    and inv_registry: "\<lbrakk>safe db reg s; ok w; may_load w s'; register_configured (wd_cfg w) (wd_urls w) s' = (reg', e)\<rbrakk>
      \<Longrightarrow> safe db reg' s \<and> safe db (sync_registry_runtime_gating s' reg') s"
    and inv_settings: "\<lbrakk>safe db reg s; ok w; may_load w s'\<rbrakk> \<Longrightarrow> safe db reg s'"
begin

lemma flush_inv: "flush db = Some db' \<Longrightarrow> safe db reg s \<Longrightarrow> safe db' reg s"
proof (induction db rule: flush.induct)
  case (1 db)
  show ?case
  proof (cases "w_queue db = []")
    case True
    with 1(2,3) show ?thesis by (simp add: flush.simps [of db])
  next
    case False
    with 1(2) obtain db1 where db1: "writer_step db = Some db1" "flush db1 = Some db'"
      by (auto simp: flush.simps [of db] split: option.splits)
    from inv_db_step [OF 1(3) db_step.writer [OF db1(1)]] show ?thesis
      using 1(1) [OF False db1(1) db1(2)] by simp
  qed
qed

lemma submit_inv: "submit es db = Some db' \<Longrightarrow> safe db reg s \<Longrightarrow> safe db' reg s"
proof (induction es db rule: submit.induct)
  case (2 st es db)
  then show ?case by (auto split: option.splits intro: inv_db_step db_step.hiwrite)
next
  case (3 l es db)
  obtain b db1 where db1: "enqueue_low (InsertLog l) db = (b, db1)" by fastforce
  with 3 show ?case using inv_db_step [OF 3(3) db_step.log [OF db1]] by simp
qed simp

lemma write_keeps: "act_keeps (holds safe) (db_write st)"
  by (rule act_keepsI)
    (auto simp: act_wp_def db_write_def holds_def split: option.split intro: inv_db_step db_step.hiwrite)

lemma writes_keep: "act_keeps (holds safe) (db_writes sts)"
  by (induction sts) (auto intro: keeps_rules write_keeps)

lemma flush_keeps: "act_keeps (holds safe) db_flush"
  by (rule act_keepsI) (auto simp: act_wp_def db_flush_def holds_def split: option.split intro: flush_inv)

lemma check_keeps: "act_keeps (holds safe) (with_throttles check w)"
  by (rule act_keepsI) (simp add: act_wp_def with_throttles_def holds_def split: prod.split sum.split)

text \<open>A change of a field the property does not read.\<close>

lemma rest_keeps:
  assumes "\<And>a. st_db (f a) = st_db a" and "\<And>a. st_registry (f a) = st_registry a" and "\<And>a. st_settings (f a) = st_settings a"
  shows "act_keeps (holds safe) (act_modify f)"
  by (rule act_keeps_modify) (simp add: holds_def assms)

lemma gating_keeps: "act_keeps (holds safe) (apply_provider_runtime_state s)"
  unfolding apply_provider_runtime_state_def Let_def by (intro keeps_rules writes_keep flush_keeps)

lemma readiness_keeps: "act_keeps (holds safe) recompute_readiness"
  unfolding recompute_readiness_def Let_def by (intro keeps_rules gating_keeps rest_keeps) simp_all

section \<open>Reload, jobs and administration\<close>

lemma registry_keeps:
  assumes "ok w" and "may_load w s'"
  shows "act_keeps (holds safe) (configure_registry w s')"
proof (rule act_keepsI)
  fix a assume a: "holds safe a"
  obtain reg e where r: "register_configured (wd_cfg w) (wd_urls w) s' = (reg, e)" by fastforce
  from inv_registry [OF a [unfolded holds_def] assms r] r
  show "act_wp (configure_registry w s') (\<lambda>x. holds safe) (\<lambda>e. holds safe) a"
    by (cases e) (simp_all add: act_wp_def configure_registry_def holds_def)
qed

lemma logging_keeps: "act_keeps (holds safe) (configure_database_logging s)"
  unfolding configure_database_logging_def
  by (rule act_keeps_modify) (auto simp: holds_def intro: inv_db_step db_step.policy)

lemma install_keeps:
  assumes "ok w" and "may_load w s'"
  shows "act_keeps (holds safe) (install_settings w t status s')"
  unfolding install_settings_def
proof (intro keeps_rules registry_keeps [OF assms] logging_keeps gating_keeps readiness_keeps)
  show "act_keeps (holds safe) (act_modify (\<lambda>b. b\<lparr>st_settings := s', st_vault_config := get_secret_vault_config t,
      st_secret_status := status, st_gateway_auth := resolve_gateway_auth_state s' t\<rparr>))"
    by (rule act_keeps_modify) (use assms inv_settings in \<open>auto simp: holds_def\<close>)
qed (rule rest_keeps; simp)

lemma reload_keeps:
  assumes "ok w"
  shows "act_keeps (holds safe) (reload_settings w)"
proof (rule act_keepsI)
  fix a assume a: "holds safe a"
  show "act_wp (reload_settings w) (\<lambda>x. holds safe) (\<lambda>e. holds safe) a"
  proof (cases "load_settings w (committed a)")
    case (Inl e)
    with a show ?thesis
      by (simp add: reload_settings_def act_wp_def act_bind_def act_with_def act_py_def act_raise_def)
  next
    case (Inr loaded)
    let ?rest = "act_with (\<lambda>a. let t = committed a in
      act_bind (act_lift (load_managed_secrets (wd_crypto w) t (st_secret_store a) (get_secret_vault_config t)))
        (\<lambda>(secrets, status). install_settings w t status (apply_managed_secrets secrets loaded)))"
    have "may_load w (apply_managed_secrets secrets loaded)" for secrets
      using Inr by (auto simp: may_load_def)
    then have "act_keeps (holds safe) ?rest"
      unfolding Let_def by (intro keeps_rules install_keeps [OF assms])
    moreover have "reload_settings w a = ?rest a"
      using Inr by (simp add: reload_settings_def act_bind_def act_with_def act_py_def act_return_def)
    ultimately show ?thesis using a by (simp add: act_keeps_def act_wp_def)
  qed
qed

lemma discovery_keeps: "act_keeps (holds safe) (discovery_action w s)"
  unfolding discovery_action_def by (intro keeps_rules writes_keep flush_keeps)

lemma ranking_keeps: "act_keeps (holds safe) (ranking_action w s)"
  unfolding ranking_action_def by (intro keeps_rules writes_keep)

lemma probe_keeps: "act_keeps (holds safe) (probe_action w s cs)"
  unfolding probe_action_def Let_def by (intro keeps_rules writes_keep)

lemma pipeline_keeps: "act_keeps (holds safe) (run_discovery_pipeline w s)"
  unfolding run_discovery_pipeline_def
  by (intro keeps_rules discovery_keeps ranking_keeps probe_keeps flush_keeps readiness_keeps)

lemma track_keeps:
  assumes "act_keeps (holds safe) m"
  shows "act_keeps (holds safe) (track_job w name m)"
proof (rule act_keepsI)
  fix a assume "holds safe a"
  then have "holds safe (mark_job name (mark_job_start (wd_now w)) a)" by (simp add: holds_def mark_job_def)
  with assms have "act_wp m (\<lambda>x. holds safe) (\<lambda>e. holds safe) (mark_job name (mark_job_start (wd_now w)) a)"
    by (simp add: act_keeps_def)
  then show "act_wp (track_job w name m) (\<lambda>x. holds safe) (\<lambda>e. holds safe) a"
    by (auto simp: act_wp_def track_job_def holds_def mark_job_def split: outcome.splits)
qed

lemma prune_keeps: "act_keeps (holds safe) (prune_old_logs now days)"
  unfolding prune_old_logs_def Let_def
proof (rule act_keeps_then [OF flush_keeps], rule act_keepsI)
  fix a assume "holds safe a"
  then have "holds safe (a\<lparr>st_db := (st_db a)\<lparr>db_tables := (committed a)\<lparr>t_log := filter keep (t_log (committed a))\<rparr>\<rparr>\<rparr>)" for keep
    by (simp add: holds_def committed_def inv_prune)
  then show "act_wp (act_with (\<lambda>a. act_then (act_modify (\<lambda>b. b\<lparr>st_db := (st_db b)\<lparr>db_tables :=
        (committed a)\<lparr>t_log := filter (\<lambda>l. now - 86400 * days \<le> l_timestamp l) (t_log (committed a))\<rparr>\<rparr>\<rparr>))
      (act_return (count_if (\<lambda>l. \<not> now - 86400 * days \<le> l_timestamp l) (t_log (committed a))))))
      (\<lambda>x. holds safe) (\<lambda>e. holds safe) a"
    by (simp add: act_wp_def act_with_def act_then_def act_bind_def act_modify_def act_return_def)
qed

lemma discovery_runner_keeps: "act_keeps (holds safe) (discovery_runner w)"
  unfolding discovery_runner_def
  by (intro track_keeps keeps_rules pipeline_keeps rest_keeps) simp_all

text \<open>A pipeline that raised is followed by the recomputation of readiness.\<close>

lemma rescue_keeps:
  assumes "act_keeps P m" and "act_keeps P k"
  shows "act_keeps P (\<lambda>b. case m b of Raised e c \<Rightarrow> k c | Returned r c \<Rightarrow> Returned (g r) c | Blocked \<Rightarrow> Blocked)"
proof (rule act_keepsI)
  fix b assume "P b"
  with assms(1) have "act_wp m (\<lambda>x. P) (\<lambda>e. P) b" by (simp add: act_keeps_def)
  moreover have "P c \<Longrightarrow> act_wp k (\<lambda>x. P) (\<lambda>e. P) c" for c using assms(2) by (simp add: act_keeps_def)
  ultimately show "act_wp (\<lambda>b. case m b of Raised e c \<Rightarrow> k c | Returned r c \<Rightarrow> Returned (g r) c | Blocked \<Rightarrow> Blocked)
      (\<lambda>x. P) (\<lambda>e. P) b"
    by (cases "m b") (simp_all add: act_wp_def)
qed

lemma start_keeps: "act_keeps (holds safe) (start_pipeline w)"
  unfolding start_pipeline_def register_jobs_def Let_def
  by (intro keeps_rules gating_keeps readiness_keeps rescue_keeps pipeline_keeps rest_keeps) simp_all

lemma job_keeps: "ok w \<Longrightarrow> act_keeps (holds safe) (run_job w j)"
  by (cases j)
    (simp_all add: rank_job_def health_job_def maintenance_job_def config_refresh_job_def start_keeps,
      (intro keeps_rules track_keeps discovery_runner_keeps ranking_keeps probe_keeps prune_keeps reload_keeps
        flush_keeps readiness_keeps; assumption?)+)

lemma admin_check_keeps: "act_keeps (holds safe) (admin_check w rq)"
  unfolding admin_check_def by (rule check_keeps)

lemma tail_keeps: "ok w \<Longrightarrow> act_keeps (holds safe) (flush_and_reload w)"
  unfolding flush_and_reload_def by (intro keeps_rules flush_keeps reload_keeps)

lemma store_keeps: "ok w \<Longrightarrow> act_keeps (holds safe) (install_store w store status)"
  unfolding install_store_def by (intro keeps_rules reload_keeps rest_keeps) simp_all

lemma unlocked_keeps: "act_keeps (holds safe) require_secret_management_unlocked"
  unfolding require_secret_management_unlocked_def by (intro keeps_rules)

lemmas admin_parts = admin_check_keeps write_keeps flush_keeps readiness_keeps tail_keeps store_keeps unlocked_keeps
  check_keeps reload_keeps discovery_runner_keeps

lemma views_keep:
  "act_keeps (holds safe) (list_models w rq)" "act_keeps (holds safe) (admin_models w rq)"
  "act_keeps (holds safe) (admin_model_detail w rq i)" "act_keeps (holds safe) (admin_health an rq)"
  "act_keeps (holds safe) (admin_config w rq)" "act_keeps (holds safe) (admin_gateway_auth w rq)"
  "act_keeps (holds safe) (admin_secrets w rq)" "act_keeps (holds safe) (admin_uninstall_info w rq)"
  "act_keeps (holds safe) (admin_logs w rq n f)"
  unfolding list_models_def admin_models_def admin_model_detail_def admin_health_def admin_config_def
    admin_gateway_auth_def admin_secrets_def admin_uninstall_info_def admin_logs_def Let_def
  by (intro keeps_rules admin_check_keeps flush_keeps)+

lemma changes_keep:
  assumes "ok w"
  shows "act_keeps (holds safe) (admin_disable_model w rq i)" "act_keeps (holds safe) (admin_enable_model w rq i)"
    "act_keeps (holds safe) (admin_set_config w rq k p)" "act_keeps (holds safe) (admin_delete_config w rq k)"
    "act_keeps (holds safe) (admin_set_gateway_auth w rq p)" "act_keeps (holds safe) (admin_disable_gateway_auth w rq)"
    "act_keeps (holds safe) (admin_inherit_gateway_auth w rq)" "act_keeps (holds safe) (admin_lock_secret_vault w rq)"
    "act_keeps (holds safe) (admin_set_secret w rq k p)" "act_keeps (holds safe) (admin_delete_secret w rq k)"
  unfolding admin_disable_model_def admin_enable_model_def switch_model_def admin_set_config_def set_override_def
    admin_delete_config_def admin_set_gateway_auth_def admin_disable_gateway_auth_def admin_inherit_gateway_auth_def
    store_gateway_auth_def admin_lock_secret_vault_def admin_set_secret_def admin_delete_secret_def change_secret_def Let_def
  by (intro keeps_rules admin_parts assms)+

lemma vault_keeps:
  assumes "ok w"
  shows "act_keeps (holds safe) (admin_setup_secret_vault w rq p)" "act_keeps (holds safe) (admin_unlock_secret_vault w rq p)"
proof -
  show "act_keeps (holds safe) (admin_setup_secret_vault w rq p)"
    unfolding admin_setup_secret_vault_def by (intro keeps_rules admin_parts assms)
  have secret: "act_keeps (holds safe) (case e of SecretStoreDecryptError m \<Rightarrow> h m | SecretStorePasswordError m \<Rightarrow> f m | PyRaise q \<Rightarrow> g q)"
    if "\<And>m. act_keeps (holds safe) (h m)" "\<And>m. act_keeps (holds safe) (f m)" "\<And>q. act_keeps (holds safe) (g q)" for e f g h
    using that by (cases e) simp_all
  show "act_keeps (holds safe) (admin_unlock_secret_vault w rq p)"
    unfolding admin_unlock_secret_vault_def vault_throttle_def
    by (intro keeps_rules admin_parts assms rest_keeps secret) simp_all
qed

lemma refresh_keeps: "ok w \<Longrightarrow> act_keeps (holds safe) (admin_refresh w rq)"
  unfolding admin_refresh_def by (intro keeps_rules admin_parts rest_keeps) simp_all

lemma route_keeps: "ok (an_world an) \<Longrightarrow> act_keeps (holds safe) (admin_route an rq call)"
  by (cases call) (simp_all add: views_keep changes_keep vault_keeps refresh_keeps)

section \<open>Every run\<close>

lemma step_keeps: "gateway_step ok a b \<Longrightarrow> holds safe a \<Longrightarrow> holds safe b"
proof (induction rule: gateway_step.induct)
  case (admin an rq call a b)
  then show ?case by (blast intro: act_keeps_leaves [OF route_keeps])
next
  case (job w j a b)
  then show ?case by (blast intro: act_keeps_leaves [OF job_keeps])
next
  case (chat w px a cw r b)
  then show ?case by (auto simp: chat_step_def holds_def split: prod.splits intro: submit_inv)
next
  case (relay env cat a cx rw first items out es db)
  then show ?case by (auto simp: holds_def intro: submit_inv)
next
  case (writer a db)
  then show ?case by (auto simp: holds_def intro: inv_db_step db_step.writer)
next
  case (shutdown a b)
  then show ?case
    by (auto simp: leaves_def lifespan_shutdown_def holds_def split: option.splits intro: inv_db_step [OF _ db_step.stop])
qed

lemma reach_keeps: "gateway_reach ok a b \<Longrightarrow> holds safe a \<Longrightarrow> holds safe b"
  by (induction rule: gateway_reach.induct) (auto intro: step_keeps)

end

section \<open>What every run keeps\<close>

definition database_sound :: "database \<Rightarrow> bool" where
  "database_sound db = (writer_inv db \<and> wf_tables (db_tables db))"

lemma wf_writer_step: "writer_step db = Some db' \<Longrightarrow> wf_tables (db_tables db) \<Longrightarrow> wf_tables (db_tables db')"
  by (auto simp: writer_step_def acknowledge_def split: if_splits list.splits option.splits dest: wf_exec_stmt)

lemma wf_waiting:
  "(if queue_full db then map_option (push t) (writer_step db) else Some (push t db)) = Some db'
   \<Longrightarrow> wf_tables (db_tables db) \<Longrightarrow> wf_tables (db_tables db')"
  by (auto simp: push_def split: if_splits dest: wf_writer_step)

lemma wf_db_step: "db_step ev db db' \<Longrightarrow> wf_tables (db_tables db) \<Longrightarrow> wf_tables (db_tables db')"
proof (induction rule: db_step.induct)
  case (log s db b db')
  then show ?case by (auto simp: enqueue_low_def Let_def push_def split: if_splits)
next
  case (hiwrite s db db')
  then show ?case unfolding enqueue_def Let_def by (rule wf_waiting)
next
  case (stop db db')
  then show ?case by (cases "w_started db") (auto simp: writer_stop_def intro: wf_waiting)
qed (auto simp: set_low_priority_log_policy_def writer_start_def intro: wf_writer_step)

interpretation soundness: gateway_property ok "\<lambda>db reg s. database_sound db" for ok
proof
  show "database_sound db' " if "database_sound db" "db_step ev db db'" for db ev db'
    using that by (auto simp: database_sound_def intro: db_step_inv wf_db_step)
  show "database_sound (db\<lparr>db_tables := (db_tables db)\<lparr>t_log := filter keep (t_log (db_tables db))\<rparr>\<rparr>)"
    if "database_sound db" for db keep
    using that by (auto simp: database_sound_def writer_defs)
qed auto

lemma bounds_managed_secrets: "settings_bounds (apply_managed_secrets secrets s) = settings_bounds s"
proof -
  have "settings_bounds (fold (managed_secret_step secrets) ps s) = settings_bounds s" for ps s
    by (induction ps arbitrary: s)
      (simp_all add: managed_secret_step_def settings_bounds_def split: option.split)
  then show ?thesis
    by (simp add: apply_managed_secrets_def Let_def settings_bounds_def split: option.split)
qed

lemma bounds_may_load:
  assumes "may_load w s"
  shows "settings_bounds s"
proof -
  from assms obtain t loaded secrets s0 where s: "s = apply_managed_secrets secrets loaded"
    and s0: "from_env (wd_cfg w) (wd_config_file w) = Inr s0"
      "apply_overrides (wd_cfg w) (get_overrides (wd_py w) t) s0 = Inr loaded"
    by (auto simp: may_load_def load_settings_def sbind_Inr)
  have "settings_bounds loaded" by (rule keepsD [OF bounds_apply_overrides bounds_from_env [OF s0(1)] s0(2)])
  with s show ?thesis by (simp add: bounds_managed_secrets)
qed

interpretation bounds: gateway_property ok "\<lambda>db reg s. settings_bounds s" for ok
  by unfold_locales (auto intro: bounds_may_load)

section \<open>Where the keys of a running gateway go\<close>

text \<open>The configuration file lets a provider send its key to a host that is not built in.\<close>

definition opts_in :: "world \<Rightarrow> provider_id \<Rightarrow> bool" where
  "opts_in w n = (case from_env (wd_cfg w) (wd_config_file w) of
       Inl e \<Rightarrow> False
     | Inr s \<Rightarrow> allows_custom_base (get_provider_bootstrap_config s n))"

definition trusted_world :: "url_env \<Rightarrow> (provider_id \<Rightarrow> bool) \<Rightarrow> world \<Rightarrow> bool" where
  "trusted_world ue custom w = (wd_urls w = ue \<and> (\<forall>n. opts_in w n \<longrightarrow> custom n))"

definition hosts_approved :: "url_env \<Rightarrow> (provider_id \<Rightarrow> bool) \<Rightarrow> registry \<Rightarrow> bool" where
  "hosts_approved ue custom reg =
     list_all (\<lambda>(n, r). custom n \<or> approved_base ue n (py_strip (ad_api_base (rg_adapter r)))) reg"

lemma scalar_overrides_bootstrap:
  "list_all (keeps (\<lambda>s. provider_bootstrap_config s = b)) (scalar_override_steps r ov)"
  unfolding scalar_override_steps_def list.pred_inject
  by (intro conjI TrueI keeps_step_rules) simp_all

lemma overrides_bootstrap: "keeps (\<lambda>s. provider_bootstrap_config s = b) (apply_overrides ce ov)"
proof -
  have "keeps (\<lambda>s. provider_bootstrap_config s = b) (provider_override_step item)" for item
    by (rule keepsI, cases item) (auto simp: provider_override_step_def sbind_Inr split: option.splits)
  moreover have "keeps (\<lambda>s. provider_bootstrap_config s = b) (weight_override_step pf ov key)" for pf key
    by (rule keepsI) (auto simp: weight_override_step_def sbind_Inr split: option.splits)
  ultimately show ?thesis
    unfolding apply_overrides_def
    by (intro run_steps_keeps) (use scalar_overrides_bootstrap in \<open>auto simp: list_all_iff\<close>)
qed

lemma managed_step_custom:
  "allows_custom_base (get_provider_bootstrap_config (managed_secret_step secrets p s) n)
   = allows_custom_base (get_provider_bootstrap_config s n)"
  by (auto simp: managed_secret_step_def get_provider_bootstrap_config_def allows_custom_base_def jget_def dict_get_def
      update_conv' Let_def split: option.splits)

lemma managed_custom:
  "allows_custom_base (get_provider_bootstrap_config (apply_managed_secrets secrets s) n)
   = allows_custom_base (get_provider_bootstrap_config s n)"
proof -
  have "allows_custom_base (get_provider_bootstrap_config (fold (managed_secret_step secrets) ps s) n)
      = allows_custom_base (get_provider_bootstrap_config s n)" for ps s
    by (induction ps arbitrary: s) (simp_all add: managed_step_custom)
  then show ?thesis
    by (simp add: apply_managed_secrets_def get_provider_bootstrap_config_def Let_def split: option.split)
qed

lemma loaded_custom:
  assumes "may_load w s" and "allows_custom_base (get_provider_bootstrap_config s n)"
  shows "opts_in w n"
proof -
  from assms(1) obtain t loaded secrets s0 where s: "s = apply_managed_secrets secrets loaded"
    and s0: "from_env (wd_cfg w) (wd_config_file w) = Inr s0"
      "apply_overrides (wd_cfg w) (get_overrides (wd_py w) t) s0 = Inr loaded"
    by (auto simp: may_load_def load_settings_def sbind_Inr)
  from keepsD [OF overrides_bootstrap HOL.refl s0(2)] have "provider_bootstrap_config loaded = provider_bootstrap_config s0" .
  then have "get_provider_bootstrap_config loaded n = get_provider_bootstrap_config s0 n"
    by (simp add: get_provider_bootstrap_config_def Let_def)
  with assms(2) s have "allows_custom_base (get_provider_bootstrap_config s0 n)" by (simp add: managed_custom)
  with s0(1) show ?thesis by (simp add: opts_in_def)
qed

lemma gating_hosts: "hosts_approved ue custom (sync_registry_runtime_gating s reg) = hosts_approved ue custom reg"
  by (induction reg) (auto simp: hosts_approved_def sync_registry_runtime_gating_def)

lemma configured_hosts:
  assumes "trusted_world ue custom w" and "may_load w s" and "register_configured (wd_cfg w) (wd_urls w) s = (reg, e)"
  shows "hosts_approved ue custom reg"
proof -
  have "custom n \<or> approved_base ue n (py_strip (ad_api_base (rg_adapter r)))" if "(n, r) \<in> set reg" for n r
  proof (cases "allows_custom_base (get_provider_bootstrap_config s n)")
    case True
    with loaded_custom [OF assms(2)] assms(1) show ?thesis by (auto simp: trusted_world_def)
  next
    case False
    with registered_bases_approved [of n r "wd_cfg w" "wd_urls w" s] that assms(1,3) show ?thesis
      by (simp add: trusted_world_def)
  qed
  then show ?thesis by (auto simp: hosts_approved_def list_all_iff)
qed

interpretation hosts: gateway_property "trusted_world ue custom" "\<lambda>db reg s. hosts_approved ue custom reg"
  for ue custom
proof
  fix db :: database and reg reg' :: registry and s s' w e
  assume "trusted_world ue custom w" "may_load w s'" "register_configured (wd_cfg w) (wd_urls w) s' = (reg', e)"
  from configured_hosts [OF this]
  show "hosts_approved ue custom reg' \<and> hosts_approved ue custom (sync_registry_runtime_gating s' reg')"
    by (simp add: gating_hosts)
qed auto

section \<open>A started gateway\<close>

lemma boot_sound:
  assumes "boot w t = Inr a" and "wf_tables t" and "trusted_world ue custom w"
  shows "database_sound (st_db a) \<and> settings_bounds (st_settings a) \<and> hosts_approved ue custom (st_registry a)"
proof -
  from assms(1) obtain loaded secrets status reg where l: "load_settings w t = Inr loaded"
    and reg: "register_configured (wd_cfg w) (wd_urls w) (apply_managed_secrets secrets loaded) = (reg, None)"
    and a: "a = app_init (apply_managed_secrets secrets loaded) t status
        (sync_registry_runtime_gating (apply_managed_secrets secrets loaded) reg)"
  proof (cases "load_settings w t")
    case (Inr loaded)
    with assms(1) obtain p where p: "load_managed_secrets (wd_crypto w) t None (get_secret_vault_config t) = Inr p"
      by (auto simp: boot_def sbind_Inr)
    obtain secrets status where [simp]: "p = (secrets, status)" by fastforce
    obtain reg e where "register_configured (wd_cfg w) (wd_urls w) (apply_managed_secrets secrets loaded) = (reg, e)" by fastforce
    with Inr p assms(1) that show ?thesis by (cases e) (auto simp: boot_def Let_def)
  qed (use assms(1) in \<open>simp add: boot_def\<close>)
  have may: "may_load w (apply_managed_secrets secrets loaded)" using l by (auto simp: may_load_def)
  have "writer_inv (st_db a)"
    by (simp add: a app_init_def set_low_priority_log_policy_def writer_start_def writer_init_def writer_defs
        HIGH_PRIORITY_QUEUE_RESERVE_def)
  moreover have "db_tables (st_db a) = t"
    by (simp add: a app_init_def set_low_priority_log_policy_def writer_start_def writer_init_def)
  moreover have "settings_bounds (st_settings a)"
    using bounds_may_load [OF may] by (simp add: a app_init_def)
  ultimately show ?thesis
    using configured_hosts [OF assms(3) may reg] assms(2) by (simp add: database_sound_def a app_init_def gating_hosts)
qed

section \<open>What a failed attempt leaves behind\<close>

lemma failed_attempt_effects:
  assumes "run_attempt px cx ai = (Failed err, es)" and "pe_category err \<noteq> CONTEXT_EXCEEDED"
  obtains message l where "es = map EffWrite (mark_failure (px_settings px) (ai_tables ai) (ai_now ai) (p_id (cx_pick cx)) message)
      @ [EffLog l]" and "log_bindable l \<longleftrightarrow> bindable (rr_requested_model (cx_req cx))"
proof -
  have log: "log_bindable (failure_log cx now n e) \<longleftrightarrow> bindable (rr_requested_model (cx_req cx))" for now n e
    by (simp add: log_bindable_def failure_log_def base_log_def)
  from assms(1) obtain e where "handle_exn (px_settings px) cx ai e = (Failed err, es)"
    by (auto simp: run_attempt_def split: sum.splits answer.splits)
  with assms(2) log that show ?thesis
    by (cases e) (auto simp: handle_exn_def Let_def mark_failure_effects_def log_failure_def split: if_splits)
qed

lemma submit_writes: "submit (map EffWrite sts @ es) db = (case fold_opt enqueue sts db of None \<Rightarrow> None | Some db' \<Rightarrow> submit es db')"
  by (induction sts arbitrary: db) (auto split: option.split)

text \<open>A log row is executed after everything queued before it, or dropped.\<close>

lemma enqueue_low_settles:
  assumes "running db" and "settled db = Some t" and "exec_stmt s t = Some t'" and "enqueue_low s db = (b, db')"
  shows "running db' \<and> settled db' = Some (if b then t' else t)"
  using assms writer_inv_enqueue_low [OF assms(4)]
  by (auto simp: running_def settled_def pending_stmts_def exec_stmts_append enqueue_low_def push_def Let_def
      split: if_splits)

lemma failure_reaches_tables:
  assumes "run_attempt px cx ai = (Failed err, es)" and "pe_category err \<noteq> CONTEXT_EXCEEDED"
    and "bindable (rr_requested_model (cx_req cx))" and "running db" and "settled db = Some t"
  shows "\<exists>db1 db2 message t2. submit es db = Some db1 \<and> flush db1 = Some db2 \<and> w_queue db2 = []
    \<and> exec_stmts (mark_failure (px_settings px) (ai_tables ai) (ai_now ai) (p_id (cx_pick cx)) message) t = Some t2
    \<and> t_models (db_tables db2) = t_models t2"
proof -
  obtain message l where es: "es = map EffWrite (mark_failure (px_settings px) (ai_tables ai) (ai_now ai) (p_id (cx_pick cx)) message)
      @ [EffLog l]" and l: "log_bindable l"
    using failed_attempt_effects [OF assms(1,2)] assms(3) by metis
  let ?sts = "mark_failure (px_settings px) (ai_tables ai) (ai_now ai) (p_id (cx_pick cx)) message"
  have "exec_stmts ?sts t \<noteq> None"
    by (cases "find_model (ai_tables ai) (p_id (cx_pick cx))") (simp_all add: mark_failure_def Let_def)
  then obtain t2 where t2: "exec_stmts ?sts t = Some t2" by blast
  obtain db0 where db0: "fold_opt enqueue ?sts db = Some db0" "running db0" "settled db0 = Some t2"
    using writer.submit_all_settles [OF assms(4,5)] t2 unfolding exec_stmts_def by blast
  obtain b db1 where db1: "enqueue_low (InsertLog l) db0 = (b, db1)" by fastforce
  have "exec_stmt (InsertLog l) t2 = Some (t2\<lparr>t_log := t_log t2 @ [l]\<rparr>)" using l by simp
  from enqueue_low_settles [OF db0(2,3) this db1] obtain t3 where t3: "running db1" "settled db1 = Some t3"
    "t_models t3 = t_models t2" by (cases b) auto
  from flush_running [OF t3(1,2)] obtain db2 where "flush db1 = Some db2" "w_queue db2 = []" "db_tables db2 = t3" by blast
  moreover have "submit es db = Some db1" by (simp add: es submit_writes db0(1) db1)
  ultimately show ?thesis using t2 t3(3) by auto
qed

end
