(* ===== verification/FL_Smoke.thy ===== *)
theory FL_Smoke
  imports FL_Discover FL_Proxy
begin

text \<open>
  The manual smoke test (\<open>scripts/provider_smoke.py\<close>): it configures a registry like the gateway
  does, asks each provider of its target list for its models and reports pass, fail or skip. The
  answers of the servers, the elapsed times and the texts of Python exceptions are fields of
  \<open>smoke_world\<close>. Argument parsing and the console are not modelled; the lines it prints are.
\<close>

datatype smoke_status = Pass | Fail | Skip

record smoke_result =
  sr_provider_id :: string
  sr_status :: smoke_status
  sr_message :: string
  sr_discovered_models :: "int option"
  sr_elapsed_ms :: "int option"

record smoke_world =
  sw_cfg :: cfg_env
  sw_urls :: url_env
  sw_py :: py_env
  sw_answer :: "adapter \<Rightarrow> attempt"
  sw_elapsed_ms :: "adapter \<Rightarrow> int"
  sw_exc_type :: "py_error \<Rightarrow> string"
  sw_exc_text :: "py_error \<Rightarrow> string"

section \<open>Checking one provider\<close>

definition target_provider_ids :: "settings \<Rightarrow> string list \<Rightarrow> string list" where
  "target_provider_ids s provider_filter =
    (if provider_filter \<noteq> [] then dedup_on id [] (filter (\<lambda>p. p \<noteq> []) (map py_strip provider_filter))
     else dedup_on id [] (filter (\<lambda>p. py_strip p \<noteq> []) (providers_enabled s)))"

definition smoke_failure :: "smoke_world \<Rightarrow> adapter \<Rightarrow> fetch_failure \<Rightarrow> string" where
  "smoke_failure sw ad f = (case f of
       FProvider e \<Rightarrow> category_name (pe_category e) @ '': '' @ take 300 (pe_message e)
     | FPython e \<Rightarrow> sw_exc_type sw e @ '': '' @ take 300 (sw_exc_text sw e))"

definition smoke_registered_provider :: "smoke_world \<Rightarrow> registered_provider \<Rightarrow> smoke_result" where
  "smoke_registered_provider sw r =
    (let ad = rg_adapter r;
         result = (\<lambda>status message models elapsed. \<lparr>sr_provider_id = rg_name r, sr_status = status,
           sr_message = message, sr_discovered_models = models, sr_elapsed_ms = elapsed\<rparr>)
     in if \<not> ad_discovery_available ad \<and> \<not> ad_inference_available ad
        then result Skip ''runtime capability unavailable (credentials not configured)'' None None
        else if \<not> rg_discovery_enabled r
        then result Skip ''discovery smoke skipped because discovery is disabled'' None None
        else case adapter_listing (sw_py sw) ad (sw_answer sw ad) of
          Inl f \<Rightarrow> result Fail (smoke_failure sw ad f) None (Some (sw_elapsed_ms sw ad))
        | Inr models \<Rightarrow>
            if models = [] then result Fail ''discover_models returned no models'' (Some 0) (Some (sw_elapsed_ms sw ad))
            else result Pass ''discovery smoke succeeded'' (Some (int (length models))) (Some (sw_elapsed_ms sw ad)))"

section \<open>The run\<close>

text \<open>The loop over the targets, on a registry by name.\<close>

definition smoke_target :: "smoke_world \<Rightarrow> settings \<Rightarrow> registry \<Rightarrow> string \<Rightarrow> smoke_result" where
  "smoke_target sw s reg p =
    (let untested = (\<lambda>status message. \<lparr>sr_provider_id = p, sr_status = status, sr_message = message,
           sr_discovered_models = None, sr_elapsed_ms = None\<rparr>)
     in if \<not> is_provider_enabled s p then untested Skip ''provider disabled by config''
        else case map_of (map (\<lambda>(n, r). (rg_name r, r)) reg) p of
          None \<Rightarrow> untested Fail ''provider is enabled but not registered''
        | Some r \<Rightarrow> smoke_registered_provider sw r)"

definition run_provider_smoke :: "smoke_world \<Rightarrow> settings \<Rightarrow> string list \<Rightarrow> py_error + smoke_result list" where
  "run_provider_smoke sw s provider_filter =
    (case register_configured (sw_cfg sw) (sw_urls sw) s of
       (reg, Some e) \<Rightarrow> Inl e
     | (reg, None) \<Rightarrow>
         Inr (map (smoke_target sw s (sync_registry_runtime_gating s reg)) (target_provider_ids s provider_filter)))"

definition compute_exit_code :: "smoke_result list \<Rightarrow> int" where
  "compute_exit_code results = (if list_ex (\<lambda>r. sr_status r = Fail) results then 1 else 0)"

definition summary_counts :: "smoke_result list \<Rightarrow> (string \<times> int) list" where
  "summary_counts results =
    [(''pass'', count_if (\<lambda>r. sr_status r = Pass) results), (''fail'', count_if (\<lambda>r. sr_status r = Fail) results),
     (''skip'', count_if (\<lambda>r. sr_status r = Skip) results), (''total'', int (length results))]"

section \<open>What is printed\<close>

definition status_text :: "smoke_status \<Rightarrow> string" where
  "status_text st = (case st of Pass \<Rightarrow> ''pass'' | Fail \<Rightarrow> ''fail'' | Skip \<Rightarrow> ''skip'')"

definition upper_status :: "smoke_status \<Rightarrow> string" where
  "upper_status st = (case st of Pass \<Rightarrow> ''PASS'' | Fail \<Rightarrow> ''FAIL'' | Skip \<Rightarrow> ''SKIP'')"

definition result_line :: "smoke_result \<Rightarrow> string" where
  "result_line r = ''['' @ upper_status (sr_status r) @ ''] '' @ sr_provider_id r @ '': '' @ sr_message r
     @ (case sr_discovered_models r of None \<Rightarrow> [] | Some n \<Rightarrow> '' models='' @ show_int n)
     @ (case sr_elapsed_ms r of None \<Rightarrow> [] | Some n \<Rightarrow> '' elapsed_ms='' @ show_int n)"

text \<open>\<open>json.dumps([asdict(..)], indent=2)\<close>, line by line.\<close>

definition result_fields :: "smoke_result \<Rightarrow> (string \<times> json) list" where
  "result_fields r =
    [(''provider_id'', JStr (sr_provider_id r)), (''status'', JStr (status_text (sr_status r))),
     (''message'', JStr (sr_message r)), (''discovered_models'', json_int (sr_discovered_models r)),
     (''elapsed_ms'', json_int (sr_elapsed_ms r))]"

fun separated :: "string list \<Rightarrow> string list" where
  "separated [] = []"
| "separated [l] = [l]"
| "separated (l # ls) = (l @ '','') # separated ls"

definition object_lines :: "(json \<Rightarrow> string) \<Rightarrow> (string \<times> json) list \<Rightarrow> string list" where
  "object_lines py_repr kvs = [''  {''] @ separated (map (\<lambda>(k, v). ''    '' @ json_string k @ '': '' @ json_dumps py_repr v) kvs)
     @ [''  }'']"

fun array_lines :: "string list list \<Rightarrow> string list" where
  "array_lines [] = []"
| "array_lines [ls] = ls"
| "array_lines (ls # rest) = butlast ls @ [last ls @ '',''] @ array_lines rest"

definition json_report :: "(json \<Rightarrow> string) \<Rightarrow> smoke_result list \<Rightarrow> string list" where
  "json_report py_repr results = (if results = [] then [''[]'']
     else [''[''] @ array_lines (map (\<lambda>r. object_lines py_repr (result_fields r)) results) @ ['']''])"

definition summary_line :: "smoke_result list \<Rightarrow> string" where
  "summary_line results = ''summary:'' @ concat (map (\<lambda>(k, n). '' '' @ k @ ''='' @ show_int n) (summary_counts results))"

definition print_results :: "(json \<Rightarrow> string) \<Rightarrow> bool \<Rightarrow> smoke_result list \<Rightarrow> string list" where
  "print_results py_repr as_json results =
    (if as_json then json_report py_repr results else map result_line results) @ [summary_line results]"

text \<open>\<open>main\<close>: the lines and the exit code, or the exception that ends the script.\<close>

definition smoke_main :: "smoke_world \<Rightarrow> json option \<Rightarrow> string list \<Rightarrow> bool \<Rightarrow> py_error + string list \<times> int" where
  "smoke_main sw config_file provider_filter as_json =
    sbind (from_env (sw_cfg sw) config_file) (\<lambda>s.
    sbind (run_provider_smoke sw s provider_filter) (\<lambda>results.
      Inr (print_results (env_repr (sw_py sw)) as_json results, compute_exit_code results)))"

section \<open>The report is complete\<close>

lemma smoke_registered_name [simp]: "sr_provider_id (smoke_registered_provider sw r) = rg_name r"
  by (simp add: smoke_registered_provider_def Let_def split: sum.split)

lemma smoke_target_id [simp]: "sr_provider_id (smoke_target sw s reg p) = p"
  by (auto simp: smoke_target_def Let_def split: option.split dest!: map_of_SomeD)

text \<open>One result per target, in order; the counts add up; the exit code is 1 iff one of them failed.\<close>

lemma smoke_report:
  assumes "run_provider_smoke sw s provider_filter = Inr results"
  shows "map sr_provider_id results = target_provider_ids s provider_filter"
    and "distinct (map sr_provider_id results)"
    and "count_if (\<lambda>r. sr_status r = Pass) results + count_if (\<lambda>r. sr_status r = Fail) results
      + count_if (\<lambda>r. sr_status r = Skip) results = int (length results)"
    and "compute_exit_code results = 1 \<longleftrightarrow> 0 < count_if (\<lambda>r. sr_status r = Fail) results"
proof -
  from assms obtain reg where r: "results = map (smoke_target sw s reg) (target_provider_ids s provider_filter)"
    by (auto simp: run_provider_smoke_def split: prod.splits option.splits)
  then show ids: "map sr_provider_id results = target_provider_ids s provider_filter" by (simp add: comp_def)
  show "distinct (map sr_provider_id results)"
    unfolding ids using dedup_on_distinct [of "id :: string \<Rightarrow> string"] by (simp add: target_provider_ids_def)
  show "count_if (\<lambda>r. sr_status r = Pass) results + count_if (\<lambda>r. sr_status r = Fail) results
      + count_if (\<lambda>r. sr_status r = Skip) results = int (length results)"
  proof (induction results)
    case (Cons r rs)
    then show ?case by (cases "sr_status r") (simp_all add: count_if_def)
  qed (simp add: count_if_def)
  show "compute_exit_code results = 1 \<longleftrightarrow> 0 < count_if (\<lambda>r. sr_status r = Fail) results"
    by (auto simp: compute_exit_code_def count_if_def list_ex_iff filter_empty_conv)
qed

text \<open>A provider passes only if its adapter listed a model, with discovery enabled and a credential or the stub.\<close>

lemma smoke_pass:
  assumes "sr_status (smoke_target sw s reg p) = Pass"
  shows "is_provider_enabled s p \<and> (\<exists>(n, r) \<in> set reg. rg_name r = p \<and> rg_discovery_enabled r
    \<and> (\<exists>d ds. adapter_listing (sw_py sw) (rg_adapter r) (sw_answer sw (rg_adapter r)) = Inr (d # ds)))"
proof -
  from assms obtain r where "is_provider_enabled s p" and r: "map_of (map (\<lambda>(n, r). (rg_name r, r)) reg) p = Some r"
    and pass: "sr_status (smoke_registered_provider sw r) = Pass"
    by (auto simp: smoke_target_def Let_def split: if_splits option.splits)
  moreover from map_of_SomeD [OF r] obtain n where "(n, r) \<in> set reg" "rg_name r = p" by auto
  moreover have "rg_discovery_enabled r
      \<and> (\<exists>d ds. adapter_listing (sw_py sw) (rg_adapter r) (sw_answer sw (rg_adapter r)) = Inr (d # ds))"
    using pass by (auto simp: smoke_registered_provider_def Let_def neq_Nil_conv split: if_splits sum.splits)
  ultimately show ?thesis by fastforce
qed

end
