(* ===== verification/Spec2Isabelle.thy ===== *)
theory Spec2Isabelle
  imports FL_Prelude FL_Json FL_Providers FL_Tables FL_Writer FL_Tokens FL_Routing FL_Config FL_Health FL_Ranking
    FL_Migrations FL_Sse FL_Adapters FL_Registry FL_Listing FL_Streams FL_Benchmarks FL_Discover FL_Lifecycle
    FL_Throttle FL_Secrets FL_Auth FL_Proxy FL_Endpoint FL_Hub FL_Review FL_RuntimeLog FL_Admin FL_System
    FL_Smoke
begin

text \<open>
  Verification of FreeLunch, a gateway that offers one OpenAI-style chat endpoint and routes every
  request to one of many free models at several providers. The program under \<open>src/src/\<close> is one
  Python process: request handlers, a scheduler with periodic jobs, and one writer thread in
  front of an SQLite file. This theory collects the library; the paths below are under \<open>src/src/\<close>.

  \<^bold>\<open>How the parts work together.\<close> A chat request is authenticated (\<open>FL_Auth\<close>), read and turned
  into requirements, and the router selects candidates from the models table (\<open>FL_Routing\<close>) with
  the token estimates of \<open>FL_Tokens\<close>. The failover loop calls the adapters of the registry one after
  the other (\<open>FL_Proxy\<close>, \<open>FL_Streams\<close>), records failures and successes (\<open>FL_Health\<close>) and logs one row
  per attempt. Everything written goes as a statement through the queue of the writer thread
  (\<open>FL_Writer\<close>), which executes it on the tables (\<open>FL_Tables\<close>). The jobs refresh what routing reads:
  discovery lists the models of the providers, the benchmarks fill the leaderboard cache, ranking
  stores scores, probes test idle models. The administration endpoints change overrides, secrets
  and models, and reload the settings (\<open>FL_Admin\<close>, \<open>FL_Lifecycle\<close>).

  \<^bold>\<open>Theories, code and what is shown.\<close>

  \<^item> \<open>FL_Prelude\<close>, \<open>FL_Json\<close>: Python built-ins on text, numbers, dictionaries and JSON values, with the
    generic lemmas (folds that may fail, insertion-ordered dictionaries, stable sorting).
  \<^item> \<open>FL_Providers\<close> (\<open>providers/base.py\<close>, error handling of the adapters): error categories, the
    bounded retry loop and its bounds. The locale \<open>error_categorizer\<close> is the contract of a
    categoriser, interpreted on both.
  \<^item> \<open>FL_Adapters\<close>, \<open>FL_Registry\<close> (\<open>providers/registry.py\<close>, the provider modules): adapters, factories,
    base URL validation, registration and gating. Keys go only to approved hosts.
  \<^item> \<open>FL_Listing\<close> (\<open>discover_models\<close> and the reading of answers in both adapters), \<open>FL_Sse\<close> (the event
    splitter: equal to a reference that sees the whole body, and inverse to the wire format),
    \<open>FL_Streams\<close> (requests, chat, probe and stream calls, the stub, and the composition of splitter,
    failover loop and relay).
  \<^item> \<open>FL_Tables\<close>, \<open>FL_Migrations\<close>, \<open>FL_Writer\<close> (\<open>db.py\<close>): rows and statements with the key invariant;
    schema and migrations, where an interrupted start is repaired by the next; the write-behind
    queue as a transition system, an implementation of the locale \<open>write_behind\<close>: submitting and
    flushing is executing in order.
  \<^item> \<open>FL_Tokens\<close>, \<open>FL_Hub\<close> (\<open>tokens.py\<close>): estimates; repository names and the cache filled by
    background jobs, under every interleaving.
  \<^item> \<open>FL_Routing\<close> (\<open>routing.py\<close>): picks are eligible, distinct and bounded; when selection reports that
    nothing is routable, and when it overflows instead.
  \<^item> \<open>FL_Config\<close> (\<open>config.py\<close>): settings from file, environment, overrides and secrets, with the bounds
    the code enforces.
  \<^item> \<open>FL_Health\<close>, \<open>FL_Review\<close> (\<open>health.py\<close>): circuit breaker and cooldown, probe batches under every
    schedule (budget, concurrency, termination), the review of token estimates.
  \<^item> \<open>FL_Ranking\<close> (\<open>ranking.py\<close>), \<open>FL_Benchmarks\<close> (\<open>benchmarks.py\<close>), \<open>FL_Discover\<close> (\<open>discover.py\<close>): scores in
    range; downloads that end and are complete; discovery that makes exactly the listed models
    active, and the shapes of listings that fit the tables.
  \<^item> \<open>FL_Throttle\<close> (\<open>security_throttle.py\<close>), \<open>FL_Secrets\<close> (\<open>secret_store.py\<close>), \<open>FL_Auth\<close> (\<open>main.py\<close>, \<open>proxy.py\<close>):
    the failure table, an implementation of the locale \<open>lockout\<close> and a refinement of independent
    windows; the vault; which credential is in force and the check of a request.
  \<^item> \<open>FL_Proxy\<close>, \<open>FL_Endpoint\<close> (\<open>proxy.py\<close>): the chat endpoint, its error replies, penalties and log
    rows, the relay of streams, and the end-to-end statements.
  \<^item> \<open>FL_Lifecycle\<close> (\<open>main.py\<close>, \<open>scheduler.py\<close>), \<open>FL_Admin\<close> (the administration endpoints), \<open>FL_RuntimeLog\<close>
    (\<open>runtime_logging.py\<close>): actions on the whole application state; readiness, reload, key rotation,
    overrides and secrets; the log queue.
  \<^item> \<open>FL_Smoke\<close> (\<open>../scripts/provider_smoke.py\<close>): the manual smoke test of the providers and its report.
  \<^item> \<open>FL_System\<close> and this theory: all of it as one step relation, the locale \<open>gateway_property\<close> that
    carries a property of database, registry and settings through every handler and job, its
    three interpretations, and the properties of whole runs.

  \<^bold>\<open>State and effects.\<close> A record stands for each object with state: \<open>tables\<close> for the database file,
  \<open>database\<close> for writer, queue and tables, \<open>registry\<close>, \<open>throttle\<close>, \<open>hub\<close> state, \<open>app\<close> for what
  \<open>app.state\<close> holds. Handlers of one component are functions from the committed tables to
  statements; handlers that flush and reload are actions on the application state, which return,
  raise or never return. Concurrency that matters is a step relation (\<open>db_step\<close>, \<open>batch_step\<close>,
  \<open>hub_step\<close>, and \<open>gateway_step\<close> for the whole); exceptions are values of sums (\<open>py_error\<close>, \<open>provider_error\<close>, \<open>raised\<close>, \<open>exn\<close>).

  \<^bold>\<open>Parameters.\<close> What is not in the repository is an argument: JSON decoding and lenient UTF-8
  (\<open>py_env\<close>), environment and float parsing (\<open>cfg_env\<close>), URL brackets and IPv6 (\<open>url_env\<close>), key
  derivation, cipher and random bytes (\<open>crypto\<close>), tokenizers (\<open>tok_env\<close>, \<open>hub_env\<close>), CSV
  (\<open>bench_env\<close>), the servers behind the HTTP client (\<open>upstream\<close>, \<open>upstream_http\<close>) and the clock. A theorem
  that relies on one of them says so in a hypothesis and has an instance.

  \<^bold>\<open>Abstractions.\<close> Floats are exact rationals, without rounding, infinities and NaN. Python
  integers are unbounded, as in Python; where SQLite bounds them to 64 bits a wider one makes the
  statement or the query raise. Text has the code points 0 to 255, so that no string fails to be bound
  for a lone surrogate. Time stamps are whole seconds without an upper end: the error of \<open>datetime\<close>
  past the year 9999, within reach of huge configured backoffs only, is left out, and so is SQLite's
  limit on the number of parameters of one statement. A table is the list of its rows in the order
  the engine visits them. Lines of the runtime log have no effect on the rest.

  \<^bold>\<open>Termination and bounds.\<close> All functions are total and none carries fuel that is not in the code:
  the retry loop is bounded by the number of attempts, the paged download by its page bound
  (both shown to end within it), the splitter by the length of its buffer, \<open>flush\<close> by the length of
  the queue. Waiting for a writer thread that is gone is the value \<^const>\<open>None\<close>, or an action
  that never returns. A probe batch is an unbounded relation; that every schedule of it ends is a
  theorem.

  \<^bold>\<open>Not modelled.\<close> \<open>admin_ui.py\<close> serves static files. \<open>scripts/generate_architecture.py\<close> renders
  documentation from the syntax trees of the sources and takes no part in the gateway. The web framework (parsing of paths, query strings and headers, the
  cancellation of a generator when the server drops it), the timers of the scheduler library, the
  HTTP client, SQLite's connections and pragmas, and the text of runtime log lines belong to
  libraries. \<open>asyncio\<close> interleavings of several chat requests are represented by the tables each
  attempt reads, which may be any.
\<close>

section \<open>The whole gateway\<close>

text \<open>
  C2 (invariant). Every run of a started gateway stays sound. Whatever requests, administration
  calls, jobs, writer steps and shutdowns follow each other, in any order and ending in any way: the
  tables keep their primary keys, the queue its bound and its count of log rows, the settings in
  force their lower bounds, and every adapter in the registry sends its key over HTTPS to a host
  built in for its provider, unless the configuration file opted in for it. This includes the
  states after a reload or a job that raised.
\<close>

theorem gateway_runs_safely:
  assumes "boot w t = Inr a" and "wf_tables t" and "trusted_world ue custom w"
    and "gateway_reach (trusted_world ue custom) a b"
  shows "wf_tables (committed b) \<and> writer_inv (st_db b) \<and> settings_bounds (st_settings b)
    \<and> list_all (\<lambda>(n, r). custom n \<or> approved_base ue n (py_strip (ad_api_base (rg_adapter r)))) (st_registry b)"
proof -
  note start = boot_sound [OF assms(1-3)]
  have "database_sound (st_db b)"
    using soundness.reach_keeps [OF assms(4)] start by (simp add: holds_def)
  moreover have "settings_bounds (st_settings b)"
    using bounds.reach_keeps [OF assms(4)] start by (simp add: holds_def)
  moreover have "hosts_approved ue custom (st_registry b)"
    using hosts.reach_keeps [OF assms(4)] start by (simp add: holds_def)
  ultimately show ?thesis by (simp add: database_sound_def committed_def hosts_approved_def)
qed

text \<open>The step of the example: an anonymous caller asks for the models.\<close>

lemma idle_boot: "\<exists>a. boot idle_world healthy_tables = Inr a"
proof -
  have "loads idle_world healthy_tables None" by code_simp
  then show ?thesis
    by (auto simp: loads_def boot_def Let_def split: sum.splits prod.splits option.splits)
qed

lemma step_of_models:
  fixes an :: admin_env
  assumes ok: "ok (an_world an)"
  shows "\<exists>b. gateway_step ok a b"
proof -
  have "leaves (admin_route an rq AdminModels a) \<noteq> None" for rq
    by (simp add: leaves_def admin_models_def act_then_def act_bind_def act_get_def admin_check_def with_throttles_def
        split: prod.split sum.split)
  with gateway_step.admin [of ok an, OF ok] show ?thesis by blast
qed

theorem gateway_runs_safely_witness:
  "\<exists>a b. boot idle_world healthy_tables = Inr a \<and> gateway_step (trusted_world plain_urls (\<lambda>n. False)) a b
    \<and> wf_tables (committed b) \<and> settings_bounds (st_settings b)
    \<and> list_all (\<lambda>(n, r). approved_base plain_urls n (py_strip (ad_api_base (rg_adapter r)))) (st_registry b)"
proof -
  let ?ok = "trusted_world plain_urls (\<lambda>n. False)"
  obtain a where a: "boot idle_world healthy_tables = Inr a" using idle_boot by blast
  have plain: "wd_cfg idle_world = FL_Registry.plain_env" "wd_config_file idle_world = None" "wd_urls idle_world = plain_urls"
    by (simp_all add: idle_world_def)
  have "case from_env FL_Registry.plain_env None of Inl e \<Rightarrow> True | Inr s \<Rightarrow> provider_bootstrap_config s = [(''openrouter'', [])]" by code_simp
  then have ok: "?ok idle_world"
    by (auto simp: trusted_world_def opts_in_def plain get_provider_bootstrap_config_def Let_def dict_get_def
        allows_custom_base_def jget_def split: sum.splits)
  have wf: "wf_tables healthy_tables" by (simp add: wf_tables_def healthy_tables_def empty_tables_def example_model_def)
  have "?ok (an_world idle_admin)" using ok by (simp add: idle_admin_def)
  from step_of_models [where ok = ?ok and an = idle_admin and a = a, OF this] obtain b where b: "gateway_step ?ok a b" by blast
  from gateway_runs_safely [OF a wf ok gateway_reach.step [OF gateway_reach.refl b]] have "wf_tables (committed b)"
    "settings_bounds (st_settings b)" "list_all (\<lambda>(n, r). approved_base plain_urls n (py_strip (ad_api_base (rg_adapter r)))) (st_registry b)"
    by simp_all
  with a b show ?thesis by blast
qed

text \<open>
  C3 (safety). A failure is felt by the following requests. Let an attempt of a chat request fail for a
  reason that counts against the model. The model is a row of the settled tables, the writer thread
  runs, and the model named by the client is a value the driver can store. Then what the attempt hands to
  the writer is executed by the time of the next flush, whether or not its log row finds room in
  the queue. In every later state of the database no request that selects its candidates before
  the end of the cooldown is given the model, as long as nobody has since submitted a success of
  that model (an attempt in flight or a probe) or a failure of it with an earlier end: those two, and
  no other statement, lift the cooldown early.
\<close>

theorem failed_attempt_sidelines_model:
  assumes "run_attempt px cx ai = (Failed err, es)" and "pe_category err \<noteq> CONTEXT_EXCEEDED"
    and "find_model (ai_tables ai) (p_id (cx_pick cx)) = Some m0" and "bindable (rr_requested_model (cx_req cx))"
    and "running db" and "settled db = Some t" and "p_id (cx_pick cx) \<in> m_id ` set (t_models t)"
    and "until' = cooldown_end (px_settings px) (ai_now ai) m0"
  shows "\<exists>db1 db2. submit es db = Some db1 \<and> flush db1 = Some db2
    \<and> (\<forall>db3 now' te req prefs fb limit ps.
         db_reach (submits (\<lambda>s. \<not> lifts_cooldown (p_id (cx_pick cx)) until' s)) db2 db3 \<longrightarrow> now' \<le> until'
         \<longrightarrow> pick_candidates (db_tables db3) now' te req prefs fb limit = Inr ps \<longrightarrow> p_id (cx_pick cx) \<notin> p_id ` set ps)"
proof -
  let ?i = "p_id (cx_pick cx)" and ?ok = "\<lambda>s. \<not> lifts_cooldown (p_id (cx_pick cx)) until' s"
  from failure_reaches_tables [OF assms(1,2,4-6)] obtain db1 db2 message t2 where
    db: "submit es db = Some db1" "flush db1 = Some db2" "w_queue db2 = []"
    and t2: "exec_stmts (mark_failure (px_settings px) (ai_tables ai) (ai_now ai) ?i message) t = Some t2"
      "t_models (db_tables db2) = t_models t2" by blast
  have "held_until ?i until' (db_tables db2)"
    using failure_holds [OF assms(3) t2(1) assms(7)] t2(2) by (simp add: held_until_def assms(8))
  with db(3) have start: "queue_holds ?ok (held_until ?i until') db2" by (simp add: queue_holds_def)
  have "held_until ?i until' (db_tables db3)" if "db_reach (submits ?ok) db2 db3" for db3
    using queue_holds_reach [OF held_exec that start] by (simp add: queue_holds_def)
  with db held_not_picked show ?thesis by blast
qed

theorem failed_attempt_sidelines_model_witness:
  "\<exists>es db1 db2. run_attempt example_px example_cx (example_input (Raises (Timeout ''late'')))
      = (Failed (unavailable ''late''), es)
    \<and> submit es started_db = Some db1 \<and> flush db1 = Some db2
    \<and> (\<forall>db3 te req prefs fb limit ps. db_reach (submits (\<lambda>s. \<not> lifts_cooldown ''m1'' 3700 s)) db2 db3
         \<longrightarrow> pick_candidates (db_tables db3) 3000 te req prefs fb limit = Inr ps \<longrightarrow> ''m1'' \<notin> p_id ` set ps)"
proof -
  let ?ai = "example_input (Raises (Timeout ''late''))"
  have set: "health_max_backoff_exponent default_settings = 4" "health_cooldown_minutes default_settings = 30"
    by (simp_all add: default_settings_def post_init_def field_defaults_def Let_def)
  obtain es where run: "run_attempt example_px example_cx ?ai = (Failed (unavailable ''late''), es)"
    by (simp add: run_attempt_def provider_answer_def example_input_def handle_exn_def Let_def)
  have id: "p_id (cx_pick example_cx) = ''m1''" by (simp add: example_cx_def example_pick_def)
  have m: "find_model (ai_tables ?ai) (p_id (cx_pick example_cx)) = Some (example_model ''m1'' 40)"
    by (simp add: example_input_def id)
  have bind: "bindable (rr_requested_model (cx_req example_cx))"
    by (simp add: example_cx_def example_request_def)
  have db: "running started_db" "settled started_db = Some healthy_tables"
    by (simp_all add: started_db_def running_def settled_def pending_stmts_def writer_start_def writer_init_def writer_defs
        HIGH_PRIORITY_QUEUE_RESERVE_def)
  have known: "p_id (cx_pick example_cx) \<in> m_id ` set (t_models healthy_tables)"
    by (simp add: id healthy_tables_def example_model_def)
  have until: "(3700 :: int) = cooldown_end (px_settings example_px) (ai_now ?ai) (example_model ''m1'' 40)"
    by (simp add: cooldown_end_def example_input_def example_px_def set example_model_def)
  have counts: "pe_category (unavailable ''late'') \<noteq> CONTEXT_EXCEEDED" by (simp add: unavailable_sels)
  from failed_attempt_sidelines_model [OF run counts m bind db known until] obtain db1 db2 where
    db12: "submit es started_db = Some db1" "flush db1 = Some db2"
    and later: "\<forall>db3 now' te req prefs fb limit ps. db_reach (submits (\<lambda>s. \<not> lifts_cooldown ''m1'' 3700 s)) db2 db3
      \<longrightarrow> now' \<le> 3700 \<longrightarrow> pick_candidates (db_tables db3) now' te req prefs fb limit = Inr ps \<longrightarrow> ''m1'' \<notin> p_id ` set ps"
    unfolding id by blast
  have "(3000 :: int) \<le> 3700" by simp
  with run db12 later show ?thesis by blast
qed

end
